theory Spec2Isabelle
  imports Complex_Main "HOL-Library.Word" "HOL-Library.Log_Nat"
begin

section \<open>ImQuick: a shallow embedding of \<^verbatim>\<open>imquick.py\<close>\<close>

text \<open>
  The viewer is one Python class, \<^verbatim>\<open>ImQuick\<close>, whose methods mutate the fields of the
  window object, plus the module-level function \<^verbatim>\<open>rescale_data\<close>. The embedding keeps
  the method and field names. Python integers are \<^typ>\<open>int\<close>; a float is the rational
  number (\<^typ>\<open>rat\<close>) it stands for. The arithmetic on the zoom factor is rounded to
  double precision (\<open>float64\<close> below); the arithmetic of numpy on samples and the crop
  bounds of \<^verbatim>\<open>show_image\<close> are taken exactly. A \<^verbatim>\<open>uint8\<close> sample is an \<^typ>\<open>8 word\<close>.
  An exception is a value of \<open>py_error\<close>.
\<close>

subsection \<open>Exceptions, numbers and arrays\<close>

datatype py_error =
    ValueError | IndexError | ZeroDivisionError | AttributeError | TypeError | OSError
  | OtherError string

type_synonym u8 = "8 word"

text \<open>
  A numpy array as the viewer uses it: a two-dimensional image of height \<open>h\<close> and width
  \<open>w\<close> with its samples in row order, or a three-dimensional one given by its channel
  slices \<^verbatim>\<open>data[:, :, i]\<close>, in channel order.
\<close>

datatype 'a ndarray = Gray nat nat "'a list" | Multi nat nat "'a list list"

fun samples :: "'a ndarray \<Rightarrow> 'a list" where
  "samples (Gray h w xs) = xs"
| "samples (Multi h w chs) = concat chs"

fun shape :: "'a ndarray \<Rightarrow> nat list" where
  "shape (Gray h w xs) = [h, w]"
| "shape (Multi h w chs) = [h, w, length chs]"

text \<open>\<^verbatim>\<open>int(x)\<close> on a float, and the C cast inside \<^verbatim>\<open>astype\<close>: truncation towards zero.\<close>

definition trunc :: "rat \<Rightarrow> int" where
  "trunc x = (if 0 \<le> x then \<lfloor>x\<rfloor> else - \<lfloor>- x\<rfloor>)"

text \<open>
  \<^verbatim>\<open>astype('uint8')\<close>: the fraction is dropped and the integer is reduced modulo 256 (what
  numpy does for values in the range of a machine integer).
\<close>

definition astype_uint8 :: "rat \<Rightarrow> u8" where
  "astype_uint8 x = word_of_int (trunc x)"

text \<open>\<^verbatim>\<open>data.max()\<close>: numpy raises \<^verbatim>\<open>ValueError\<close> on an array without elements.\<close>

fun amax :: "rat list \<Rightarrow> py_error + rat" where
  "amax [] = Inl ValueError"
| "amax (x # xs) = Inr (fold max xs x)"

subsection \<open>\<^verbatim>\<open>rescale_data\<close>\<close>

definition rescale_data :: "rat ndarray \<Rightarrow> py_error + u8 ndarray" where
  "rescale_data data =
     (case amax (samples data) of
        Inl e \<Rightarrow> Inl e
      | Inr maxval \<Rightarrow>
          (let out =
             (if maxval \<ge> 4096 then map_ndarray (\<lambda>v. v / 265) data
              else if maxval \<ge> 1024 then map_ndarray (\<lambda>v. v / 16) data
              else if maxval \<ge> 256 then map_ndarray (\<lambda>v. v / 4) data
              else if maxval \<le> 1 then map_ndarray (\<lambda>v. v * 256) data
              else data)
           in Inr (map_ndarray astype_uint8 out)))"

subsection \<open>The window object\<close>

text \<open>
  The decoder is the \<^verbatim>\<open>imageio\<close> library: the viewer asks it for a reader, and the reader
  for its metadata, its number of planes and the samples of one plane. Each call may raise.
  \<open>get_meta_data\<close> gives the \<^verbatim>\<open>'compression'\<close> entry of the metadata, if there is one.
\<close>

record reader =
  get_meta_data :: "py_error + int option"
  get_length :: "py_error + int"
  get_data :: "int \<Rightarrow> py_error + rat ndarray"

record imageio =
  get_reader :: "string \<Rightarrow> py_error + reader"
  get_reader_tiff_pil :: "string \<Rightarrow> py_error + reader"

text \<open>The two fields of the contrast dialog (\<^verbatim>\<open>DisplayPopup\<close>) that the window reads.\<close>

record popup =
  offset :: nat
  working :: bool

text \<open>
  The fields of \<^verbatim>\<open>ImQuick\<close> (\<open>file'\<close> is \<^verbatim>\<open>self.file\<close>). A Tk variable is the field
  that holds its value.
  \<open>canvas_width\<close> and \<open>canvas_height\<close> are what \<^verbatim>\<open>canvas.winfo_width()\<close> and
  \<^verbatim>\<open>canvas.winfo_height()\<close> return, \<open>canvas_text\<close> is the text item on the canvas if
  there is one, \<open>stack_ctrl_shown\<close> says whether the plane slider and entry are gridded,
  \<open>zoomfit_pressed\<close> is the state of the fit-to-window button, and \<open>z_label_focus\<close>
  says whether the plane entry has the keyboard focus. The other canvas items and the
  scroll position stay in Tk: a method that reads them takes the value read as an argument.
\<close>

record session =
  file' :: "string option"
  file_list :: "string list"
  current_index :: int
  image_data :: "rat ndarray option"
  scaled_image_data :: "u8 ndarray option"
  displayed_image :: "u8 ndarray option"
  zoom_factor :: rat
  width :: int
  height :: int
  canvas_width :: int
  canvas_height :: int
  reader :: "reader option"
  max_plane :: int
  displayed_plane :: int
  min_display_value :: int
  max_display_value :: int
  per_channel_contrast :: bool
  display_values_array :: "int list"
  z_display_value :: int
  display_popup :: "popup option"
  canvas_text :: "string option"
  stack_ctrl_shown :: bool
  zoomfit_pressed :: bool
  z_label_focus :: bool

text \<open>
  A method ends by returning or by raising; either way the fields it has written so far
  keep their new values.
\<close>

type_synonym outcome = "py_error option \<times> session"

text \<open>
  Double precision. \<open>float64 x\<close> is the double nearest to \<open>x\<close>, ties going to the even
  significand: \<open>x\<close> is rounded to a multiple of \<open>2\<^sup>e\<^sup>-\<^sup>5\<^sup>2\<close>, where \<open>2\<^sup>e \<le> |x| < 2\<^sup>e\<^sup>+\<^sup>1\<close> and
  \<open>e\<close> is not taken below \<open>-1022\<close> (the subnormal numbers). This is the result of an
  arithmetic operation of Python on floats whose exact result is \<open>x\<close>, as long as it stays
  below \<open>2\<^sup>1\<^sup>0\<^sup>2\<^sup>4\<close> in size; the infinities beyond are not modelled.
\<close>

definition pow2 :: "int \<Rightarrow> rat" where
  "pow2 e = (if 0 \<le> e then 2 ^ nat e else 1 / 2 ^ nat (- e))"

text \<open>For \<open>x > 0\<close>, the exponent \<open>e\<close> with \<open>2\<^sup>e \<le> x < 2\<^sup>e\<^sup>+\<^sup>1\<close>.\<close>

definition ilog2 :: "rat \<Rightarrow> int" where
  "ilog2 x = (if 1 \<le> x then bitlen \<lfloor>x\<rfloor> - 1 else - bitlen (\<lceil>1 / x\<rceil> - 1))"

definition round_half_even :: "rat \<Rightarrow> int" where
  "round_half_even y =
     (let f = \<lfloor>y\<rfloor>; r = y - of_int f
      in if r < 1 / 2 then f else if 1 / 2 < r then f + 1 else if even f then f else f + 1)"

definition float64 :: "rat \<Rightarrow> rat" where
  "float64 x =
     (if x = 0 then 0
      else (let e = max (ilog2 \<bar>x\<bar>) (- 1022); ulp = pow2 (e - 52)
            in of_int (round_half_even (x / ulp)) * ulp))"

text \<open>
  \<^verbatim>\<open>self.delta = 1.3\<close>, never written again: the double that the literal \<^verbatim>\<open>1.3\<close> denotes,
  \<open>float64 (13 / 10)\<close>.
\<close>

definition delta :: rat where
  "delta = 5854679515581645 / 4503599627370496"

text \<open>
  The decorator \<^verbatim>\<open>not_without_file\<close>: the method runs only when \<^verbatim>\<open>self.file\<close> is truthy
  (neither \<^verbatim>\<open>None\<close> nor the empty string).
\<close>

definition not_without_file :: "(session \<Rightarrow> outcome) \<Rightarrow> session \<Rightarrow> outcome" where
  "not_without_file func s =
     (case file' s of
        None \<Rightarrow> (None, s)
      | Some f \<Rightarrow> if f = [] then (None, s) else func s)"

text \<open>
  Tk runs a callback (a variable trace, a widget command) inside a wrapper that reports an
  exception and goes on: what remains of a callback that raised is the fields it wrote.
\<close>

definition tk_callback :: "outcome \<Rightarrow> session" where
  "tk_callback r = snd r"

subsection \<open>\<^verbatim>\<open>update_contrast\<close>\<close>

text \<open>
  A float64 of numpy: a number, an infinity or not-a-number. Dividing by zero raises
  nothing in numpy.
\<close>

datatype npfloat = Fin rat | PosInf | NegInf | NaN

definition np_divide :: "int \<Rightarrow> int \<Rightarrow> npfloat" where
  "np_divide a b =
     (if b = 0 then (if a = 0 then NaN else if 0 < a then PosInf else NegInf)
      else Fin (of_int a / of_int b))"

text \<open>
  \<^verbatim>\<open>channel_data[channel_data < new_min] = new_min\<close>, for one sample of a uint8 array. The
  value stored is \<open>new_min\<close> itself when \<open>0 \<le> new_min \<le> 255\<close>, and nothing is stored when
  \<open>new_min < 0\<close>.
\<close>

definition set_below :: "int \<Rightarrow> u8 \<Rightarrow> u8" where
  "set_below new_min v = (if uint v < new_min then word_of_int new_min else v)"

text \<open>
  The two lines that window one slice. The difference is taken in the integers; numpy
  takes it in uint8 when \<open>0 \<le> new_min \<le> 255\<close>, which is the same there, since no sample
  is below \<open>new_min\<close> any more, and in a wider signed type when \<open>new_min < 0\<close>.
\<close>

definition window :: "int \<Rightarrow> int \<Rightarrow> u8 list \<Rightarrow> npfloat list" where
  "window new_min new_max channel_data =
     map (\<lambda>v. np_divide (uint v - new_min) (new_max - new_min))
       (map (set_below new_min) channel_data)"

text \<open>
  The loop of the per-channel mode: each slice takes the next two entries of \<open>min_max\<close>
  (\<^verbatim>\<open>pop(0)\<close> on an empty list raises \<^verbatim>\<open>IndexError\<close>).
\<close>

fun window_channels :: "int list \<Rightarrow> u8 list list \<Rightarrow> py_error + npfloat list list" where
  "window_channels min_max [] = Inr []"
| "window_channels (new_min # new_max # min_max) (channel_data # rest) =
     (case window_channels min_max rest of
        Inl e \<Rightarrow> Inl e
      | Inr channels_pool \<Rightarrow> Inr (window new_min new_max channel_data # channels_pool))"
| "window_channels min_max (channel_data # rest) = Inl IndexError"

text \<open>
  The per-channel branch. A two-dimensional array has no third index
  (\<^verbatim>\<open>IndexError\<close>), and \<^verbatim>\<open>np.dstack\<close> of no slices raises \<^verbatim>\<open>ValueError\<close>.
\<close>

fun per_channel :: "int list \<Rightarrow> u8 ndarray \<Rightarrow> py_error + npfloat ndarray" where
  "per_channel min_max (Gray h w xs) = Inl (if w = 0 then ValueError else IndexError)"
| "per_channel min_max (Multi h w chs) =
     (case window_channels min_max chs of
        Inl e \<Rightarrow> Inl e
      | Inr channels_pool \<Rightarrow>
          if channels_pool = [] then Inl ValueError else Inr (Multi h w channels_pool))"

fun global_window :: "int \<Rightarrow> int \<Rightarrow> u8 ndarray \<Rightarrow> npfloat ndarray" where
  "global_window new_min new_max (Gray h w xs) = Gray h w (window new_min new_max xs)"
| "global_window new_min new_max (Multi h w chs) =
     Multi h w (map (window new_min new_max) chs)"

text \<open>\<^verbatim>\<open>temp_data[temp_data > 1] = 1\<close>, for one sample.\<close>

fun clip_above_one :: "npfloat \<Rightarrow> npfloat" where
  "clip_above_one (Fin x) = Fin (if 1 < x then 1 else x)"
| "clip_above_one PosInf = Fin 1"
| "clip_above_one NegInf = NegInf"
| "clip_above_one NaN = NaN"

text \<open>
  \<^verbatim>\<open>(temp_data * 255).astype('uint8')\<close>, for one sample. The cast of an infinity or of
  not-a-number depends on the machine; 0 is what x86-64 gives.
\<close>

fun times_255_uint8 :: "npfloat \<Rightarrow> u8" where
  "times_255_uint8 (Fin x) = astype_uint8 (x * 255)"
| "times_255_uint8 PosInf = 0"
| "times_255_uint8 NegInf = 0"
| "times_255_uint8 NaN = 0"

text \<open>
  \<^verbatim>\<open>Image.fromarray\<close> of a uint8 array keeps the samples. It takes a two-dimensional array
  (mode \<^verbatim>\<open>L\<close>) and a three-dimensional one of two, three or four channels (\<^verbatim>\<open>LA\<close>,
  \<^verbatim>\<open>RGB\<close>, \<^verbatim>\<open>RGBA\<close>); for any other number of channels it raises \<^verbatim>\<open>TypeError\<close>.
\<close>

fun has_mode :: "'a ndarray \<Rightarrow> bool" where
  "has_mode (Gray h w xs) = True"
| "has_mode (Multi h w chs) = (2 \<le> length chs \<and> length chs \<le> 4)"

definition fromarray :: "u8 ndarray \<Rightarrow> py_error + u8 ndarray" where
  "fromarray obj = (if has_mode obj then Inr obj else Inl TypeError)"

text \<open>
  \<^verbatim>\<open>update_contrast\<close> writes \<open>displayed_image\<close> and redraws; the redraw
  (\<^verbatim>\<open>show_image\<close>) writes no field. When \<^verbatim>\<open>Image.fromarray\<close> raises, the field keeps its
  old value.
\<close>

definition update_contrast :: "session \<Rightarrow> outcome" where
  "update_contrast s =
     (case scaled_image_data s of
        None \<Rightarrow> (Some AttributeError, s)
      | Some temp_data \<Rightarrow>
          (case (if per_channel_contrast s
                 then per_channel (drop 2 (display_values_array s)) temp_data
                 else Inr (global_window (min_display_value s) (max_display_value s) temp_data))
           of Inl e \<Rightarrow> (Some e, s)
            | Inr windowed \<Rightarrow>
                (case fromarray (map_ndarray (\<lambda>x. times_255_uint8 (clip_above_one x)) windowed)
                 of Inl e \<Rightarrow> (Some e, s)
                  | Inr im \<Rightarrow> (None, s\<lparr>displayed_image := Some im\<rparr>))))"

text \<open>
  What the lines of \<^verbatim>\<open>update_contrast\<close> do to one sample \<open>v\<close> under the window
  \<open>(new_min, new_max)\<close>, taken together.
\<close>

definition displayed_sample :: "int \<Rightarrow> int \<Rightarrow> u8 \<Rightarrow> u8" where
  "displayed_sample new_min new_max v =
     times_255_uint8 (clip_above_one
       (np_divide (uint (set_below new_min v) - new_min) (new_max - new_min)))"

text \<open>
  A map of samples is monotone and clamped for a window when it never decreases as the
  sample grows, stays within 0 and 255, sends every sample at or below the lower bound to
  0 and every sample at or above the upper bound to 255.
\<close>

definition monotone_clamped :: "int \<Rightarrow> int \<Rightarrow> (u8 \<Rightarrow> u8) \<Rightarrow> bool" where
  "monotone_clamped new_min new_max f =
     (mono f \<and>
      (\<forall>v. 0 \<le> uint (f v) \<and> uint (f v) \<le> 255 \<and>
           (uint v \<le> new_min \<longrightarrow> f v = 0) \<and> (new_max \<le> uint v \<longrightarrow> f v = 255)))"

text \<open>
  The entries of \<open>min_max\<close> give each of \<open>n\<close> channels a window whose lower bound is
  at most 255 and lies strictly below its upper bound.
\<close>

fun valid_windows :: "int list \<Rightarrow> nat \<Rightarrow> bool" where
  "valid_windows min_max 0 = True"
| "valid_windows (new_min # new_max # min_max) (Suc n) =
     (new_min \<le> 255 \<and> new_min < new_max \<and> valid_windows min_max n)"
| "valid_windows min_max (Suc n) = False"

subsection \<open>The window as \<^verbatim>\<open>__init__\<close> leaves it\<close>

text \<open>The fields after \<^verbatim>\<open>__init__\<close> without a file name, on a canvas of the given size.\<close>

definition init_session :: "int \<Rightarrow> int \<Rightarrow> session" where
  "init_session cw ch =
     \<lparr>file' = None, file_list = [], current_index = 0, image_data = None,
      scaled_image_data = None, displayed_image = None, zoom_factor = 1, width = 0,
      height = 0, canvas_width = cw, canvas_height = ch, reader = None, max_plane = 0,
      displayed_plane = 0, min_display_value = 0, max_display_value = 255,
      per_channel_contrast = False, display_values_array = [0, 255], z_display_value = 0,
      display_popup = None, canvas_text = Some ''[Drag a file here to open]'',
      stack_ctrl_shown = False, zoomfit_pressed = False, z_label_focus = False\<rparr>"

subsection \<open>\<^verbatim>\<open>update_min_display\<close> and \<^verbatim>\<open>update_max_display\<close>\<close>

text \<open>
  The block both callbacks share: with the contrast dialog open and not \<^verbatim>\<open>working\<close>, the
  two bounds are copied into \<^verbatim>\<open>display_values_array\<close> at the dialog's offset. Assigning
  past the end of a list raises \<^verbatim>\<open>IndexError\<close>.
\<close>

definition store_display_values :: "session \<Rightarrow> outcome" where
  "store_display_values s =
     (case display_popup s of
        None \<Rightarrow> (None, s)
      | Some p \<Rightarrow>
          if working p then (None, s)
          else if \<not> offset p < length (display_values_array s) then (Some IndexError, s)
          else
            (let s1 = s\<lparr>display_values_array :=
                         (display_values_array s)[offset p := min_display_value s]\<rparr>
             in if \<not> offset p + 1 < length (display_values_array s1)
                then (Some IndexError, s1)
                else (None, s1\<lparr>display_values_array :=
                         (display_values_array s1)[offset p + 1 := max_display_value s1]\<rparr>)))"

text \<open>
  Both callbacks are write traces (\<^verbatim>\<open>trace("w", ...)\<close>) of their variable. Tcl switches the
  traces of a variable off while one of them runs, so a callback's write to its own
  variable fires nothing, and its write to the other variable fires the other callback
  unless that one is running already. \<open>max_written\<close> and \<open>min_written\<close> stand for what
  the write to the other variable fires.
\<close>

definition update_min_display_body :: "(session \<Rightarrow> session) \<Rightarrow> session \<Rightarrow> outcome" where
  "update_min_display_body max_written s =
     (let min_d = min_display_value s;
          max_d = max_display_value s;
          s1 = (if min_d = 255 then s\<lparr>min_display_value := 254\<rparr> else s);
          s2 = (if min_d \<ge> max_d then max_written (s1\<lparr>max_display_value := min_d + 1\<rparr>)
                else s1);
          dirty = (min_d \<ge> max_d)
      in case store_display_values s2 of
           (Some e, s3) \<Rightarrow> (Some e, s3)
         | (None, s3) \<Rightarrow> if \<not> dirty then update_contrast s3 else (None, s3))"

definition update_max_display_body :: "(session \<Rightarrow> session) \<Rightarrow> session \<Rightarrow> outcome" where
  "update_max_display_body min_written s =
     (let min_d = min_display_value s;
          max_d = max_display_value s;
          s1 = (if max_d = 0 then s\<lparr>max_display_value := 1\<rparr> else s);
          s2 = (if min_d \<ge> max_d then min_written (s1\<lparr>min_display_value := max_d - 1\<rparr>)
                else s1);
          dirty = (min_d \<ge> max_d)
      in case store_display_values s2 of
           (Some e, s3) \<Rightarrow> (Some e, s3)
         | (None, s3) \<Rightarrow> if \<not> dirty then update_contrast s3 else (None, s3))"

text \<open>The callbacks as Tk runs them when the variable is written from outside.\<close>

definition update_min_display :: "session \<Rightarrow> outcome" where
  "update_min_display =
     update_min_display_body (\<lambda>s. tk_callback (update_max_display_body (\<lambda>s'. s') s))"

definition update_max_display :: "session \<Rightarrow> outcome" where
  "update_max_display =
     update_max_display_body (\<lambda>s. tk_callback (update_min_display_body (\<lambda>s'. s') s))"

text \<open>\<^verbatim>\<open>min_display_value.set(v)\<close> and \<^verbatim>\<open>max_display_value.set(v)\<close>: the write, then its trace.\<close>

definition set_min_display_value :: "int \<Rightarrow> session \<Rightarrow> session" where
  "set_min_display_value v s = tk_callback (update_min_display (s\<lparr>min_display_value := v\<rparr>))"

definition set_max_display_value :: "int \<Rightarrow> session \<Rightarrow> session" where
  "set_max_display_value v s = tk_callback (update_max_display (s\<lparr>max_display_value := v\<rparr>))"

subsection \<open>Zooming\<close>

text \<open>
  \<^verbatim>\<open>zoom_image\<close> releases the fit-to-window button, rescales the container item about
  \<open>(x, y)\<close> inside Tk and redraws; of the fields it writes \<open>zoomfit_pressed\<close> only.
\<close>

definition zoom_image :: "rat \<Rightarrow> rat \<Rightarrow> rat \<Rightarrow> session \<Rightarrow> outcome" where
  "zoom_image x y scale = not_without_file (\<lambda>s. (None, s\<lparr>zoomfit_pressed := False\<rparr>))"

text \<open>
  \<^verbatim>\<open>zoom_in\<close> and \<^verbatim>\<open>zoom_out\<close>. \<^verbatim>\<open>i/5\<close> is the division of two integers, rounded;
  \<^verbatim>\<open>i * self.zoom_factor\<close> is the product of an integer and a float, rounded (the integer
  itself is a double, being a number of pixels); \<^verbatim>\<open>*=\<close> and \<^verbatim>\<open>/=\<close> round their result.
\<close>

definition zoom_in :: "session \<Rightarrow> outcome" where
  "zoom_in = not_without_file (\<lambda>s.
     let i = min (canvas_width s) (canvas_height s) in
     if float64 (of_int i / 5) < zoom_factor s then (None, s)
     else zoom_image (float64 (of_int (canvas_width s) / 2))
            (float64 (of_int (canvas_height s) / 2)) delta
            (s\<lparr>zoom_factor := float64 (zoom_factor s * delta)\<rparr>))"

definition zoom_out :: "session \<Rightarrow> outcome" where
  "zoom_out = not_without_file (\<lambda>s.
     let i = min (width s) (height s) in
     if trunc (float64 (of_int i * zoom_factor s)) < 30 then (None, s)
     else zoom_image (float64 (of_int (canvas_width s) / 2))
            (float64 (of_int (canvas_height s) / 2)) (float64 (1 / delta))
            (s\<lparr>zoom_factor := float64 (zoom_factor s / delta)\<rparr>))"

text \<open>
  \<^verbatim>\<open>zoom_mouse\<close>: \<open>x\<close> and \<open>y\<close> are the canvas coordinates of the pointer
  (\<^verbatim>\<open>canvasx(event.x)\<close>, \<^verbatim>\<open>canvasy(event.y)\<close>), \<open>bbox\<close> is what
  \<^verbatim>\<open>canvas.bbox(self.container)\<close> returns (\<^verbatim>\<open>None\<close> when the item is gone, and indexing
  \<^verbatim>\<open>None\<close> raises \<^verbatim>\<open>TypeError\<close>), \<open>event_delta\<close> is \<^verbatim>\<open>event.delta\<close>.
\<close>

definition zoom_mouse ::
  "rat \<Rightarrow> rat \<Rightarrow> (int \<times> int \<times> int \<times> int) option \<Rightarrow> int \<Rightarrow> session \<Rightarrow> outcome" where
  "zoom_mouse x y bbox event_delta = not_without_file (\<lambda>s.
     case bbox of
       None \<Rightarrow> (Some TypeError, s)
     | Some (b0, b1, b2, b3) \<Rightarrow>
         if \<not> (of_int b0 < x \<and> x < of_int b2) \<or> \<not> (of_int b1 < y \<and> y < of_int b3)
         then (None, s)
         else if event_delta < 0 then
           (let i = min (width s) (height s) in
            if trunc (float64 (of_int i * zoom_factor s)) < 30 then (None, s)
            else zoom_image x y (float64 (1 / delta))
                   (s\<lparr>zoom_factor := float64 (zoom_factor s / delta)\<rparr>))
         else if 0 < event_delta then
           (let i = min (canvas_width s) (canvas_height s) in
            if float64 (of_int i / 5) < zoom_factor s then (None, s)
            else zoom_image x y delta (s\<lparr>zoom_factor := float64 (zoom_factor s * delta)\<rparr>))
         else zoom_image x y 1 s)"

text \<open>
  The sizes and the factor for which the doubles above are those of Python: the factor is
  far from the largest double, and the pixel sizes are integers that a double holds.
\<close>

definition double_range :: "session \<Rightarrow> bool" where
  "double_range s =
     (\<bar>zoom_factor s\<bar> < 2 ^ 900 \<and> \<bar>min (width s) (height s)\<bar> < 2 ^ 53 \<and>
      \<bar>min (canvas_width s) (canvas_height s)\<bar> < 2 ^ 53)"

subsection \<open>\<^verbatim>\<open>show_image\<close>\<close>

text \<open>\<^verbatim>\<open>math.ceil\<close>.\<close>

definition py_ceil :: "rat \<Rightarrow> int" where
  "py_ceil x = - \<lfloor>- x\<rfloor>"

text \<open>
  What one redraw computes: the scroll region, and, when a part of the image is visible,
  the bounds of that part in image pixels before rounding (\<open>des_x1\<close> to \<open>des_y2\<close>), the
  whole-pixel box cropped first, the size it is resized to, the box cropped from the
  resized image, and the canvas position of the tile.
\<close>

record tile =
  des_x1 :: rat
  des_y1 :: rat
  des_x2 :: rat
  des_y2 :: rat
  first_crop :: "int \<times> int \<times> int \<times> int"
  resize_to :: "int \<times> int"
  second_crop :: "rat \<times> rat \<times> rat \<times> rat"
  placed_at :: "rat \<times> rat"

record redraw =
  scrollregion :: "rat \<times> rat \<times> rat \<times> rat"
  drawn :: "tile option"

text \<open>
  The body of the \<^verbatim>\<open>if\<close> in \<^verbatim>\<open>show_image\<close>: the tile for the visible part
  \<open>(x1, y1)-(x2, y2)\<close> of the image box at zoom factor \<open>z\<close>, to be placed at \<open>pos\<close>. A
  Python division by zero raises \<^verbatim>\<open>ZeroDivisionError\<close>.
\<close>

definition image_tile :: "rat \<Rightarrow> rat \<Rightarrow> rat \<Rightarrow> rat \<Rightarrow> rat \<Rightarrow> rat \<times> rat \<Rightarrow> py_error + tile" where
  "image_tile x1 y1 x2 y2 z pos =
     (let dx1 = x1 / z; dx2 = x2 / z; dy1 = y1 / z; dy2 = y2 / z;
          des_x_width = trunc (x2 - x1);
          des_y_height = trunc (y2 - y1);
          real_x_width = dx2 - dx1;
          rnd_x_width = py_ceil dx2 - \<lfloor>dx1\<rfloor>;
          real_y_height = dy2 - dy1;
          rnd_y_height = py_ceil dy2 - \<lfloor>dy1\<rfloor>
      in if z = 0 \<or> real_x_width = 0 \<or> real_y_height = 0 \<or>
            rnd_x_width = 0 \<or> rnd_y_height = 0
         then Inl ZeroDivisionError
         else
           (let tgt_x_width = of_int des_x_width / real_x_width * of_int rnd_x_width;
                tgt_y_height = of_int des_y_height / real_y_height * of_int rnd_y_height;
                x = of_int des_x_width / of_int rnd_x_width * (dx1 - of_int \<lfloor>dx1\<rfloor>);
                y = of_int des_y_height / of_int rnd_y_height * (dy1 - of_int \<lfloor>dy1\<rfloor>)
            in Inr \<lparr>des_x1 = dx1, des_y1 = dy1, des_x2 = dx2, des_y2 = dy2,
                    first_crop = (\<lfloor>dx1\<rfloor>, \<lfloor>dy1\<rfloor>, py_ceil dx2, py_ceil dy2),
                    resize_to = (trunc tgt_x_width, trunc tgt_y_height),
                    second_crop = (x, y, x + of_int des_x_width, y + of_int des_y_height),
                    placed_at = pos\<rparr>))"

text \<open>
  \<^verbatim>\<open>show_image\<close> writes no field of the window. \<open>bbox\<close> is what
  \<^verbatim>\<open>canvas.bbox(self.container)\<close> returns, or \<^verbatim>\<open>None\<close> also when there is no container;
  \<open>visible_bbox\<close> is the visible area of the canvas in canvas coordinates.
\<close>

definition show_image ::
  "(int \<times> int \<times> int \<times> int) option \<Rightarrow> rat \<times> rat \<times> rat \<times> rat \<Rightarrow> session \<Rightarrow>
   py_error + redraw option" where
  "show_image bbox visible_bbox s =
     (case bbox of
        None \<Rightarrow> Inr None
      | Some (b0, b1, b2, b3) \<Rightarrow>
         (case visible_bbox of (v0, v1, v2, v3) \<Rightarrow>
          (let i0 = of_int (b0 + 1); i1 = of_int (b1 + 1);
               i2 = of_int (b2 - 1); i3 = of_int (b3 - 1);
               s0 = min i0 v0; s1 = min i1 v1; s2 = max i2 v2; s3 = max i3 v3;
               scroll_bbox =
                 (if s0 = v0 \<and> s2 = v2 then i0 else s0,
                  if s1 = v1 \<and> s3 = v3 then i1 else s1,
                  if s0 = v0 \<and> s2 = v2 then i2 else s2,
                  if s1 = v1 \<and> s3 = v3 then i3 else s3);
               x1 = max (v0 - i0) 0;
               y1 = max (v1 - i1) 0;
               x2 = min v2 i2 - i0;
               y2 = min v3 i3 - i1
           in if trunc (x2 - x1) > 0 \<and> trunc (y2 - y1) > 0 then
                (case image_tile x1 y1 x2 y2 (zoom_factor s) (max v0 i0, max v1 i1) of
                   Inl e \<Rightarrow> Inl e
                 | Inr t \<Rightarrow> Inr (Some \<lparr>scrollregion = scroll_bbox, drawn = Some t\<rparr>))
              else Inr (Some \<lparr>scrollregion = scroll_bbox, drawn = None\<rparr>))))"

text \<open>The bounds before rounding of the tile a redraw draws, if it draws one.\<close>

definition des_bounds :: "py_error + redraw option \<Rightarrow> (rat \<times> rat \<times> rat \<times> rat) option" where
  "des_bounds r =
     (case r of
        Inr (Some rd) \<Rightarrow>
          (case drawn rd of
             Some t \<Rightarrow> Some (des_x1 t, des_y1 t, des_x2 t, des_y2 t)
           | None \<Rightarrow> None)
      | _ \<Rightarrow> None)"

subsection \<open>The plane selector\<close>

text \<open>
  \<^verbatim>\<open>int(val)\<close> on a string is Python's own: \<^verbatim>\<open>set_z_plane\<close> takes it as the argument
  \<open>py_int\<close>, which gives \<open>None\<close> where \<^verbatim>\<open>int\<close> raises \<^verbatim>\<open>ValueError\<close>. For the examples,
  \<open>ascii_int\<close> is \<^verbatim>\<open>int\<close> on a text of ASCII characters: white space around the number is
  dropped, a sign may come first, and single underscores may stand between digits.
\<close>

definition digit_of :: "char \<Rightarrow> nat option" where
  "digit_of c =
     map_of [(CHR ''0'', 0), (CHR ''1'', 1), (CHR ''2'', 2), (CHR ''3'', 3), (CHR ''4'', 4),
             (CHR ''5'', 5), (CHR ''6'', 6), (CHR ''7'', 7), (CHR ''8'', 8), (CHR ''9'', 9)] c"

fun digits_value :: "nat \<Rightarrow> string \<Rightarrow> nat option" where
  "digits_value acc [] = Some acc"
| "digits_value acc [c] =
     (case digit_of c of None \<Rightarrow> None | Some d \<Rightarrow> Some (10 * acc + d))"
| "digits_value acc (c # c' # cs) =
     (if c = CHR ''_'' then
        (case digit_of c' of None \<Rightarrow> None | Some d \<Rightarrow> digits_value (10 * acc + d) cs)
      else
        (case digit_of c of None \<Rightarrow> None | Some d \<Rightarrow> digits_value (10 * acc + d) (c' # cs)))"

definition unsigned_value :: "string \<Rightarrow> nat option" where
  "unsigned_value cs =
     (case cs of
        [] \<Rightarrow> None
      | c # rest \<Rightarrow> (case digit_of c of None \<Rightarrow> None | Some d \<Rightarrow> digits_value d rest))"

definition is_space :: "char \<Rightarrow> bool" where
  "is_space c = (c \<in> set [CHR '' '', CHR 0x09, CHR 0x0A, CHR 0x0B, CHR 0x0C, CHR 0x0D,
                             CHR 0x1C, CHR 0x1D, CHR 0x1E, CHR 0x1F])"

definition strip :: "string \<Rightarrow> string" where
  "strip cs = rev (dropWhile is_space (rev (dropWhile is_space cs)))"

definition ascii_int :: "string \<Rightarrow> int option" where
  "ascii_int val =
     (case strip val of
        [] \<Rightarrow> None
      | c # rest \<Rightarrow>
          if c = CHR ''-'' then map_option (\<lambda>n. - int n) (unsigned_value rest)
          else if c = CHR ''+'' then map_option int (unsigned_value rest)
          else map_option int (unsigned_value (c # rest)))"

text \<open>
  The argument of \<^verbatim>\<open>set_z_plane\<close>: the text of the entry (from its validation command) or
  an integer (from the slider, which passes \<^verbatim>\<open>round(float(x))\<close>).
\<close>

datatype pyval = PyStr string | PyInt int

definition update_z_display :: "session \<Rightarrow> outcome" where
  "update_z_display = not_without_file (\<lambda>s.
     if max_plane s = 0 \<or> displayed_plane s = z_display_value s then (None, s)
     else
       (let s1 = s\<lparr>displayed_plane := z_display_value s\<rparr> in
        case reader s1 of
          None \<Rightarrow> (Some AttributeError, s1)
        | Some r \<Rightarrow>
            (case get_data r (displayed_plane s1) of
               Inl e \<Rightarrow> (Some e, s1)
             | Inr data \<Rightarrow>
                 (let s2 = s1\<lparr>image_data := Some data\<rparr> in
                  case rescale_data data of
                    Inl e \<Rightarrow> (Some e, s2)
                  | Inr scaled \<Rightarrow> update_contrast (s2\<lparr>scaled_image_data := Some scaled\<rparr>)))))"

text \<open>
  \<^verbatim>\<open>set_z_plane\<close> returns \<^verbatim>\<open>True\<close>, or \<^verbatim>\<open>False\<close> when a \<^verbatim>\<open>ValueError\<close> was raised inside
  its \<^verbatim>\<open>try\<close>; any other exception leaves it.
\<close>

definition set_z_plane ::
  "(string \<Rightarrow> int option) \<Rightarrow> pyval \<Rightarrow> session \<Rightarrow> (py_error + bool) \<times> session" where
  "set_z_plane py_int val s =
     (case (case val of
              PyInt n \<Rightarrow> Some n
            | PyStr t \<Rightarrow> if t = [] then Some 0 else py_int t) of
        None \<Rightarrow> (Inr False, s)
      | Some v \<Rightarrow>
          (let s1 = (if v > max_plane s then s\<lparr>z_display_value := max_plane s\<rparr>
                     else if v < 0 then s\<lparr>z_display_value := 0\<rparr>
                     else s\<lparr>z_display_value := v\<rparr>)
           in case update_z_display s1 of
                (None, s2) \<Rightarrow> (Inr True, s2)
              | (Some e, s2) \<Rightarrow> if e = ValueError then (Inr False, s2) else (Inl e, s2)))"

subsection \<open>A decoder for the examples\<close>

text \<open>
  A reader of \<open>n\<close> planes without a compression entry; plane \<open>k\<close> is a 1 by 1 image
  whose sample is \<open>k\<close>, and a plane outside \<open>0..n-1\<close> raises \<^verbatim>\<open>IndexError\<close>.
\<close>

definition ramp_reader :: "int \<Rightarrow> reader" where
  "ramp_reader n =
     \<lparr>get_meta_data = Inr None, get_length = Inr n,
      get_data = (\<lambda>k. if 0 \<le> k \<and> k < n then Inr (Gray 1 1 [of_int k]) else Inl IndexError)\<rparr>"

subsection \<open>Paths and the directory\<close>

text \<open>
  The operating system as the viewer uses it through \<^verbatim>\<open>os\<close> and \<^verbatim>\<open>os.path\<close>. Listing a
  directory may raise.
\<close>

record os =
  abspath :: "string \<Rightarrow> string"
  dirname :: "string \<Rightarrow> string"
  join :: "string \<Rightarrow> string \<Rightarrow> string"
  normpath :: "string \<Rightarrow> string"
  listdir :: "string \<Rightarrow> py_error + string list"

text \<open>
  \<^verbatim>\<open>os.path.splitext\<close> with \<^verbatim>\<open>/\<close> as separator: the extension starts at the last dot of
  the last path component, unless only dots stand before it in that component.
\<close>

definition splitext :: "string \<Rightarrow> string \<times> string" where
  "splitext p =
     (let name = rev (takeWhile (\<lambda>c. c \<noteq> CHR ''/'') (rev p));
          ext = rev (takeWhile (\<lambda>c. c \<noteq> CHR ''.'') (rev name));
          stem = take (length name - length ext - 1) name
      in if CHR ''.'' \<in> set name \<and> filter (\<lambda>c. c \<noteq> CHR ''.'') stem \<noteq> []
         then (take (length p - length ext - 1) p, CHR ''.'' # ext)
         else (p, []))"

text \<open>\<^verbatim>\<open>str.lower\<close> on ASCII text.\<close>

definition lower_char :: "char \<Rightarrow> char" where
  "lower_char c =
     (case map_of (zip ''ABCDEFGHIJKLMNOPQRSTUVWXYZ'' ''abcdefghijklmnopqrstuvwxyz'') c of
        None \<Rightarrow> c
      | Some d \<Rightarrow> d)"

definition lower :: "string \<Rightarrow> string" where
  "lower cs = map lower_char cs"

definition SUPPORTED_EXTENSIONS :: "string set" where
  "SUPPORTED_EXTENSIONS =
     {''.tif'', ''.tiff'', ''.gif'', ''.png'', ''.jpeg'', ''.jpg'', ''.bmp'', ''.npz'', ''.itk''}"

text \<open>\<^verbatim>\<open>list.index\<close>: the first position of the value, \<^verbatim>\<open>ValueError\<close> (here \<open>None\<close>) without one.\<close>

fun index_of :: "'a list \<Rightarrow> 'a \<Rightarrow> nat option" where
  "index_of [] y = None"
| "index_of (x # xs) y = (if x = y then Some 0 else map_option Suc (index_of xs y))"

text \<open>Indexing a Python list: a negative index counts from the end.\<close>

definition py_nth :: "'a list \<Rightarrow> int \<Rightarrow> py_error + 'a" where
  "py_nth xs i =
     (if 0 \<le> i \<and> i < int (length xs) then Inr (xs ! nat i)
      else if - int (length xs) \<le> i \<and> i < 0 then Inr (xs ! nat (int (length xs) + i))
      else Inl IndexError)"

subsection \<open>\<^verbatim>\<open>make_file_list\<close>\<close>

definition make_file_list :: "os \<Rightarrow> session \<Rightarrow> outcome" where
  "make_file_list os s =
     (case file' s of
        None \<Rightarrow> (Some TypeError, s)
      | Some f \<Rightarrow>
          (let directory = dirname os (abspath os f) in
           case listdir os directory of
             Inl e \<Rightarrow> (Some e, s)
           | Inr names \<Rightarrow>
               (let s1 = s\<lparr>file_list :=
                            map (\<lambda>file. normpath os (join os directory file))
                              (filter (\<lambda>file. lower (snd (splitext file)) \<in> SUPPORTED_EXTENSIONS)
                                 names)\<rparr>
                in case index_of (file_list s1) f of
                     None \<Rightarrow> (Some ValueError, s1)
                   | Some i \<Rightarrow> (None, s1\<lparr>current_index := int i\<rparr>))))"

subsection \<open>\<^verbatim>\<open>first_show_image\<close> and \<^verbatim>\<open>fit_to_window\<close>\<close>

text \<open>
  Of the fields, these two methods write the zoom factor and the state of the fit button;
  the container item and the canvas position they set up are Tk's.
\<close>

definition fit_to_window :: "session \<Rightarrow> outcome" where
  "fit_to_window = not_without_file (\<lambda>s.
     if width s = 0 \<or> height s = 0 then (Some ZeroDivisionError, s)
     else
       (let scale = min (float64 (of_int (canvas_width s - 4) / of_int (width s)))
                        (float64 (of_int (canvas_height s - 4) / of_int (height s)));
            s1 = s\<lparr>zoom_factor := scale\<rparr>
        in case zoom_image (float64 (of_int (canvas_width s1) / 2))
                  (float64 (of_int (canvas_height s1) / 2)) scale s1 of
             (Some e, s2) \<Rightarrow> (Some e, s2)
           | (None, s2) \<Rightarrow> (None, s2\<lparr>zoomfit_pressed := True\<rparr>)))"

definition first_show_image :: "bool \<Rightarrow> session \<Rightarrow> outcome" where
  "first_show_image loading = not_without_file (\<lambda>s.
     if loading \<and> (width s > canvas_width s \<or> height s > canvas_height s)
     then fit_to_window s
     else (None, s\<lparr>zoomfit_pressed := False, zoom_factor := 1\<rparr>))"

subsection \<open>\<^verbatim>\<open>load_image\<close>\<close>

text \<open>
  The reader the \<^verbatim>\<open>try\<close> block settles on: the default one, or the Pillow one for a TIFF
  whose metadata say LZW compression (5).
\<close>

definition choose_reader :: "imageio \<Rightarrow> string \<Rightarrow> py_error + reader" where
  "choose_reader io file =
     (case get_reader io file of
        Inl e \<Rightarrow> Inl e
      | Inr r \<Rightarrow>
          if lower (snd (splitext file)) \<in> {''.tif'', ''.tiff''} then
            (case get_meta_data r of
               Inl e \<Rightarrow> Inl e
             | Inr compression \<Rightarrow>
                 if compression = Some 5 then get_reader_tiff_pil io file else Inr r)
          else Inr r)"

text \<open>
  The \<^verbatim>\<open>try\<close> block. When it raises, the handler resets \<open>reader\<close>, so the reader
  assigned before the exception is not kept here; \<open>max_plane\<close> is.
\<close>

definition load_image_try :: "imageio \<Rightarrow> string \<Rightarrow> session \<Rightarrow> outcome" where
  "load_image_try io file s =
     (case choose_reader io file of
        Inl e \<Rightarrow> (Some e, s)
      | Inr r \<Rightarrow>
          (let s1 = s\<lparr>reader := Some r\<rparr> in
           case get_length r of
             Inl e \<Rightarrow> (Some e, s1)
           | Inr n \<Rightarrow>
               (let s2 = s1\<lparr>max_plane := n - 1\<rparr> in
                if max_plane s2 > 0 then
                  (case get_data r (max_plane s2 div 2) of
                     Inl e \<Rightarrow> (Some e, s2)
                   | Inr data \<Rightarrow>
                       (None, s2\<lparr>image_data := Some data,
                                 z_display_value := max_plane s2 div 2,
                                 stack_ctrl_shown := True\<rparr>))
                else
                  (case get_data r 0 of
                     Inl e \<Rightarrow> (Some e, s2)
                   | Inr data \<Rightarrow>
                       (None, s2\<lparr>image_data := Some data, stack_ctrl_shown := False\<rparr>)))))"

text \<open>\<^verbatim>\<open>Image.size\<close>: width, then height.\<close>

fun image_size :: "'a ndarray \<Rightarrow> int \<times> int" where
  "image_size (Gray h w xs) = (int w, int h)"
| "image_size (Multi h w chs) = (int w, int h)"

text \<open>
  The two bounds are reset through their traced variables, each only when it differs.
\<close>

definition reset_bounds :: "session \<Rightarrow> session" where
  "reset_bounds s =
     (let s1 = (if min_display_value s \<noteq> 0 then set_min_display_value 0 s else s)
      in if max_display_value s1 \<noteq> 255 then set_max_display_value 255 s1 else s1)"

text \<open>
  \<^verbatim>\<open>[0, 255]\<close> for a two-dimensional image, \<^verbatim>\<open>[0, 255] * (shape[-1] + 1)\<close> otherwise.
\<close>

definition initial_display_values :: "'a ndarray \<Rightarrow> int list" where
  "initial_display_values data =
     (if length (shape data) < 3 then [0, 255]
      else concat (replicate (last (shape data) + 1) [0, 255]))"

text \<open>
  \<^verbatim>\<open>DisplayPopup.switch_image\<close>, called when the contrast dialog is open: the dialog goes
  back to all channels and the window leaves the per-channel mode.
\<close>

definition switch_image :: "session \<Rightarrow> session" where
  "switch_image s =
     (case display_popup s of
        None \<Rightarrow> s
      | Some p \<Rightarrow> s\<lparr>display_popup := Some (p\<lparr>offset := 0\<rparr>), per_channel_contrast := False\<rparr>)"

text \<open>
  What \<^verbatim>\<open>load_image\<close> does after the \<^verbatim>\<open>try\<close> block; an exception raised here is
  not caught. The information dialog and the window title are not fields.
\<close>

definition load_image_finish :: "string \<Rightarrow> session \<Rightarrow> outcome" where
  "load_image_finish file s =
     (let s2 = reset_bounds s
      in case image_data s2 of
           None \<Rightarrow> (Some AttributeError, s2)
         | Some data \<Rightarrow>
             (let s3 = s2\<lparr>display_values_array := initial_display_values data\<rparr>
              in case rescale_data data of
                   Inl e \<Rightarrow> (Some e, s3)
                 | Inr scaled \<Rightarrow>
                     (let s4 = s3\<lparr>scaled_image_data := Some scaled\<rparr>
                      in case fromarray scaled of
                           Inl e \<Rightarrow> (Some e, s4)
                         | Inr im \<Rightarrow>
                             first_show_image True
                               (switch_image
                                  (s4\<lparr>displayed_image := Some im,
                                      width := fst (image_size im),
                                      height := snd (image_size im),
                                      file' := Some file\<rparr>)))))"

definition load_image :: "imageio \<Rightarrow> os \<Rightarrow> string \<Rightarrow> session \<Rightarrow> outcome" where
  "load_image io os file s =
     (let s0 = s\<lparr>canvas_text := None, z_label_focus := False\<rparr> in
      case load_image_try io (normpath os file) s0 of
        (Some e, s1) \<Rightarrow>
          (None, s1\<lparr>canvas_text := Some ''[Unable to open file]'',
                    reader := None, file' := None\<rparr>)
      | (None, s1) \<Rightarrow> load_image_finish (normpath os file) s1)"

subsection \<open>\<^verbatim>\<open>next_file\<close> and \<^verbatim>\<open>prev_file\<close>\<close>

text \<open>\<open>event\<close> says whether the method was called with an event (from a key).\<close>

definition next_file :: "imageio \<Rightarrow> os \<Rightarrow> bool \<Rightarrow> session \<Rightarrow> outcome" where
  "next_file io os event = not_without_file (\<lambda>s.
     if event \<and> z_label_focus s then (None, s)
     else
       (case (if length (file_list s) = 0 then make_file_list os s else (None, s)) of
          (Some e, s1) \<Rightarrow> (Some e, s1)
        | (None, s1) \<Rightarrow>
            if length (file_list s1) = 1 then (None, s1)
            else
              (let s2 = (if current_index s1 < int (length (file_list s1)) - 1
                         then s1\<lparr>current_index := current_index s1 + 1\<rparr>
                         else if current_index s1 = int (length (file_list s1)) - 1
                         then s1\<lparr>current_index := 0\<rparr>
                         else s1);
                   s3 = s2\<lparr>zoom_factor := 1\<rparr>
               in case py_nth (file_list s3) (current_index s3) of
                    Inl e \<Rightarrow> (Some e, s3)
                  | Inr file \<Rightarrow> load_image io os file s3)))"

definition prev_file :: "imageio \<Rightarrow> os \<Rightarrow> bool \<Rightarrow> session \<Rightarrow> outcome" where
  "prev_file io os event = not_without_file (\<lambda>s.
     if event \<and> z_label_focus s then (None, s)
     else
       (case (if length (file_list s) = 0 then make_file_list os s else (None, s)) of
          (Some e, s1) \<Rightarrow> (Some e, s1)
        | (None, s1) \<Rightarrow>
            if length (file_list s1) = 1 then (None, s1)
            else
              (let s2 = (if current_index s1 > 0
                         then s1\<lparr>current_index := current_index s1 - 1\<rparr>
                         else if current_index s1 = 0
                         then s1\<lparr>current_index := int (length (file_list s1)) - 1\<rparr>
                         else s1);
                   s3 = s2\<lparr>zoom_factor := 1\<rparr>
               in case py_nth (file_list s3) (current_index s3) of
                    Inl e \<Rightarrow> (Some e, s3)
                  | Inr file \<Rightarrow> load_image io os file s3)))"

subsection \<open>A directory for the examples\<close>

text \<open>
  An operating system for absolute, normalized POSIX paths, where \<^verbatim>\<open>abspath\<close> and
  \<^verbatim>\<open>normpath\<close> change nothing: its only directory is \<^verbatim>\<open>/d\<close>, holding the given names.
\<close>

definition posix_dirname :: "string \<Rightarrow> string" where
  "posix_dirname p =
     (let head = rev (dropWhile (\<lambda>c. c \<noteq> CHR ''/'') (rev p))
      in if filter (\<lambda>c. c \<noteq> CHR ''/'') head = [] then head
         else rev (dropWhile (\<lambda>c. c = CHR ''/'') (rev head)))"

definition posix_join :: "string \<Rightarrow> string \<Rightarrow> string" where
  "posix_join a b =
     (if take 1 b = ''/'' then b
      else if a = [] \<or> last a = CHR ''/'' then a @ b
      else a @ ''/'' @ b)"

definition directory_d :: "string list \<Rightarrow> os" where
  "directory_d names =
     \<lparr>abspath = (\<lambda>p. p), dirname = posix_dirname, join = posix_join, normpath = (\<lambda>p. p),
      listdir = (\<lambda>d. if d = ''/d'' then Inr names else Inl OSError)\<rparr>"

text \<open>A reader of one plane of five channels, 1 by 1, all samples 0.\<close>

definition five_channel_reader :: reader where
  "five_channel_reader =
     \<lparr>get_meta_data = Inr None, get_length = Inr 1,
      get_data = (\<lambda>k. if k = 0 then Inr (Multi 1 1 [[0], [0], [0], [0], [0]])
                       else Inl IndexError)\<rparr>"

text \<open>
  A decoder that cannot open \<^verbatim>\<open>/d/bad.png\<close>, reads \<^verbatim>\<open>/d/stack.tif\<close> as eleven planes,
  \<^verbatim>\<open>/d/pair.tif\<close> as two planes, \<^verbatim>\<open>/d/five.png\<close> as one plane of five channels and every
  other file as one plane.
\<close>

definition example_io :: imageio where
  "example_io =
     \<lparr>get_reader = (\<lambda>f. if f = ''/d/bad.png'' then Inl OSError
                         else if f = ''/d/stack.tif'' then Inr (ramp_reader 11)
                         else if f = ''/d/pair.tif'' then Inr (ramp_reader 2)
                         else if f = ''/d/five.png'' then Inr five_channel_reader
                         else Inr (ramp_reader 1)),
      get_reader_tiff_pil = (\<lambda>f. Inr (ramp_reader 1))\<rparr>"

text \<open>
  The window after \<^verbatim>\<open>/d/stack.tif\<close> has been loaded into a fresh window on a canvas of
  500 by 500: the middle plane 5 of the eleven is decoded and displayed.
\<close>

definition stack_session :: session where
  "stack_session =
     (init_session 500 500)\<lparr>file' := Some ''/d/stack.tif'', image_data := Some (Gray 1 1 [5]),
        scaled_image_data := Some (Gray 1 1 [5]), displayed_image := Some (Gray 1 1 [5]),
        width := 1, height := 1, reader := Some (ramp_reader 11), max_plane := 10,
        z_display_value := 5, canvas_text := None, stack_ctrl_shown := True\<rparr>"

subsection \<open>Which fields a method may write\<close>

text \<open>
  \<open>levels_only s s'\<close>: \<open>s'\<close> is \<open>s\<close> but for the two display bounds, the array that
  mirrors them and the displayed image. \<open>view_only s s'\<close>: \<open>s'\<close> is \<open>s\<close> but for the
  zoom factor and the state of the fit button.
\<close>

definition levels_only :: "session \<Rightarrow> session \<Rightarrow> bool" where
  "levels_only s s' =
     (\<exists>mn mx a d. s' = s\<lparr>min_display_value := mn, max_display_value := mx,
                          display_values_array := a, displayed_image := d\<rparr>)"

definition view_only :: "session \<Rightarrow> session \<Rightarrow> bool" where
  "view_only s s' = (\<exists>z p. s' = s\<lparr>zoom_factor := z, zoomfit_pressed := p\<rparr>)"

subsection \<open>Words of the claims about loading and browsing\<close>

text \<open>
  \<open>decode_raises io file\<close>: opening or decoding \<open>file\<close> raises, that is, no reader can
  be had, or the reader cannot tell its length, or it cannot deliver the plane that
  \<^verbatim>\<open>load_image\<close> asks for. \<open>loaded s\<close>: \<^verbatim>\<open>self.file\<close> is truthy.
\<close>

definition decode_raises :: "imageio \<Rightarrow> string \<Rightarrow> bool" where
  "decode_raises io file =
     (case choose_reader io file of
        Inl e \<Rightarrow> True
      | Inr r \<Rightarrow>
          (case get_length r of
             Inl e \<Rightarrow> True
           | Inr n \<Rightarrow>
               (case get_data r (if 0 < n - 1 then (n - 1) div 2 else 0) of
                  Inl e \<Rightarrow> True
                | Inr data \<Rightarrow> False)))"

definition loaded :: "session \<Rightarrow> bool" where
  "loaded s = (case file' s of None \<Rightarrow> False | Some f \<Rightarrow> f \<noteq> [])"

section \<open>Evaluating floors of rational numerals\<close>

lemma floor_rat_numeral [simp]:
  "\<lfloor>(numeral a :: rat) / numeral b\<rfloor> = numeral a div numeral b"
  using floor_divide_of_int_eq [of "numeral a" "numeral b", where ?'a = rat] by simp

lemma floor_rat_neg_numeral [simp]:
  "\<lfloor>- ((numeral a :: rat) / numeral b)\<rfloor> = - numeral a div numeral b"
  using floor_divide_of_int_eq [of "- numeral a" "numeral b", where ?'a = rat] by simp

lemma floor_rat_one_numeral [simp]:
  "\<lfloor>(1 :: rat) / numeral b\<rfloor> = 1 div numeral b"
  using floor_divide_of_int_eq [of 1 "numeral b", where ?'a = rat] by simp

lemma floor_rat_neg_one_numeral [simp]:
  "\<lfloor>- ((1 :: rat) / numeral b)\<rfloor> = - 1 div numeral b"
  using floor_divide_of_int_eq [of "- 1" "numeral b", where ?'a = rat] by simp

section \<open>The scale chosen by \<^verbatim>\<open>rescale_data\<close>\<close>

lemma amax_Max: "xs \<noteq> [] \<Longrightarrow> amax xs = Inr (Max (set xs))"
proof (cases xs)
  case Nil
  assume "xs \<noteq> []"
  with Nil show ?thesis by simp
next
  case (Cons x ys)
  then show ?thesis using Max.set_eq_fold [of x ys] by simp
qed

text \<open>
  C1. For every array with at least one sample, \<^verbatim>\<open>rescale_data\<close> picks its scale from the
  maximum \<open>m\<close> of the samples alone: every sample is divided by 265 when \<open>m \<ge> 4096\<close>, by
  16 when \<open>1024 \<le> m < 4096\<close>, by 4 when \<open>256 \<le> m < 1024\<close>, multiplied by 256 when
  \<open>m \<le> 1\<close>, and left as it is when \<open>1 < m < 256\<close>; the result is cast to unsigned 8 bit.
  Maxima 255 and 256, 1023 and 1024, 4095 and 4096 fall on the two sides of a branch edge;
  maxima 0 and 1 both take the multiplying branch, whose edge is at 1.
\<close>

theorem rescale_data_step_function:
  assumes "samples data \<noteq> []"
  shows "let m = Max (set (samples data)) in
    (4096 \<le> m \<longrightarrow>
       rescale_data data = Inr (map_ndarray (\<lambda>v. astype_uint8 (v / 265)) data)) \<and>
    (1024 \<le> m \<and> m < 4096 \<longrightarrow>
       rescale_data data = Inr (map_ndarray (\<lambda>v. astype_uint8 (v / 16)) data)) \<and>
    (256 \<le> m \<and> m < 1024 \<longrightarrow>
       rescale_data data = Inr (map_ndarray (\<lambda>v. astype_uint8 (v / 4)) data)) \<and>
    (1 < m \<and> m < 256 \<longrightarrow>
       rescale_data data = Inr (map_ndarray astype_uint8 data)) \<and>
    (m \<le> 1 \<longrightarrow>
       rescale_data data = Inr (map_ndarray (\<lambda>v. astype_uint8 (v * 256)) data))"
  using amax_Max [OF assms]
  by (simp add: rescale_data_def Let_def ndarray.map_comp comp_def)

theorem rescale_data_step_function_witness:
  "rescale_data (Gray 1 2 [255, 8]) = Inr (Gray 1 2 [255, 8]) \<and>
   rescale_data (Gray 1 2 [256, 8]) = Inr (Gray 1 2 [64, 2]) \<and>
   rescale_data (Gray 1 2 [1023, 8]) = Inr (Gray 1 2 [255, 2]) \<and>
   rescale_data (Gray 1 2 [1024, 8]) = Inr (Gray 1 2 [64, 0]) \<and>
   rescale_data (Gray 1 2 [4095, 32]) = Inr (Gray 1 2 [255, 2]) \<and>
   rescale_data (Gray 1 2 [4096, 530]) = Inr (Gray 1 2 [15, 2]) \<and>
   rescale_data (Gray 1 2 [0, 0]) = Inr (Gray 1 2 [0, 0]) \<and>
   rescale_data (Gray 1 2 [1, 1 / 2]) = Inr (Gray 1 2 [0, 128]) \<and>
   rescale_data (Multi 1 1 [[2], [1], [0]]) = Inr (Multi 1 1 [[2], [1], [0]])"
  using rescale_data_step_function [of "Gray 1 2 [255, 8]"]
    rescale_data_step_function [of "Gray 1 2 [256, 8]"]
    rescale_data_step_function [of "Gray 1 2 [1023, 8]"]
    rescale_data_step_function [of "Gray 1 2 [1024, 8]"]
    rescale_data_step_function [of "Gray 1 2 [4095, 32]"]
    rescale_data_step_function [of "Gray 1 2 [4096, 530]"]
    rescale_data_step_function [of "Gray 1 2 [0, 0]"]
    rescale_data_step_function [of "Gray 1 2 [1, 1 / 2]"]
    rescale_data_step_function [of "Multi 1 1 [[2], [1], [0]]"]
  by (simp add: astype_uint8_def trunc_def)

section \<open>The levels window of \<^verbatim>\<open>update_contrast\<close>\<close>

lemma uint_set_below:
  assumes "new_min \<le> 255"
  shows "uint (set_below new_min v) = max (uint v) new_min"
proof (cases "0 \<le> new_min")
  case True
  then have "uint (word_of_int new_min :: u8) = new_min"
    using assms by (simp add: uint_word_of_int take_bit_int_eq_self)
  then show ?thesis by (simp add: set_below_def)
next
  case False
  moreover have "0 \<le> uint v" by simp
  ultimately have "\<not> uint v < new_min" "max (uint v) new_min = uint v" by linarith+
  then show ?thesis by (simp add: set_below_def)
qed

lemma has_mode_map_ndarray: "has_mode (map_ndarray f img) = has_mode img"
  by (cases img) simp_all

lemma clip_above_one_Fin: "clip_above_one (Fin q) = Fin (min 1 q)"
  by (simp add: min_def)

lemma np_divide_Fin: "b \<noteq> 0 \<Longrightarrow> np_divide a b = Fin (of_int a / of_int b)"
  by (simp add: np_divide_def)

lemma astype_uint8_in_range:
  assumes "0 \<le> x" "x \<le> 255"
  shows "uint (astype_uint8 x) = \<lfloor>x\<rfloor>"
proof -
  have lo: "0 \<le> \<lfloor>x\<rfloor>" using assms(1) by simp
  have "\<lfloor>x\<rfloor> \<le> \<lfloor>255 :: rat\<rfloor>" using assms(2) by (rule floor_mono)
  then have hi: "\<lfloor>x\<rfloor> \<le> 255" by simp
  have "uint (word_of_int \<lfloor>x\<rfloor> :: u8) = \<lfloor>x\<rfloor>"
    using lo hi by (simp add: uint_word_of_int take_bit_int_eq_self)
  then show ?thesis using assms(1) by (simp add: astype_uint8_def trunc_def)
qed

text \<open>
  Inside a window whose lower bound is at most 255 the displayed sample is the floor of
  \<open>255 \<sqdot> min(1, (max(v, new_min) - new_min) / (new_max - new_min))\<close>: the cast never wraps.
\<close>

lemma uint_displayed_sample:
  assumes "new_min \<le> 255" "new_min < new_max"
  shows "uint (displayed_sample new_min new_max v) =
         \<lfloor>min 1 (of_int (max (uint v) new_min - new_min) / of_int (new_max - new_min) :: rat) * 255\<rfloor>"
proof -
  define q :: rat where
    "q = of_int (max (uint v) new_min - new_min) / of_int (new_max - new_min)"
  have q0: "0 \<le> q" using assms by (simp add: q_def)
  have c: "0 \<le> min 1 q * 255" "min 1 q * 255 \<le> 255" using q0 by simp_all
  have "displayed_sample new_min new_max v = astype_uint8 (min 1 q * 255)"
    using assms
    by (simp only: displayed_sample_def uint_set_below q_def [symmetric] clip_above_one_Fin
        times_255_uint8.simps np_divide_Fin)
  then show ?thesis using astype_uint8_in_range [OF c] by (simp add: q_def)
qed

lemma displayed_sample_mono:
  assumes "new_min \<le> 255" "new_min < new_max" "v \<le> v'"
  shows "displayed_sample new_min new_max v \<le> displayed_sample new_min new_max v'"
proof -
  have "uint v \<le> uint v'" using assms(3) by (simp add: word_le_def)
  then have "(of_int (max (uint v) new_min - new_min) / of_int (new_max - new_min) :: rat)
      \<le> of_int (max (uint v') new_min - new_min) / of_int (new_max - new_min)"
    using assms(2) by (intro divide_right_mono) simp_all
  then have "\<lfloor>min 1 (of_int (max (uint v) new_min - new_min) / of_int (new_max - new_min) :: rat) * 255\<rfloor>
     \<le> \<lfloor>min 1 (of_int (max (uint v') new_min - new_min) / of_int (new_max - new_min) :: rat) * 255\<rfloor>"
    by (intro floor_mono mult_right_mono) (simp_all add: min_le_iff_disj)
  then show ?thesis using assms(1,2) by (simp add: word_le_def uint_displayed_sample)
qed

lemma displayed_sample_low:
  assumes "new_min \<le> 255" "new_min < new_max" "uint v \<le> new_min"
  shows "displayed_sample new_min new_max v = 0"
proof -
  have "uint (displayed_sample new_min new_max v) = 0"
    using assms by (simp add: uint_displayed_sample max_def)
  then show ?thesis by (simp add: word_uint_eq_iff)
qed

lemma displayed_sample_high:
  assumes "new_min \<le> 255" "new_min < new_max" "new_max \<le> uint v"
  shows "displayed_sample new_min new_max v = 255"
proof -
  have "new_max - new_min \<le> max (uint v) new_min - new_min"
    using assms by simp
  then have "(of_int (new_max - new_min) :: rat) \<le> of_int (max (uint v) new_min - new_min)"
    by (simp only: of_int_le_iff)
  moreover have "(0 :: rat) < of_int (new_max - new_min)"
    using assms(2) by simp
  ultimately have "1 \<le> (of_int (max (uint v) new_min - new_min) / of_int (new_max - new_min) :: rat)"
    by (simp only: le_divide_eq_1_pos)
  then have "min 1 (of_int (max (uint v) new_min - new_min) / of_int (new_max - new_min) :: rat) = 1"
    by (simp only: min_def if_True)
  then have "uint (displayed_sample new_min new_max v) = 255"
    using assms(1,2) by (simp only: uint_displayed_sample) simp
  then show ?thesis by (simp add: word_uint_eq_iff)
qed

lemma uint_u8_le: "uint (x :: u8) \<le> 255"
  using uint_bounded [of x] by simp

lemma displayed_sample_monotone_clamped:
  assumes "new_min \<le> 255" "new_min < new_max"
  shows "monotone_clamped new_min new_max (displayed_sample new_min new_max)"
  unfolding monotone_clamped_def
proof (intro conjI allI impI monoI)
  fix v v' :: u8 assume "v \<le> v'"
  with assms show "displayed_sample new_min new_max v \<le> displayed_sample new_min new_max v'"
    by (rule displayed_sample_mono)
next
  fix v :: u8
  show "0 \<le> uint (displayed_sample new_min new_max v)" by simp
  show "uint (displayed_sample new_min new_max v) \<le> 255" by (rule uint_u8_le)
  { assume "uint v \<le> new_min"
    with assms show "displayed_sample new_min new_max v = 0" by (rule displayed_sample_low) }
  { assume "new_max \<le> uint v"
    with assms show "displayed_sample new_min new_max v = 255" by (rule displayed_sample_high) }
qed

lemma displayed_sample_window:
  "map (\<lambda>x. times_255_uint8 (clip_above_one x)) (window new_min new_max xs) =
   map (displayed_sample new_min new_max) xs"
  by (simp add: window_def displayed_sample_def)

lemma global_window_displayed:
  "map_ndarray (\<lambda>x. times_255_uint8 (clip_above_one x)) (global_window new_min new_max img) =
   map_ndarray (displayed_sample new_min new_max) img"
  by (cases img) (simp_all add: window_def displayed_sample_def)

lemma update_contrast_global:
  assumes "scaled_image_data s = Some img" "\<not> per_channel_contrast s" "has_mode img"
  shows "update_contrast s =
    (None, s\<lparr>displayed_image :=
       Some (map_ndarray (displayed_sample (min_display_value s) (max_display_value s)) img)\<rparr>)"
  using assms
  by (simp add: update_contrast_def global_window_displayed fromarray_def has_mode_map_ndarray)

lemma window_channels_valid:
  "valid_windows min_max (length chs) \<Longrightarrow>
   \<exists>pool. window_channels min_max chs = Inr pool \<and> length pool = length chs \<and>
     (\<forall>c<length chs.
        map (\<lambda>x. times_255_uint8 (clip_above_one x)) (pool ! c) =
        map (displayed_sample (min_max ! (2 * c)) (min_max ! (2 * c + 1))) (chs ! c))"
proof (induction min_max chs rule: window_channels.induct)
  case (2 new_min new_max min_max channel_data rest)
  then obtain pool where pool: "window_channels min_max rest = Inr pool"
    "length pool = length rest"
    "\<forall>c<length rest. map (\<lambda>x. times_255_uint8 (clip_above_one x)) (pool ! c) =
        map (displayed_sample (min_max ! (2 * c)) (min_max ! (2 * c + 1))) (rest ! c)"
    by auto
  have "\<forall>c<length (channel_data # rest).
      map (\<lambda>x. times_255_uint8 (clip_above_one x))
        ((window new_min new_max channel_data # pool) ! c) =
      map (displayed_sample ((new_min # new_max # min_max) ! (2 * c))
             ((new_min # new_max # min_max) ! (2 * c + 1)))
        ((channel_data # rest) ! c)"
  proof (intro allI impI)
    fix c assume c: "c < length (channel_data # rest)"
    show "map (\<lambda>x. times_255_uint8 (clip_above_one x))
        ((window new_min new_max channel_data # pool) ! c) =
      map (displayed_sample ((new_min # new_max # min_max) ! (2 * c))
             ((new_min # new_max # min_max) ! (2 * c + 1)))
        ((channel_data # rest) ! c)"
    proof (cases c)
      case 0
      then show ?thesis by (simp add: displayed_sample_window)
    next
      case (Suc c')
      with c have "c' < length rest" by simp
      with pool(3) Suc show ?thesis by simp
    qed
  qed
  with pool(1,2) show ?case by simp
qed simp_all

lemma update_contrast_per_channel:
  assumes "scaled_image_data s = Some (Multi h w chs)" "per_channel_contrast s"
    "has_mode (Multi h w chs)"
    "valid_windows (drop 2 (display_values_array s)) (length chs)"
  shows "\<exists>outs. update_contrast s = (None, s\<lparr>displayed_image := Some (Multi h w outs)\<rparr>) \<and>
     length outs = length chs \<and>
     (\<forall>c<length chs. outs ! c =
        map (displayed_sample (drop 2 (display_values_array s) ! (2 * c))
               (drop 2 (display_values_array s) ! (2 * c + 1))) (chs ! c))"
proof -
  obtain pool where pool:
    "window_channels (drop 2 (display_values_array s)) chs = Inr pool"
    "length pool = length chs"
    "\<forall>c<length chs. map (\<lambda>x. times_255_uint8 (clip_above_one x)) (pool ! c) =
        map (displayed_sample (drop 2 (display_values_array s) ! (2 * c))
               (drop 2 (display_values_array s) ! (2 * c + 1))) (chs ! c)"
    using window_channels_valid [OF assms(4)] by blast
  have len: "2 \<le> length pool" "length pool \<le> 4" using pool(2) assms(3) by simp_all
  then have ne: "pool \<noteq> []" by auto
  let ?outs = "map (map (\<lambda>x. times_255_uint8 (clip_above_one x))) pool"
  have "update_contrast s = (None, s\<lparr>displayed_image := Some (Multi h w ?outs)\<rparr>)"
    using assms(1,2) pool(1) ne len by (simp add: update_contrast_def fromarray_def)
  moreover have "length ?outs = length chs" using pool(2) by simp
  moreover have "\<forall>c<length chs. ?outs ! c =
        map (displayed_sample (drop 2 (display_values_array s) ! (2 * c))
               (drop 2 (display_values_array s) ! (2 * c + 1))) (chs ! c)"
    using pool(2,3) by simp
  ultimately show ?thesis by blast
qed

lemma valid_windows_nth:
  "valid_windows min_max n \<Longrightarrow> c < n \<Longrightarrow>
   min_max ! (2 * c) \<le> 255 \<and> min_max ! (2 * c) < min_max ! (2 * c + 1)"
proof (induction min_max n arbitrary: c rule: valid_windows.induct)
  case (2 new_min new_max min_max n)
  show ?case
  proof (cases c)
    case 0
    with 2 show ?thesis by simp
  next
    case (Suc c')
    with 2 show ?thesis by simp
  qed
qed simp_all

lemma update_contrast_no_mode:
  assumes "scaled_image_data s = Some img" "\<not> per_channel_contrast s" "\<not> has_mode img"
  shows "update_contrast s = (Some TypeError, s)"
  using assms
  by (simp add: update_contrast_def global_window_displayed fromarray_def has_mode_map_ndarray)

text \<open>
  C3. Let the normalized uint8 buffer be \<open>img\<close>, of a shape that \<^verbatim>\<open>Image.fromarray\<close> takes
  (two-dimensional, or of two to four channels). In global mode, under a window whose
  lower bound is at most 255 and strictly below the upper bound, \<^verbatim>\<open>update_contrast\<close> returns
  normally and the displayed image is \<open>img\<close> with one map applied to every sample; that
  map is monotone non-decreasing in the sample and its values lie in 0..255 (0 at or below
  the lower bound, 255 at or above the upper bound). In per-channel mode the same holds
  slice by slice: slice \<open>c\<close> is mapped with the pair at positions \<open>2c\<close> and \<open>2c + 1\<close>
  of \<^verbatim>\<open>display_values_array[2:]\<close>, and the slices keep their order. The bounds that the
  viewer's controls and corrections produce never exceed 255 below (they reach \<open>-1\<close> and
  256 at the ends), so the windows covered are those it can reach.
\<close>

theorem update_contrast_monotone_clamped:
  assumes "scaled_image_data s = Some img" and "has_mode img"
  shows
    "(\<not> per_channel_contrast s \<and> min_display_value s \<le> 255 \<and>
      min_display_value s < max_display_value s \<longrightarrow>
        update_contrast s =
          (None, s\<lparr>displayed_image := Some (map_ndarray
             (displayed_sample (min_display_value s) (max_display_value s)) img)\<rparr>) \<and>
        monotone_clamped (min_display_value s) (max_display_value s)
          (displayed_sample (min_display_value s) (max_display_value s))) \<and>
     (per_channel_contrast s \<and> img = Multi h w chs \<and>
      valid_windows (drop 2 (display_values_array s)) (length chs) \<longrightarrow>
        (\<exists>outs. update_contrast s = (None, s\<lparr>displayed_image := Some (Multi h w outs)\<rparr>) \<and>
           length outs = length chs \<and>
           (\<forall>c<length chs.
              outs ! c =
                map (displayed_sample (drop 2 (display_values_array s) ! (2 * c))
                       (drop 2 (display_values_array s) ! (2 * c + 1))) (chs ! c) \<and>
              monotone_clamped (drop 2 (display_values_array s) ! (2 * c))
                (drop 2 (display_values_array s) ! (2 * c + 1))
                (displayed_sample (drop 2 (display_values_array s) ! (2 * c))
                   (drop 2 (display_values_array s) ! (2 * c + 1))))))"
proof (intro conjI impI)
  assume g: "\<not> per_channel_contrast s \<and> min_display_value s \<le> 255 \<and>
    min_display_value s < max_display_value s"
  show "update_contrast s =
          (None, s\<lparr>displayed_image := Some (map_ndarray
             (displayed_sample (min_display_value s) (max_display_value s)) img)\<rparr>)"
    using assms g by (simp add: update_contrast_global)
  show "monotone_clamped (min_display_value s) (max_display_value s)
          (displayed_sample (min_display_value s) (max_display_value s))"
    using g by (simp add: displayed_sample_monotone_clamped)
next
  assume p: "per_channel_contrast s \<and> img = Multi h w chs \<and>
      valid_windows (drop 2 (display_values_array s)) (length chs)"
  let ?mm = "drop 2 (display_values_array s)"
  obtain outs where outs:
    "update_contrast s = (None, s\<lparr>displayed_image := Some (Multi h w outs)\<rparr>)"
    "length outs = length chs"
    "\<forall>c<length chs. outs ! c =
       map (displayed_sample (?mm ! (2 * c)) (?mm ! (2 * c + 1))) (chs ! c)"
    using update_contrast_per_channel [of s h w chs] assms p by blast
  have "\<forall>c<length chs.
      outs ! c = map (displayed_sample (?mm ! (2 * c)) (?mm ! (2 * c + 1))) (chs ! c) \<and>
      monotone_clamped (?mm ! (2 * c)) (?mm ! (2 * c + 1))
        (displayed_sample (?mm ! (2 * c)) (?mm ! (2 * c + 1)))"
  proof (intro allI impI)
    fix c assume c: "c < length chs"
    then have v: "?mm ! (2 * c) \<le> 255" "?mm ! (2 * c) < ?mm ! (2 * c + 1)"
      using valid_windows_nth [of ?mm "length chs" c] p by simp_all
    from outs(3) c
    have "outs ! c = map (displayed_sample (?mm ! (2 * c)) (?mm ! (2 * c + 1))) (chs ! c)"
      by simp
    then show "outs ! c =
        map (displayed_sample (?mm ! (2 * c)) (?mm ! (2 * c + 1))) (chs ! c) \<and>
      monotone_clamped (?mm ! (2 * c)) (?mm ! (2 * c + 1))
        (displayed_sample (?mm ! (2 * c)) (?mm ! (2 * c + 1)))"
      using displayed_sample_monotone_clamped [OF v] by simp
  qed
  with outs(1,2)
  show "\<exists>outs. update_contrast s = (None, s\<lparr>displayed_image := Some (Multi h w outs)\<rparr>) \<and>
           length outs = length chs \<and>
           (\<forall>c<length chs.
              outs ! c = map (displayed_sample (?mm ! (2 * c)) (?mm ! (2 * c + 1))) (chs ! c) \<and>
              monotone_clamped (?mm ! (2 * c)) (?mm ! (2 * c + 1))
                (displayed_sample (?mm ! (2 * c)) (?mm ! (2 * c + 1))))"
    by blast
qed

theorem update_contrast_monotone_clamped_witness:
  "update_contrast
     ((init_session 500 500)\<lparr>scaled_image_data := Some (Gray 1 3 [10, 100, 200]),
        min_display_value := 50, max_display_value := 150\<rparr>) =
     (None, (init_session 500 500)\<lparr>scaled_image_data := Some (Gray 1 3 [10, 100, 200]),
        min_display_value := 50, max_display_value := 150,
        displayed_image := Some (Gray 1 3 [0, 127, 255])\<rparr>) \<and>
   monotone_clamped 50 150 (displayed_sample 50 150) \<and>
   update_contrast
     ((init_session 500 500)\<lparr>scaled_image_data := Some (Multi 1 1 [[10], [100], [200]]),
        per_channel_contrast := True,
        display_values_array := [0, 255, 0, 255, 50, 150, 0, 100]\<rparr>) =
     (None, (init_session 500 500)\<lparr>scaled_image_data := Some (Multi 1 1 [[10], [100], [200]]),
        per_channel_contrast := True,
        display_values_array := [0, 255, 0, 255, 50, 150, 0, 100],
        displayed_image := Some (Multi 1 1 [[10], [127], [255]])\<rparr>)"
  using update_contrast_monotone_clamped
      [of "(init_session 500 500)\<lparr>scaled_image_data := Some (Gray 1 3 [10, 100, 200]),
        min_display_value := 50, max_display_value := 150\<rparr>" "Gray 1 3 [10, 100, 200]"]
    update_contrast_monotone_clamped
      [of "(init_session 500 500)\<lparr>scaled_image_data := Some (Multi 1 1 [[10], [100], [200]]),
        per_channel_contrast := True,
        display_values_array := [0, 255, 0, 255, 50, 150, 0, 100]\<rparr>"
        "Multi 1 1 [[10], [100], [200]]" 1 1 "[[10], [100], [200]]"]
  by (simp add: init_session_def update_contrast_def window_def set_below_def np_divide_def
      astype_uint8_def trunc_def fromarray_def)

section \<open>Correcting a degenerate levels window\<close>

lemma update_contrast_bounds:
  assumes "update_contrast s = (e, s')"
  shows "min_display_value s' = min_display_value s \<and> max_display_value s' = max_display_value s"
  using assms by (auto simp: update_contrast_def split: option.splits sum.splits if_splits)

lemma store_display_values_bounds:
  assumes "store_display_values s = (e, s')"
  shows "min_display_value s' = min_display_value s \<and> max_display_value s' = max_display_value s"
  using assms by (auto simp: store_display_values_def Let_def split: option.splits if_splits)

text \<open>After its corrections a callback only copies the bounds and redraws.\<close>

lemma finish_bounds:
  assumes "(case store_display_values t of
           (Some e, s3) \<Rightarrow> (Some e, s3)
         | (None, s3) \<Rightarrow> if c then update_contrast s3 else (None, s3)) = (e', s')"
  shows "min_display_value s' = min_display_value t \<and> max_display_value s' = max_display_value t"
proof (cases "store_display_values t")
  case (Pair r s3)
  note st = store_display_values_bounds [OF Pair]
  show ?thesis
  proof (cases r)
    case None
    with assms Pair st show ?thesis
      by (cases c) (auto dest: update_contrast_bounds)
  next
    case (Some e)
    with assms Pair st show ?thesis by auto
  qed
qed

text \<open>
  The bounds after a callback that runs inside the other one, where its own write to the
  other variable fires nothing.
\<close>

lemma update_max_display_body_inner:
  "min_display_value (snd (update_max_display_body (\<lambda>s'. s') s)) =
     (if min_display_value s \<ge> max_display_value s then max_display_value s - 1
      else min_display_value s) \<and>
   max_display_value (snd (update_max_display_body (\<lambda>s'. s') s)) =
     (if max_display_value s = 0 then 1 else max_display_value s)"
proof -
  obtain e s' where r: "update_max_display_body (\<lambda>s'. s') s = (e, s')"
    by (cases "update_max_display_body (\<lambda>s'. s') s")
  note finish_bounds [OF r [unfolded update_max_display_body_def Let_def]]
  with r show ?thesis by simp
qed

lemma update_min_display_body_inner:
  "min_display_value (snd (update_min_display_body (\<lambda>s'. s') s)) =
     (if min_display_value s = 255 then 254 else min_display_value s) \<and>
   max_display_value (snd (update_min_display_body (\<lambda>s'. s') s)) =
     (if min_display_value s \<ge> max_display_value s then min_display_value s + 1
      else max_display_value s)"
proof -
  obtain e s' where r: "update_min_display_body (\<lambda>s'. s') s = (e, s')"
    by (cases "update_min_display_body (\<lambda>s'. s') s")
  note finish_bounds [OF r [unfolded update_min_display_body_def Let_def]]
  with r show ?thesis by simp
qed

text \<open>The bounds after a write that makes the lower bound reach the upper one.\<close>

lemma set_min_display_value_bounds:
  assumes "max_display_value s \<le> v"
  shows "min_display_value (set_min_display_value v s) = (if v = 255 then 254 else v) \<and>
         max_display_value (set_min_display_value v s) = (if v = - 1 then 1 else v + 1)"
proof -
  let ?s0 = "s\<lparr>min_display_value := v\<rparr>"
  let ?s1 = "(if v = 255 then ?s0\<lparr>min_display_value := 254\<rparr> else ?s0)"
  let ?t = "?s1\<lparr>max_display_value := v + 1\<rparr>"
  let ?s2 = "tk_callback (update_max_display_body (\<lambda>s'. s') ?t)"
  have t: "min_display_value ?t = (if v = 255 then 254 else v)" "max_display_value ?t = v + 1"
    by simp_all
  have "\<not> min_display_value ?t \<ge> max_display_value ?t" unfolding t by simp
  with update_max_display_body_inner [of ?t]
  have q: "min_display_value ?s2 = (if v = 255 then 254 else v) \<and>
      max_display_value ?s2 = (if v = - 1 then 1 else v + 1)"
    unfolding tk_callback_def t by (simp add: eq_neg_iff_add_eq_0)
  obtain e s' where r: "update_min_display ?s0 = (e, s')"
    by (cases "update_min_display ?s0")
  note finish_bounds [OF r [unfolded update_min_display_def update_min_display_body_def Let_def]]
  with assms q have "min_display_value s' = (if v = 255 then 254 else v) \<and>
      max_display_value s' = (if v = - 1 then 1 else v + 1)"
    by simp
  with r show ?thesis by (simp add: set_min_display_value_def tk_callback_def)
qed

lemma set_max_display_value_bounds:
  assumes "v \<le> min_display_value s"
  shows "min_display_value (set_max_display_value v s) = (if v = 256 then 254 else v - 1) \<and>
         max_display_value (set_max_display_value v s) = (if v = 0 then 1 else v)"
proof -
  let ?s0 = "s\<lparr>max_display_value := v\<rparr>"
  let ?s1 = "(if v = 0 then ?s0\<lparr>max_display_value := 1\<rparr> else ?s0)"
  let ?t = "?s1\<lparr>min_display_value := v - 1\<rparr>"
  let ?s2 = "tk_callback (update_min_display_body (\<lambda>s'. s') ?t)"
  have t: "min_display_value ?t = v - 1" "max_display_value ?t = (if v = 0 then 1 else v)"
    by simp_all
  have "\<not> min_display_value ?t \<ge> max_display_value ?t" unfolding t by simp
  with update_min_display_body_inner [of ?t]
  have q: "min_display_value ?s2 = (if v = 256 then 254 else v - 1) \<and>
      max_display_value ?s2 = (if v = 0 then 1 else v)"
    unfolding tk_callback_def t by simp
  obtain e s' where r: "update_max_display ?s0 = (e, s')"
    by (cases "update_max_display ?s0")
  note finish_bounds [OF r [unfolded update_max_display_def update_max_display_body_def Let_def]]
  with assms q have "min_display_value s' = (if v = 256 then 254 else v - 1) \<and>
      max_display_value s' = (if v = 0 then 1 else v)"
    by simp
  with r show ?thesis by (simp add: set_max_display_value_def tk_callback_def)
qed

text \<open>
  C4, as the claim states it, fails at the ends of the range. Writing 255 to the lower
  bound while the upper bound is 255 pulls the lower bound itself back to 254 and pushes
  the upper bound to 256; writing 0 to the upper bound while the lower bound is 0 moves
  the upper bound itself to 1 and pushes the lower bound to -1.
\<close>

theorem display_bounds_counterexample:
  "min_display_value (set_min_display_value 255 (init_session 500 500)) = 254 \<and>
   max_display_value (set_min_display_value 255 (init_session 500 500)) = 256 \<and>
   min_display_value (set_max_display_value 0 (init_session 500 500)) = - 1 \<and>
   max_display_value (set_max_display_value 0 (init_session 500 500)) = 1"
  by (simp add: set_min_display_value_def set_max_display_value_def update_min_display_def
      update_max_display_def update_min_display_body_def update_max_display_body_def
      store_display_values_def update_contrast_def tk_callback_def init_session_def)

text \<open>
  C4, amended. Whatever the bounds were and whatever value is written, a write to the lower
  bound that is not below the upper bound, and a write to the upper bound that is not above
  the lower bound, leave the lower bound strictly below the upper one. When the lower bound
  written is \<open>v\<close> in 0..254, it stays at \<open>v\<close>, the upper bound becomes \<open>v + 1\<close> and
  both lie in 0..255; when the upper bound written is \<open>v\<close> in 1..255, it stays at \<open>v\<close>,
  the lower bound becomes \<open>v - 1\<close> and both lie in 0..255.
\<close>

theorem display_bounds_corrected:
  "(max_display_value s \<le> v \<longrightarrow>
      min_display_value (set_min_display_value v s)
        < max_display_value (set_min_display_value v s)) \<and>
   (v \<le> min_display_value s \<longrightarrow>
      min_display_value (set_max_display_value v s)
        < max_display_value (set_max_display_value v s)) \<and>
   (0 \<le> v \<and> v \<le> 254 \<and> max_display_value s \<le> v \<longrightarrow>
      min_display_value (set_min_display_value v s) = v \<and>
      max_display_value (set_min_display_value v s) = v + 1 \<and>
      0 \<le> min_display_value (set_min_display_value v s) \<and>
      max_display_value (set_min_display_value v s) \<le> 255) \<and>
   (1 \<le> v \<and> v \<le> 255 \<and> v \<le> min_display_value s \<longrightarrow>
      max_display_value (set_max_display_value v s) = v \<and>
      min_display_value (set_max_display_value v s) = v - 1 \<and>
      0 \<le> min_display_value (set_max_display_value v s) \<and>
      max_display_value (set_max_display_value v s) \<le> 255)"
proof (intro conjI impI)
  assume "max_display_value s \<le> v"
  from set_min_display_value_bounds [OF this]
  show "min_display_value (set_min_display_value v s)
        < max_display_value (set_min_display_value v s)"
    by (simp split: if_splits)
next
  assume "v \<le> min_display_value s"
  from set_max_display_value_bounds [OF this]
  show "min_display_value (set_max_display_value v s)
        < max_display_value (set_max_display_value v s)"
    by (simp split: if_splits)
next
  assume a: "0 \<le> v \<and> v \<le> 254 \<and> max_display_value s \<le> v"
  then have "max_display_value s \<le> v" by simp
  from set_min_display_value_bounds [OF this] a
  have r: "min_display_value (set_min_display_value v s) = v \<and>
         max_display_value (set_min_display_value v s) = v + 1"
    by simp
  from r show "min_display_value (set_min_display_value v s) = v" by simp
  from r show "max_display_value (set_min_display_value v s) = v + 1" by simp
  from r a show "0 \<le> min_display_value (set_min_display_value v s)" by simp
  from r a show "max_display_value (set_min_display_value v s) \<le> 255" by simp
next
  assume a: "1 \<le> v \<and> v \<le> 255 \<and> v \<le> min_display_value s"
  then have "v \<le> min_display_value s" by simp
  from set_max_display_value_bounds [OF this] a
  have r: "min_display_value (set_max_display_value v s) = v - 1 \<and>
         max_display_value (set_max_display_value v s) = v"
    by simp
  from r show "max_display_value (set_max_display_value v s) = v" by simp
  from r show "min_display_value (set_max_display_value v s) = v - 1" by simp
  from r a show "0 \<le> min_display_value (set_max_display_value v s)" by simp
  from r a show "max_display_value (set_max_display_value v s) \<le> 255" by simp
qed

theorem display_bounds_corrected_witness:
  "min_display_value (set_min_display_value 200
      ((init_session 500 500)\<lparr>max_display_value := 100\<rparr>)) = 200 \<and>
   max_display_value (set_min_display_value 200
      ((init_session 500 500)\<lparr>max_display_value := 100\<rparr>)) = 201 \<and>
   min_display_value (set_max_display_value 40
      ((init_session 500 500)\<lparr>min_display_value := 90\<rparr>)) = 39 \<and>
   max_display_value (set_max_display_value 40
      ((init_session 500 500)\<lparr>min_display_value := 90\<rparr>)) = 40 \<and>
   min_display_value (set_min_display_value 255
      ((init_session 500 500)\<lparr>max_display_value := 100\<rparr>))
     < max_display_value (set_min_display_value 255
      ((init_session 500 500)\<lparr>max_display_value := 100\<rparr>))"
  using display_bounds_corrected [of "(init_session 500 500)\<lparr>max_display_value := 100\<rparr>" 200]
    display_bounds_corrected [of "(init_session 500 500)\<lparr>min_display_value := 90\<rparr>" 40]
    display_bounds_corrected [of "(init_session 500 500)\<lparr>max_display_value := 100\<rparr>" 255]
  by (simp add: init_session_def)

section \<open>The guards of a zoom step\<close>

lemma zoom_in_loaded:
  assumes "file' s = Some f" "f \<noteq> []"
  shows "zoom_in s =
    (if float64 (of_int (min (canvas_width s) (canvas_height s)) / 5) < zoom_factor s
     then (None, s)
     else (None, s\<lparr>zoom_factor := float64 (zoom_factor s * delta),
                    zoomfit_pressed := False\<rparr>))"
  using assms by (simp add: zoom_in_def zoom_image_def not_without_file_def Let_def)

lemma zoom_out_loaded:
  assumes "file' s = Some f" "f \<noteq> []"
  shows "zoom_out s =
    (if trunc (float64 (of_int (min (width s) (height s)) * zoom_factor s)) < 30
     then (None, s)
     else (None, s\<lparr>zoom_factor := float64 (zoom_factor s / delta),
                    zoomfit_pressed := False\<rparr>))"
  using assms by (simp add: zoom_out_def zoom_image_def not_without_file_def Let_def)

lemma trunc_ge:
  assumes "n \<le> trunc x" "0 < n"
  shows "of_int n \<le> x"
proof (cases "0 \<le> x")
  case True
  with assms show ?thesis by (simp add: trunc_def le_floor_iff)
next
  case False
  then have "0 \<le> \<lfloor>- x\<rfloor>" by simp
  with False assms show ?thesis by (simp add: trunc_def)
qed

lemma zoom_factor_zoom_mouse:
  assumes "file' s = Some f" "f \<noteq> []"
  shows "zoom_factor (snd (zoom_mouse x y (Some (b0, b1, b2, b3)) d s)) =
    (if of_int b0 < x \<and> x < of_int b2 \<and> of_int b1 < y \<and> y < of_int b3 \<and> d < 0
     then zoom_factor (snd (zoom_out s))
     else if of_int b0 < x \<and> x < of_int b2 \<and> of_int b1 < y \<and> y < of_int b3 \<and> 0 < d
     then zoom_factor (snd (zoom_in s))
     else zoom_factor s)"
  using assms
  by (simp add: zoom_in_loaded zoom_out_loaded)
    (simp add: zoom_mouse_def zoom_image_def not_without_file_def Let_def)

text \<open>The doubles of the examples.\<close>

lemma float64_delta: "float64 (13 / 10) = delta"
  by code_simp

lemma float64_inverse_delta: "float64 (1 / delta) = 866076851417403 / 1125899906842624"
  by code_simp

lemma float64_100_delta: "float64 (100 * delta) = 130"
  by code_simp

lemma float64_1_delta: "float64 (1 * delta) = delta"
  by code_simp

lemma float64_sizes:
  "float64 (of_int (min 500 500) / 5) = 100" "float64 (of_int (min 30 30) * 1) = 30"
  "float64 (of_int (min 100 80) * 1) = 80" "float64 (of_int (min 29 80) * 1) = 29"
  "float64 (of_int (min 0 0) * 1) = 0"
  by code_simp+

lemma float64_shown:
  "trunc (float64 (of_int (min 30 30) * (866076851417403 / 1125899906842624))) = 23"
  by code_simp

text \<open>
  Rounding decides a guard: after one step out from factor 1, an image 39 pixels wide
  measures \<open>39 / 1.3 = 30\<close> exactly, but the product of the doubles is just below 30 and
  the next step out is rejected.
\<close>

lemma float64_width_39:
  "trunc (float64 (of_int (min 39 39) * (866076851417403 / 1125899906842624))) = 29"
  by code_simp

text \<open>
  C5, as the claim states it, fails: the guards look at the zoom factor before the step.
  A 30 by 30 image at factor 1 passes the zoom-out guard (\<open>int(30 * 1) = 30\<close>); its factor
  becomes the double \<open>1 / 1.3\<close>, and the guard's own measure of the image on screen,
  \<^verbatim>\<open>int(i * self.zoom_factor)\<close>, is then 23, below 30. On a 500 by 500 canvas a factor of
  100, which is exactly one fifth of the canvas, passes the zoom-in guard and becomes 130.
\<close>

theorem zoom_step_counterexample:
  "zoom_factor (snd (zoom_out
      ((init_session 500 500)\<lparr>file' := Some ''a.png'', width := 30, height := 30\<rparr>))) =
     866076851417403 / 1125899906842624 \<and>
   trunc (float64 (of_int (min 30 30) * (866076851417403 / 1125899906842624))) = 23 \<and>
   zoom_factor (snd (zoom_in
      ((init_session 500 500)\<lparr>file' := Some ''a.png'', zoom_factor := 100\<rparr>))) = 130 \<and>
   float64 (of_int (min 500 500) / 5) = 100"
proof -
  have o: "zoom_out ((init_session 500 500)\<lparr>file' := Some ''a.png'', width := 30, height := 30\<rparr>) =
      (None, (init_session 500 500)\<lparr>file' := Some ''a.png'', width := 30, height := 30,
         zoom_factor := float64 (1 / delta), zoomfit_pressed := False\<rparr>)"
    unfolding zoom_out_def zoom_image_def not_without_file_def init_session_def Let_def
    using float64_sizes(2) by (simp add: trunc_def)
  have i: "zoom_in ((init_session 500 500)\<lparr>file' := Some ''a.png'', zoom_factor := 100\<rparr>) =
      (None, (init_session 500 500)\<lparr>file' := Some ''a.png'',
         zoom_factor := float64 (100 * delta), zoomfit_pressed := False\<rparr>)"
    unfolding zoom_in_def zoom_image_def not_without_file_def init_session_def Let_def
    using float64_sizes(1) by simp
  show ?thesis
    unfolding o i using float64_shown float64_sizes(1)
    by (simp only: snd_conv float64_inverse_delta float64_100_delta) simp
qed

text \<open>
  C5, amended. With a file loaded, a zoom step is guarded on the factor \<open>z\<close> it starts
  from, and so are the two bounds: they hold before every accepted step, not after it.
  Zooming in is rejected, leaving every field as it was, when \<open>z\<close> already exceeds one
  fifth of the smaller canvas dimension (the double \<^verbatim>\<open>i/5\<close>); otherwise the factor becomes
  the double \<open>z * 1.3\<close>. Zooming out is rejected when the smaller image dimension times
  \<open>z\<close>, as a double and truncated, is already below 30; otherwise the factor becomes the
  double \<open>z / 1.3\<close>. An accepted step writes the factor and the state of the fit button
  and nothing else. The mouse wheel inside the image box steps the factor as zooming out
  (negative delta) or zooming in (positive delta) does, and leaves it alone otherwise.
\<close>

theorem zoom_step_guarded:
  assumes "file' s = Some f" and "f \<noteq> []" and "double_range s"
  shows
    "(float64 (of_int (min (canvas_width s) (canvas_height s)) / 5) < zoom_factor s \<longrightarrow>
        zoom_in s = (None, s)) \<and>
     (\<not> float64 (of_int (min (canvas_width s) (canvas_height s)) / 5) < zoom_factor s \<longrightarrow>
        zoom_in s = (None, s\<lparr>zoom_factor := float64 (zoom_factor s * delta),
                              zoomfit_pressed := False\<rparr>) \<and>
        zoom_factor s \<le> float64 (of_int (min (canvas_width s) (canvas_height s)) / 5)) \<and>
     (trunc (float64 (of_int (min (width s) (height s)) * zoom_factor s)) < 30 \<longrightarrow>
        zoom_out s = (None, s)) \<and>
     (\<not> trunc (float64 (of_int (min (width s) (height s)) * zoom_factor s)) < 30 \<longrightarrow>
        zoom_out s = (None, s\<lparr>zoom_factor := float64 (zoom_factor s / delta),
                               zoomfit_pressed := False\<rparr>) \<and>
        30 \<le> float64 (of_int (min (width s) (height s)) * zoom_factor s)) \<and>
     zoom_factor (snd (zoom_mouse x y (Some (b0, b1, b2, b3)) d s)) =
       (if of_int b0 < x \<and> x < of_int b2 \<and> of_int b1 < y \<and> y < of_int b3 \<and> d < 0
        then zoom_factor (snd (zoom_out s))
        else if of_int b0 < x \<and> x < of_int b2 \<and> of_int b1 < y \<and> y < of_int b3 \<and> 0 < d
        then zoom_factor (snd (zoom_in s))
        else zoom_factor s)"
proof (intro conjI impI)
  assume "float64 (of_int (min (canvas_width s) (canvas_height s)) / 5) < zoom_factor s"
  then show "zoom_in s = (None, s)"
    using assms(1,2) by (simp add: zoom_in_loaded)
next
  assume a: "\<not> float64 (of_int (min (canvas_width s) (canvas_height s)) / 5) < zoom_factor s"
  then show "zoom_in s = (None, s\<lparr>zoom_factor := float64 (zoom_factor s * delta),
      zoomfit_pressed := False\<rparr>)"
    using assms(1,2) by (simp add: zoom_in_loaded)
  from a show "zoom_factor s \<le> float64 (of_int (min (canvas_width s) (canvas_height s)) / 5)"
    by simp
next
  assume "trunc (float64 (of_int (min (width s) (height s)) * zoom_factor s)) < 30"
  then show "zoom_out s = (None, s)"
    using assms(1,2) by (simp add: zoom_out_loaded)
next
  assume a: "\<not> trunc (float64 (of_int (min (width s) (height s)) * zoom_factor s)) < 30"
  then show "zoom_out s = (None, s\<lparr>zoom_factor := float64 (zoom_factor s / delta),
      zoomfit_pressed := False\<rparr>)"
    using assms(1,2) by (simp add: zoom_out_loaded)
  from a have "of_int 30 \<le> float64 (of_int (min (width s) (height s)) * zoom_factor s)"
    by (intro trunc_ge) simp_all
  then show "30 \<le> float64 (of_int (min (width s) (height s)) * zoom_factor s)"
    by simp
next
  show "zoom_factor (snd (zoom_mouse x y (Some (b0, b1, b2, b3)) d s)) =
       (if of_int b0 < x \<and> x < of_int b2 \<and> of_int b1 < y \<and> y < of_int b3 \<and> d < 0
        then zoom_factor (snd (zoom_out s))
        else if of_int b0 < x \<and> x < of_int b2 \<and> of_int b1 < y \<and> y < of_int b3 \<and> 0 < d
        then zoom_factor (snd (zoom_in s))
        else zoom_factor s)"
    using assms(1,2) by (rule zoom_factor_zoom_mouse)
qed

theorem zoom_step_guarded_witness:
  "double_range ((init_session 500 500)\<lparr>file' := Some ''a.png'', width := 100, height := 80\<rparr>) \<and>
   zoom_factor (snd (zoom_in
      ((init_session 500 500)\<lparr>file' := Some ''a.png'', width := 100, height := 80\<rparr>))) = delta \<and>
   zoom_factor (snd (zoom_out
      ((init_session 500 500)\<lparr>file' := Some ''a.png'', width := 100, height := 80\<rparr>))) = 866076851417403 / 1125899906842624 \<and>
   zoom_factor (snd (zoom_mouse 5 5 (Some (0, 0, 100, 80)) (- 120)
      ((init_session 500 500)\<lparr>file' := Some ''a.png'', width := 100, height := 80\<rparr>))) = 866076851417403 / 1125899906842624 \<and>
   zoom_in ((init_session 500 500)\<lparr>file' := Some ''a.png'', zoom_factor := 101\<rparr>) =
     (None, (init_session 500 500)\<lparr>file' := Some ''a.png'', zoom_factor := 101\<rparr>) \<and>
   zoom_out ((init_session 500 500)\<lparr>file' := Some ''a.png'', width := 29, height := 80\<rparr>) =
     (None, (init_session 500 500)\<lparr>file' := Some ''a.png'', width := 29, height := 80\<rparr>)"
proof -
  have r: "double_range ((init_session 500 500)\<lparr>file' := Some ''a.png'', width := 100, height := 80\<rparr>)"
    "double_range ((init_session 500 500)\<lparr>file' := Some ''a.png'', zoom_factor := 101\<rparr>)"
    "double_range ((init_session 500 500)\<lparr>file' := Some ''a.png'', width := 29, height := 80\<rparr>)"
    by (simp_all add: double_range_def init_session_def)
  have g: "\<not> float64 (of_int (min (canvas_width ((init_session 500 500)\<lparr>file' := Some ''a.png'', width := 100, height := 80\<rparr>))
        (canvas_height ((init_session 500 500)\<lparr>file' := Some ''a.png'', width := 100, height := 80\<rparr>))) / 5)
      < zoom_factor ((init_session 500 500)\<lparr>file' := Some ''a.png'', width := 100, height := 80\<rparr>)"
    "\<not> trunc (float64 (of_int (min (width ((init_session 500 500)\<lparr>file' := Some ''a.png'', width := 100, height := 80\<rparr>))
        (height ((init_session 500 500)\<lparr>file' := Some ''a.png'', width := 100, height := 80\<rparr>))) *
      zoom_factor ((init_session 500 500)\<lparr>file' := Some ''a.png'', width := 100, height := 80\<rparr>))) < 30"
    "float64 (of_int (min (canvas_width
        ((init_session 500 500)\<lparr>file' := Some ''a.png'', zoom_factor := 101\<rparr>))
        (canvas_height ((init_session 500 500)\<lparr>file' := Some ''a.png'', zoom_factor := 101\<rparr>))) / 5)
      < zoom_factor ((init_session 500 500)\<lparr>file' := Some ''a.png'', zoom_factor := 101\<rparr>)"
    "trunc (float64 (of_int (min (width
        ((init_session 500 500)\<lparr>file' := Some ''a.png'', width := 29, height := 80\<rparr>))
        (height ((init_session 500 500)\<lparr>file' := Some ''a.png'', width := 29, height := 80\<rparr>))) *
      zoom_factor ((init_session 500 500)\<lparr>file' := Some ''a.png'', width := 29, height := 80\<rparr>)))
      < 30"
    using float64_sizes by (simp_all add: init_session_def trunc_def)
  have z: "zoom_factor ((init_session 500 500)\<lparr>file' := Some ''a.png'', width := 100, height := 80\<rparr>) = 1"
    by (simp add: init_session_def)
  note a = zoom_step_guarded [of "((init_session 500 500)\<lparr>file' := Some ''a.png'', width := 100, height := 80\<rparr>)" "''a.png''" 5 5 0 0 100 80 "- 120", OF _ _ r(1)]
  note b = zoom_step_guarded
      [of "(init_session 500 500)\<lparr>file' := Some ''a.png'', zoom_factor := 101\<rparr>" "''a.png''",
        OF _ _ r(2)]
  note c = zoom_step_guarded
      [of "(init_session 500 500)\<lparr>file' := Some ''a.png'', width := 29, height := 80\<rparr>" "''a.png''",
        OF _ _ r(3)]
  from a g(1,2) z have
    "zoom_factor (snd (zoom_in ((init_session 500 500)\<lparr>file' := Some ''a.png'', width := 100, height := 80\<rparr>))) = float64 (1 * delta)"
    "zoom_factor (snd (zoom_out ((init_session 500 500)\<lparr>file' := Some ''a.png'', width := 100, height := 80\<rparr>))) = float64 (1 / delta)"
    "zoom_factor (snd (zoom_mouse 5 5 (Some (0, 0, 100, 80)) (- 120) ((init_session 500 500)\<lparr>file' := Some ''a.png'', width := 100, height := 80\<rparr>))) = float64 (1 / delta)"
    by (simp_all add: init_session_def)
  moreover from b g(3) have
    "zoom_in ((init_session 500 500)\<lparr>file' := Some ''a.png'', zoom_factor := 101\<rparr>) =
     (None, (init_session 500 500)\<lparr>file' := Some ''a.png'', zoom_factor := 101\<rparr>)"
    by (simp add: init_session_def)
  moreover from c g(4) have
    "zoom_out ((init_session 500 500)\<lparr>file' := Some ''a.png'', width := 29, height := 80\<rparr>) =
     (None, (init_session 500 500)\<lparr>file' := Some ''a.png'', width := 29, height := 80\<rparr>)"
    by (simp add: init_session_def)
  ultimately show ?thesis
    using r(1) by (simp only: float64_1_delta float64_inverse_delta)
qed

section \<open>The crop bounds of \<^verbatim>\<open>show_image\<close>\<close>

lemma image_tile_bounds:
  assumes "image_tile x1 y1 x2 y2 z pos = Inr t"
  shows "des_x1 t = x1 / z \<and> des_y1 t = y1 / z \<and> des_x2 t = x2 / z \<and> des_y2 t = y2 / z"
proof (cases "z = 0 \<or> x2 / z - x1 / z = 0 \<or> y2 / z - y1 / z = 0 \<or>
    py_ceil (x2 / z) - \<lfloor>x1 / z\<rfloor> = 0 \<or> py_ceil (y2 / z) - \<lfloor>y1 / z\<rfloor> = 0")
  case True
  with assms show ?thesis
    unfolding image_tile_def Let_def by (simp only: if_True) simp
next
  case False
  with assms have "Inr \<lparr>des_x1 = x1 / z, des_y1 = y1 / z, des_x2 = x2 / z, des_y2 = y2 / z,
      first_crop = first_crop t, resize_to = resize_to t,
      second_crop = second_crop t, placed_at = placed_at t\<rparr> = (Inr t :: py_error + tile)"
    unfolding image_tile_def Let_def by (simp only: if_False) auto
  then have "t = \<lparr>des_x1 = x1 / z, des_y1 = y1 / z, des_x2 = x2 / z, des_y2 = y2 / z,
      first_crop = first_crop t, resize_to = resize_to t,
      second_crop = second_crop t, placed_at = placed_at t\<rparr>"
    by simp
  then show ?thesis
    by (metis tile.select_convs(1) tile.select_convs(2) tile.select_convs(3) tile.select_convs(4))
qed

lemma show_image_drawn:
  assumes "show_image (Some (b0, b1, b2, b3)) (v0, v1, v2, v3) s = Inr (Some rd)"
    and "drawn rd = Some t"
  shows "image_tile (max (v0 - of_int (b0 + 1)) 0) (max (v1 - of_int (b1 + 1)) 0)
      (min v2 (of_int (b2 - 1)) - of_int (b0 + 1)) (min v3 (of_int (b3 - 1)) - of_int (b1 + 1))
      (zoom_factor s) (max v0 (of_int (b0 + 1)), max v1 (of_int (b1 + 1))) = Inr t"
proof -
  define r where "r = image_tile (max (v0 - of_int (b0 + 1)) 0) (max (v1 - of_int (b1 + 1)) 0)
      (min v2 (of_int (b2 - 1)) - of_int (b0 + 1)) (min v3 (of_int (b3 - 1)) - of_int (b1 + 1))
      (zoom_factor s) (max v0 (of_int (b0 + 1)), max v1 (of_int (b1 + 1)))"
  define vis where "vis \<longleftrightarrow>
      trunc (min v2 (of_int (b2 - 1)) - of_int (b0 + 1) - max (v0 - of_int (b0 + 1)) 0) > 0 \<and>
      trunc (min v3 (of_int (b3 - 1)) - of_int (b1 + 1) - max (v1 - of_int (b1 + 1)) 0) > 0"
  have "\<exists>sr. show_image (Some (b0, b1, b2, b3)) (v0, v1, v2, v3) s =
      (if vis then (case r of Inl e \<Rightarrow> Inl e
                    | Inr t' \<Rightarrow> Inr (Some \<lparr>scrollregion = sr, drawn = Some t'\<rparr>))
       else Inr (Some \<lparr>scrollregion = sr, drawn = None\<rparr>))"
    unfolding show_image_def Let_def r_def vis_def option.case prod.case by blast
  then obtain sr where e: "show_image (Some (b0, b1, b2, b3)) (v0, v1, v2, v3) s =
      (if vis then (case r of Inl e \<Rightarrow> Inl e
                    | Inr t' \<Rightarrow> Inr (Some \<lparr>scrollregion = sr, drawn = Some t'\<rparr>))
       else Inr (Some \<lparr>scrollregion = sr, drawn = None\<rparr>))"
    by blast
  show ?thesis
  proof (cases vis)
    case False
    with e assms show ?thesis by auto
  next
    case True
    show ?thesis
    proof (cases r)
      case (Inl err)
      with e True assms show ?thesis by simp
    next
      case (Inr t')
      with e True assms have "t' = t" by auto
      with Inr show ?thesis by (simp add: r_def)
    qed
  qed
qed

text \<open>
  C2, as the claim states it, fails. At zoom factor 2 with the visible area (10,10)-(50,50),
  the bounds before rounding are (4.5,4.5)-(24.5,24.5) when (0,0)-(200,200) is the box that
  \<^verbatim>\<open>canvas.bbox\<close> returns, and (5,5)-(25,25) when it is that box after the one-pixel inset
  \<^verbatim>\<open>show_image\<close> applies; in neither reading are they (5,5)-(20,20).
\<close>

theorem show_image_bounds_counterexample:
  "des_bounds (show_image (Some (0, 0, 200, 200)) (10, 10, 50, 50)
      ((init_session 40 40)\<lparr>zoom_factor := 2\<rparr>)) = Some (9 / 2, 9 / 2, 49 / 2, 49 / 2) \<and>
   des_bounds (show_image (Some (- 1, - 1, 201, 201)) (10, 10, 50, 50)
      ((init_session 40 40)\<lparr>zoom_factor := 2\<rparr>)) = Some (5, 5, 25, 25) \<and>
   des_bounds (show_image (Some (0, 0, 200, 200)) (10, 10, 50, 50)
      ((init_session 40 40)\<lparr>zoom_factor := 2\<rparr>)) \<noteq> Some (5, 5, 20, 20) \<and>
   des_bounds (show_image (Some (- 1, - 1, 201, 201)) (10, 10, 50, 50)
      ((init_session 40 40)\<lparr>zoom_factor := 2\<rparr>)) \<noteq> Some (5, 5, 20, 20)"
  by (simp add: show_image_def image_tile_def des_bounds_def init_session_def trunc_def py_ceil_def
      Let_def)

text \<open>
  C2, amended. Whenever \<^verbatim>\<open>show_image\<close> draws a tile, its bounds before rounding are the
  corners of the intersection of the visible area with the image box (the box of
  \<^verbatim>\<open>canvas.bbox\<close> drawn in by one pixel on every side), measured from the top-left corner
  of the image box and divided by the zoom factor. At zoom factor 2, with the visible
  area (10,10)-(50,50) and the image box (0,0)-(200,200), they are (5,5)-(25,25).
\<close>

theorem show_image_bounds:
  "(show_image (Some (b0, b1, b2, b3)) (v0, v1, v2, v3) s = Inr (Some rd) \<and>
    drawn rd = Some t \<longrightarrow>
      des_x1 t = (max (of_int (b0 + 1)) v0 - of_int (b0 + 1)) / zoom_factor s \<and>
      des_y1 t = (max (of_int (b1 + 1)) v1 - of_int (b1 + 1)) / zoom_factor s \<and>
      des_x2 t = (min (of_int (b2 - 1)) v2 - of_int (b0 + 1)) / zoom_factor s \<and>
      des_y2 t = (min (of_int (b3 - 1)) v3 - of_int (b1 + 1)) / zoom_factor s) \<and>
   des_bounds (show_image (Some (- 1, - 1, 201, 201)) (10, 10, 50, 50)
      ((init_session 40 40)\<lparr>zoom_factor := 2\<rparr>)) = Some (5, 5, 25, 25)"
proof (intro conjI impI)
  assume a: "show_image (Some (b0, b1, b2, b3)) (v0, v1, v2, v3) s = Inr (Some rd) \<and>
    drawn rd = Some t"
  have m1: "max (v0 - of_int (b0 + 1)) 0 = max (of_int (b0 + 1)) v0 - (of_int (b0 + 1) :: rat)"
    by (simp add: max_def)
  have m2: "max (v1 - of_int (b1 + 1)) 0 = max (of_int (b1 + 1)) v1 - (of_int (b1 + 1) :: rat)"
    by (simp add: max_def)
  have m3: "min v2 (of_int (b2 - 1)) = min (of_int (b2 - 1) :: rat) v2"
    by (simp add: min.commute)
  have m4: "min v3 (of_int (b3 - 1)) = min (of_int (b3 - 1) :: rat) v3"
    by (simp add: min.commute)
  from a have "image_tile (max (v0 - of_int (b0 + 1)) 0) (max (v1 - of_int (b1 + 1)) 0)
      (min v2 (of_int (b2 - 1)) - of_int (b0 + 1)) (min v3 (of_int (b3 - 1)) - of_int (b1 + 1))
      (zoom_factor s) (max v0 (of_int (b0 + 1)), max v1 (of_int (b1 + 1))) = Inr t"
    by (intro show_image_drawn [of b0 b1 b2 b3 v0 v1 v2 v3 s rd t]) simp_all
  note t = image_tile_bounds [OF this]
  show "des_x1 t = (max (of_int (b0 + 1)) v0 - of_int (b0 + 1)) / zoom_factor s"
    using t by (simp only: m1)
  show "des_y1 t = (max (of_int (b1 + 1)) v1 - of_int (b1 + 1)) / zoom_factor s"
    using t by (simp only: m2)
  show "des_x2 t = (min (of_int (b2 - 1)) v2 - of_int (b0 + 1)) / zoom_factor s"
    using t by (simp only: m3)
  show "des_y2 t = (min (of_int (b3 - 1)) v3 - of_int (b1 + 1)) / zoom_factor s"
    using t by (simp only: m4)
next
  show "des_bounds (show_image (Some (- 1, - 1, 201, 201)) (10, 10, 50, 50)
      ((init_session 40 40)\<lparr>zoom_factor := 2\<rparr>)) = Some (5, 5, 25, 25)"
    by (simp add: show_image_def image_tile_def des_bounds_def init_session_def trunc_def py_ceil_def
      Let_def)
qed

theorem show_image_bounds_witness:
  "show_image (Some (- 1, - 1, 201, 201)) (10, 10, 50, 50)
      ((init_session 40 40)\<lparr>zoom_factor := 2\<rparr>) =
     Inr (Some \<lparr>scrollregion = (0, 0, 200, 200),
       drawn = Some \<lparr>des_x1 = 5, des_y1 = 5, des_x2 = 25, des_y2 = 25,
         first_crop = (5, 5, 25, 25), resize_to = (40, 40),
         second_crop = (0, 0, 40, 40), placed_at = (10, 10)\<rparr>\<rparr>) \<and>
   (max (of_int (- 1 + 1)) 10 - of_int (- 1 + 1)) / zoom_factor
      ((init_session 40 40)\<lparr>zoom_factor := 2\<rparr>) = (5 :: rat) \<and>
   (min (of_int (201 - 1)) 50 - of_int (- 1 + 1)) / zoom_factor
      ((init_session 40 40)\<lparr>zoom_factor := 2\<rparr>) = (25 :: rat)"
  using show_image_bounds [of "- 1" "- 1" 201 201 10 10 50 50
      "(init_session 40 40)\<lparr>zoom_factor := 2\<rparr>"
      "\<lparr>scrollregion = (0, 0, 200, 200),
       drawn = Some \<lparr>des_x1 = 5, des_y1 = 5, des_x2 = 25, des_y2 = 25,
         first_crop = (5, 5, 25, 25), resize_to = (40, 40),
         second_crop = (0, 0, 40, 40), placed_at = (10, 10)\<rparr>\<rparr>"
      "\<lparr>des_x1 = 5, des_y1 = 5, des_x2 = 25, des_y2 = 25,
         first_crop = (5, 5, 25, 25), resize_to = (40, 40),
         second_crop = (0, 0, 40, 40), placed_at = (10, 10)\<rparr>"]
  by (simp add: show_image_def image_tile_def init_session_def trunc_def py_ceil_def Let_def)

section \<open>Plane entry outside the stack\<close>

lemma update_contrast_z_display_value:
  "z_display_value (snd (update_contrast s)) = z_display_value s"
  by (auto simp: update_contrast_def split: option.splits sum.splits)

lemma update_z_display_z_display_value:
  "z_display_value (snd (update_z_display s)) = z_display_value s"
  by (auto simp: update_z_display_def not_without_file_def Let_def
      update_contrast_z_display_value split: option.splits sum.splits)

lemma set_z_plane_number:
  assumes "val = PyInt n \<or> (val = PyStr t \<and> t \<noteq> [] \<and> py_int t = Some n) \<or>
    (val = PyStr [] \<and> n = 0)"
  shows "set_z_plane py_int val s =
    (let s1 = s\<lparr>z_display_value :=
                 (if max_plane s < n then max_plane s else if n < 0 then 0 else n)\<rparr>
     in case update_z_display s1 of
          (None, s2) \<Rightarrow> (Inr True, s2)
        | (Some e, s2) \<Rightarrow> if e = ValueError then (Inr False, s2) else (Inl e, s2))"
  using assms by (auto simp: set_z_plane_def Let_def)

lemma snd_set_z_plane_number:
  assumes "val = PyInt n \<or> (val = PyStr t \<and> t \<noteq> [] \<and> py_int t = Some n) \<or>
    (val = PyStr [] \<and> n = 0)"
  shows "snd (set_z_plane py_int val s) =
    snd (update_z_display (s\<lparr>z_display_value :=
           (if max_plane s < n then max_plane s else if n < 0 then 0 else n)\<rparr>))"
  unfolding set_z_plane_number [where py_int = py_int and t = t, OF assms] Let_def
  by (simp split: prod.splits option.splits)

lemma ascii_int_99: "ascii_int ''99'' = Some 99"
  by (simp add: ascii_int_def strip_def is_space_def unsigned_value_def digit_of_def)

lemma ascii_int_minus_3: "ascii_int ''-3'' = Some (- 3)"
  by (simp add: ascii_int_def strip_def is_space_def unsigned_value_def digit_of_def)

lemma ascii_int_1x: "ascii_int ''1x'' = None"
  by (simp add: ascii_int_def strip_def is_space_def unsigned_value_def digit_of_def)

text \<open>
  C6, as the claim states it, fails: with planes 0..10 and plane 5 selected, the entry
  text 99 is accepted (the validation returns \<^verbatim>\<open>True\<close>) and the selector and the plane
  shown move to 10; the text -3 moves them to 0. Neither keeps the previous value 5.
\<close>

theorem set_z_plane_counterexample:
  "z_display_value ((init_session 500 500)\<lparr>file' := Some ''s.tif'', max_plane := 10,
        z_display_value := 5, displayed_plane := 5, reader := Some (ramp_reader 11)\<rparr>) = 5 \<and>
   fst (set_z_plane ascii_int (PyStr ''99'')
     ((init_session 500 500)\<lparr>file' := Some ''s.tif'', max_plane := 10,
        z_display_value := 5, displayed_plane := 5, reader := Some (ramp_reader 11)\<rparr>))
     = Inr True \<and>
   z_display_value (snd (set_z_plane ascii_int (PyStr ''99'')
     ((init_session 500 500)\<lparr>file' := Some ''s.tif'', max_plane := 10,
        z_display_value := 5, displayed_plane := 5, reader := Some (ramp_reader 11)\<rparr>)))
     = 10 \<and>
   displayed_plane (snd (set_z_plane ascii_int (PyStr ''99'')
     ((init_session 500 500)\<lparr>file' := Some ''s.tif'', max_plane := 10,
        z_display_value := 5, displayed_plane := 5, reader := Some (ramp_reader 11)\<rparr>)))
     = 10 \<and>
   fst (set_z_plane ascii_int (PyStr ''-3'')
     ((init_session 500 500)\<lparr>file' := Some ''s.tif'', max_plane := 10,
        z_display_value := 5, displayed_plane := 5, reader := Some (ramp_reader 11)\<rparr>))
     = Inr True \<and>
   z_display_value (snd (set_z_plane ascii_int (PyStr ''-3'')
     ((init_session 500 500)\<lparr>file' := Some ''s.tif'', max_plane := 10,
        z_display_value := 5, displayed_plane := 5, reader := Some (ramp_reader 11)\<rparr>)))
     = 0"
  by (simp add: set_z_plane_def update_z_display_def not_without_file_def update_contrast_def
      rescale_data_def ramp_reader_def init_session_def ascii_int_99 ascii_int_minus_3
      fromarray_def Let_def)

text \<open>
  C6, amended. Numeric input whose integer value \<open>n\<close> lies outside \<open>0..max_plane\<close>,
  whether typed into the entry or sent by the slider, is clamped: the plane selector is
  set to \<open>max_plane\<close> when \<open>n\<close> is above it and to 0 when \<open>n\<close> is negative, and
  \<^verbatim>\<open>set_z_plane\<close> returns \<^verbatim>\<open>True\<close> whenever showing that plane raises nothing. The empty
  text is taken as the number 0. Any other entry text for which \<^verbatim>\<open>int\<close> raises
  \<^verbatim>\<open>ValueError\<close> is rejected: \<^verbatim>\<open>set_z_plane\<close> returns \<^verbatim>\<open>False\<close>, no field changes and no
  exception leaves it. This holds whatever \<^verbatim>\<open>int\<close> accepts as a number.
\<close>

theorem set_z_plane_clamps:
  "((val = PyInt n \<or> (val = PyStr t \<and> t \<noteq> [] \<and> py_int t = Some n)) \<and>
    (n < 0 \<or> max_plane s < n) \<longrightarrow>
      z_display_value (snd (set_z_plane py_int val s)) =
        (if max_plane s < n then max_plane s else 0) \<and>
      (fst (update_z_display
          (s\<lparr>z_display_value := (if max_plane s < n then max_plane s else 0)\<rparr>)) = None \<longrightarrow>
        fst (set_z_plane py_int val s) = Inr True)) \<and>
   set_z_plane py_int (PyStr []) s = set_z_plane py_int (PyInt 0) s \<and>
   (0 \<le> max_plane s \<longrightarrow> z_display_value (snd (set_z_plane py_int (PyStr []) s)) = 0) \<and>
   (t \<noteq> [] \<and> py_int t = None \<longrightarrow> set_z_plane py_int (PyStr t) s = (Inr False, s))"
proof (intro conjI impI)
  assume a: "(val = PyInt n \<or> (val = PyStr t \<and> t \<noteq> [] \<and> py_int t = Some n)) \<and>
    (n < 0 \<or> max_plane s < n)"
  then have v: "val = PyInt n \<or> (val = PyStr t \<and> t \<noteq> [] \<and> py_int t = Some n) \<or>
    (val = PyStr [] \<and> n = 0)" by blast
  from a have c: "(if max_plane s < n then max_plane s else if n < 0 then 0 else n) =
      (if max_plane s < n then max_plane s else 0)"
    by auto
  show "z_display_value (snd (set_z_plane py_int val s)) =
      (if max_plane s < n then max_plane s else 0)"
    unfolding snd_set_z_plane_number [where py_int = py_int and t = t, OF v] c
    by (simp add: update_z_display_z_display_value)
  assume "fst (update_z_display
      (s\<lparr>z_display_value := (if max_plane s < n then max_plane s else 0)\<rparr>)) = None"
  then show "fst (set_z_plane py_int val s) = Inr True"
    unfolding set_z_plane_number [where py_int = py_int and t = t, OF v] c Let_def
    by (auto split: prod.splits)
next
  show "set_z_plane py_int (PyStr []) s = set_z_plane py_int (PyInt 0) s"
    by (simp add: set_z_plane_def)
next
  assume m: "0 \<le> max_plane s"
  have v: "PyStr [] = PyInt 0 \<or> (PyStr [] = PyStr t \<and> t \<noteq> [] \<and> py_int t = Some 0) \<or>
    (PyStr [] = PyStr [] \<and> (0 :: int) = 0)" by simp
  show "z_display_value (snd (set_z_plane py_int (PyStr []) s)) = 0"
    unfolding snd_set_z_plane_number [where py_int = py_int and t = t, OF v] using m
    by (simp add: update_z_display_z_display_value)
next
  assume "t \<noteq> [] \<and> py_int t = None"
  then show "set_z_plane py_int (PyStr t) s = (Inr False, s)"
    by (simp add: set_z_plane_def)
qed

theorem set_z_plane_clamps_witness:
  "ascii_int ''99'' = Some 99 \<and>
   max_plane ((init_session 500 500)\<lparr>file' := Some ''s.tif'', max_plane := 10,
        z_display_value := 5, displayed_plane := 5, reader := Some (ramp_reader 11)\<rparr>) < 99 \<and>
   z_display_value (snd (set_z_plane ascii_int (PyStr ''99'')
     ((init_session 500 500)\<lparr>file' := Some ''s.tif'', max_plane := 10,
        z_display_value := 5, displayed_plane := 5, reader := Some (ramp_reader 11)\<rparr>)))
     = 10 \<and>
   fst (set_z_plane ascii_int (PyStr ''99'')
     ((init_session 500 500)\<lparr>file' := Some ''s.tif'', max_plane := 10,
        z_display_value := 5, displayed_plane := 5, reader := Some (ramp_reader 11)\<rparr>))
     = Inr True \<and>
   z_display_value (snd (set_z_plane ascii_int (PyStr [])
     ((init_session 500 500)\<lparr>file' := Some ''s.tif'', max_plane := 10,
        z_display_value := 5, displayed_plane := 5, reader := Some (ramp_reader 11)\<rparr>)))
     = 0 \<and>
   ascii_int ''1x'' = None \<and>
   set_z_plane ascii_int (PyStr ''1x'')
     ((init_session 500 500)\<lparr>file' := Some ''s.tif'', max_plane := 10,
        z_display_value := 5, displayed_plane := 5, reader := Some (ramp_reader 11)\<rparr>) =
     (Inr False, ((init_session 500 500)\<lparr>file' := Some ''s.tif'', max_plane := 10,
        z_display_value := 5, displayed_plane := 5, reader := Some (ramp_reader 11)\<rparr>))"
  using set_z_plane_clamps [of "PyStr ''99''" 99 "''99''" ascii_int
      "((init_session 500 500)\<lparr>file' := Some ''s.tif'', max_plane := 10,
        z_display_value := 5, displayed_plane := 5, reader := Some (ramp_reader 11)\<rparr>)"]
    set_z_plane_clamps [of "PyStr ''1x''" 0 "''1x''" ascii_int
      "((init_session 500 500)\<lparr>file' := Some ''s.tif'', max_plane := 10,
        z_display_value := 5, displayed_plane := 5, reader := Some (ramp_reader 11)\<rparr>)"]
  by (simp add: update_z_display_def not_without_file_def update_contrast_def
      rescale_data_def ramp_reader_def init_session_def ascii_int_99 ascii_int_1x
      fromarray_def Let_def)

section \<open>Rebuilding the file series\<close>

lemma index_of_None: "index_of xs y = None \<longleftrightarrow> y \<notin> set xs"
  by (induction xs) auto

lemma index_of_Some:
  "index_of xs y = Some i \<Longrightarrow> i < length xs \<and> xs ! i = y \<and> (\<forall>j<i. xs ! j \<noteq> y)"
proof (induction xs arbitrary: i)
  case Nil
  then show ?case by simp
next
  case (Cons x xs)
  show ?case
  proof (cases "x = y")
    case True
    with Cons.prems show ?thesis by simp
  next
    case False
    with Cons.prems obtain k where k: "index_of xs y = Some k" "i = Suc k" by auto
    from Cons.IH [OF k(1)] have ih: "k < length xs" "xs ! k = y" "\<forall>j<k. xs ! j \<noteq> y"
      by simp_all
    have "\<forall>j<Suc k. (x # xs) ! j \<noteq> y"
    proof (intro allI impI)
      fix j assume "j < Suc k"
      then show "(x # xs) ! j \<noteq> y" using False ih(3) by (cases j) simp_all
    qed
    with ih k(2) show ?thesis by simp
  qed
qed

lemma ext_b: "lower (snd (splitext ''b.PNG'')) = ''.png''"
  by (simp add: splitext_def lower_def lower_char_def Let_def)

lemma ext_notes: "lower (snd (splitext ''notes.txt'')) = ''.txt''"
  by (simp add: splitext_def lower_def lower_char_def Let_def)

lemma ext_a: "lower (snd (splitext ''a.png'')) = ''.png''"
  by (simp add: splitext_def lower_def lower_char_def Let_def)

lemma supported_png: "''.png'' \<in> SUPPORTED_EXTENSIONS"
  by (simp add: SUPPORTED_EXTENSIONS_def)

lemma unsupported_txt: "''.txt'' \<notin> SUPPORTED_EXTENSIONS"
  by (simp add: SUPPORTED_EXTENSIONS_def)

lemma dirname_a: "posix_dirname ''/d/a.png'' = ''/d''"
  by (simp add: posix_dirname_def Let_def)

lemma join_b: "posix_join ''/d'' ''b.PNG'' = ''/d/b.PNG''"
  by (simp add: posix_join_def)

lemma join_a: "posix_join ''/d'' ''a.png'' = ''/d/a.png''"
  by (simp add: posix_join_def)

lemma names_b_notes:
  "filter (\<lambda>n. lower (snd (splitext n)) \<in> SUPPORTED_EXTENSIONS) [''b.PNG'', ''notes.txt''] =
   [''b.PNG'']"
  by (simp add: ext_b ext_notes supported_png unsupported_txt)

lemma names_b_notes_a:
  "filter (\<lambda>n. lower (snd (splitext n)) \<in> SUPPORTED_EXTENSIONS)
     [''b.PNG'', ''notes.txt'', ''a.png''] = [''b.PNG'', ''a.png'']"
  by (simp add: ext_b ext_notes ext_a supported_png unsupported_txt)

lemma make_file_list_listed:
  assumes "file' s = Some f"
    and "listdir os (dirname os (abspath os f)) = Inr names"
  shows "make_file_list os s =
    (case index_of (map (\<lambda>n. normpath os (join os (dirname os (abspath os f)) n))
           (filter (\<lambda>n. lower (snd (splitext n)) \<in> SUPPORTED_EXTENSIONS) names)) f of
       None \<Rightarrow> (Some ValueError,
         s\<lparr>file_list := map (\<lambda>n. normpath os (join os (dirname os (abspath os f)) n))
           (filter (\<lambda>n. lower (snd (splitext n)) \<in> SUPPORTED_EXTENSIONS) names)\<rparr>)
     | Some i \<Rightarrow> (None,
         s\<lparr>file_list := map (\<lambda>n. normpath os (join os (dirname os (abspath os f)) n))
           (filter (\<lambda>n. lower (snd (splitext n)) \<in> SUPPORTED_EXTENSIONS) names),
           current_index := int i\<rparr>))"
  using assms by (simp add: make_file_list_def Let_def)

text \<open>
  C7, as the claim states it, fails: with the current file \<^verbatim>\<open>/d/a.png\<close> gone from a
  directory that still holds \<^verbatim>\<open>b.PNG\<close> and \<^verbatim>\<open>notes.txt\<close>, the rebuild raises
  \<^verbatim>\<open>ValueError\<close> and leaves the series at the one remaining image, not empty.
\<close>

theorem make_file_list_counterexample:
  "fst (make_file_list (directory_d [''b.PNG'', ''notes.txt''])
      ((init_session 500 500)\<lparr>file' := Some ''/d/a.png''\<rparr>)) = Some ValueError \<and>
   file_list (snd (make_file_list (directory_d [''b.PNG'', ''notes.txt''])
      ((init_session 500 500)\<lparr>file' := Some ''/d/a.png''\<rparr>))) = [''/d/b.PNG'']"
proof -
  let ?s = "(init_session 500 500)\<lparr>file' := Some ''/d/a.png''\<rparr>"
  let ?os = "directory_d [''b.PNG'', ''notes.txt'']"
  have f: "file' ?s = Some ''/d/a.png''" by simp
  have l: "listdir ?os (dirname ?os (abspath ?os ''/d/a.png'')) = Inr [''b.PNG'', ''notes.txt'']"
    by (simp add: directory_d_def dirname_a)
  have m: "map (\<lambda>n. normpath ?os (join ?os (dirname ?os (abspath ?os ''/d/a.png'')) n))
        (filter (\<lambda>n. lower (snd (splitext n)) \<in> SUPPORTED_EXTENSIONS)
           [''b.PNG'', ''notes.txt'']) = [''/d/b.PNG'']"
    unfolding names_b_notes by (simp add: directory_d_def dirname_a join_b)
  have "make_file_list ?os ?s = (Some ValueError, ?s\<lparr>file_list := [''/d/b.PNG'']\<rparr>)"
    unfolding make_file_list_listed [OF f l] m by simp
  then show ?thesis by simp
qed

text \<open>
  C7, amended. When the directory of the current file can be listed, the rebuild stores as
  the series exactly the joined and normalized paths of the names whose extension, in
  lower case, is in the supported set, in the order of the listing. When the current
  file's path is among them, the current index becomes its first position. When it is
  not, the rebuild raises \<^verbatim>\<open>ValueError\<close> after the series is stored, and the current
  index keeps its old value.
\<close>

theorem make_file_list_rebuilds:
  assumes "file' s = Some f"
    and "listdir os (dirname os (abspath os f)) = Inr names"
    and "series = map (\<lambda>n. normpath os (join os (dirname os (abspath os f)) n))
           (filter (\<lambda>n. lower (snd (splitext n)) \<in> SUPPORTED_EXTENSIONS) names)"
  shows "(f \<notin> set series \<longrightarrow>
            make_file_list os s = (Some ValueError, s\<lparr>file_list := series\<rparr>)) \<and>
         (f \<in> set series \<longrightarrow>
            (\<exists>i. make_file_list os s =
                   (None, s\<lparr>file_list := series, current_index := int i\<rparr>) \<and>
                 i < length series \<and> series ! i = f \<and> (\<forall>j<i. series ! j \<noteq> f)))"
proof (intro conjI impI)
  assume "f \<notin> set series"
  then have "index_of series f = None" by (simp add: index_of_None)
  then show "make_file_list os s = (Some ValueError, s\<lparr>file_list := series\<rparr>)"
    unfolding make_file_list_listed [OF assms(1,2)] assms(3) [symmetric] by simp
next
  assume "f \<in> set series"
  then obtain i where i: "index_of series f = Some i"
    using index_of_None [of series f] by (cases "index_of series f") auto
  then have "make_file_list os s = (None, s\<lparr>file_list := series, current_index := int i\<rparr>)"
    unfolding make_file_list_listed [OF assms(1,2)] assms(3) [symmetric] by simp
  with index_of_Some [OF i]
  show "\<exists>i. make_file_list os s =
          (None, s\<lparr>file_list := series, current_index := int i\<rparr>) \<and>
        i < length series \<and> series ! i = f \<and> (\<forall>j<i. series ! j \<noteq> f)"
    by blast
qed

theorem make_file_list_rebuilds_witness:
  "make_file_list (directory_d [''b.PNG'', ''notes.txt'', ''a.png''])
      ((init_session 500 500)\<lparr>file' := Some ''/d/a.png''\<rparr>) =
     (None, (init_session 500 500)\<lparr>file' := Some ''/d/a.png'',
        file_list := [''/d/b.PNG'', ''/d/a.png''], current_index := 1\<rparr>) \<and>
   make_file_list (directory_d [''b.PNG'', ''notes.txt''])
      ((init_session 500 500)\<lparr>file' := Some ''/d/a.png''\<rparr>) =
     (Some ValueError, (init_session 500 500)\<lparr>file' := Some ''/d/a.png'',
        file_list := [''/d/b.PNG'']\<rparr>)"
proof
  let ?s = "(init_session 500 500)\<lparr>file' := Some ''/d/a.png''\<rparr>"
  let ?os = "directory_d [''b.PNG'', ''notes.txt'', ''a.png'']"
  have f: "file' ?s = Some ''/d/a.png''" by simp
  have l: "listdir ?os (dirname ?os (abspath ?os ''/d/a.png'')) =
      Inr [''b.PNG'', ''notes.txt'', ''a.png'']"
    by (simp add: directory_d_def dirname_a)
  have m: "[''/d/b.PNG'', ''/d/a.png''] =
      map (\<lambda>n. normpath ?os (join ?os (dirname ?os (abspath ?os ''/d/a.png'')) n))
        (filter (\<lambda>n. lower (snd (splitext n)) \<in> SUPPORTED_EXTENSIONS)
           [''b.PNG'', ''notes.txt'', ''a.png''])"
    unfolding names_b_notes_a by (simp add: directory_d_def dirname_a join_a join_b)
  from make_file_list_rebuilds [OF f l m]
  obtain i where i: "make_file_list ?os ?s =
      (None, ?s\<lparr>file_list := [''/d/b.PNG'', ''/d/a.png''], current_index := int i\<rparr>)"
    "i < length [''/d/b.PNG'', ''/d/a.png'']" "[''/d/b.PNG'', ''/d/a.png''] ! i = ''/d/a.png''"
    by auto
  from i(2,3) have "i = 1" by (cases i) simp_all
  with i(1) show "make_file_list ?os ?s =
     (None, ?s\<lparr>file_list := [''/d/b.PNG'', ''/d/a.png''], current_index := 1\<rparr>)"
    by simp
next
  let ?s = "(init_session 500 500)\<lparr>file' := Some ''/d/a.png''\<rparr>"
  let ?os = "directory_d [''b.PNG'', ''notes.txt'']"
  have f: "file' ?s = Some ''/d/a.png''" by simp
  have l: "listdir ?os (dirname ?os (abspath ?os ''/d/a.png'')) = Inr [''b.PNG'', ''notes.txt'']"
    by (simp add: directory_d_def dirname_a)
  have m: "[''/d/b.PNG''] =
      map (\<lambda>n. normpath ?os (join ?os (dirname ?os (abspath ?os ''/d/a.png'')) n))
        (filter (\<lambda>n. lower (snd (splitext n)) \<in> SUPPORTED_EXTENSIONS)
           [''b.PNG'', ''notes.txt''])"
    unfolding names_b_notes by (simp add: directory_d_def dirname_a join_b)
  from make_file_list_rebuilds [OF f l m]
  show "make_file_list ?os ?s = (Some ValueError, ?s\<lparr>file_list := [''/d/b.PNG'']\<rparr>)"
    by simp
qed

section \<open>The fields written by the callbacks of the bounds and by the view methods\<close>

lemma levels_only_refl: "levels_only s s"
proof -
  have "s = s\<lparr>min_display_value := min_display_value s, max_display_value := max_display_value s,
      display_values_array := display_values_array s, displayed_image := displayed_image s\<rparr>"
    by simp
  then show ?thesis unfolding levels_only_def by blast
qed

lemma levels_only_trans:
  assumes "levels_only s t" and "levels_only t u"
  shows "levels_only s u"
proof -
  from assms(1) obtain mn mx a d where t: "t = s\<lparr>min_display_value := mn,
      max_display_value := mx, display_values_array := a, displayed_image := d\<rparr>"
    unfolding levels_only_def by blast
  from assms(2) obtain mn' mx' a' d' where u: "u = t\<lparr>min_display_value := mn',
      max_display_value := mx', display_values_array := a', displayed_image := d'\<rparr>"
    unfolding levels_only_def by blast
  have "u = s\<lparr>min_display_value := mn', max_display_value := mx',
      display_values_array := a', displayed_image := d'\<rparr>"
    unfolding u t by simp
  then show ?thesis unfolding levels_only_def by blast
qed

lemma levels_only_min: "levels_only s (s\<lparr>min_display_value := v\<rparr>)"
proof -
  have "s\<lparr>min_display_value := v\<rparr> = s\<lparr>min_display_value := v,
      max_display_value := max_display_value s,
      display_values_array := display_values_array s, displayed_image := displayed_image s\<rparr>"
    by simp
  then show ?thesis unfolding levels_only_def by blast
qed

lemma levels_only_max: "levels_only s (s\<lparr>max_display_value := v\<rparr>)"
proof -
  have "s\<lparr>max_display_value := v\<rparr> = s\<lparr>min_display_value := min_display_value s,
      max_display_value := v,
      display_values_array := display_values_array s, displayed_image := displayed_image s\<rparr>"
    by simp
  then show ?thesis unfolding levels_only_def by blast
qed

lemma levels_only_array: "levels_only s (s\<lparr>display_values_array := a\<rparr>)"
proof -
  have "s\<lparr>display_values_array := a\<rparr> = s\<lparr>min_display_value := min_display_value s,
      max_display_value := max_display_value s,
      display_values_array := a, displayed_image := displayed_image s\<rparr>"
    by simp
  then show ?thesis unfolding levels_only_def by blast
qed

lemma levels_only_image: "levels_only s (s\<lparr>displayed_image := d\<rparr>)"
proof -
  have "s\<lparr>displayed_image := d\<rparr> = s\<lparr>min_display_value := min_display_value s,
      max_display_value := max_display_value s,
      display_values_array := display_values_array s, displayed_image := d\<rparr>"
    by simp
  then show ?thesis unfolding levels_only_def by blast
qed

lemma update_contrast_levels_only: "levels_only s (snd (update_contrast s))"
  by (auto simp: update_contrast_def levels_only_refl levels_only_image
      split: option.splits sum.splits)

lemma store_display_values_levels_only: "levels_only s (snd (store_display_values s))"
proof (cases "display_popup s")
  case None
  then show ?thesis by (simp add: store_display_values_def levels_only_refl)
next
  case (Some p)
  have two: "levels_only s (s\<lparr>display_values_array := a, display_values_array := b\<rparr>)" for a b
    by (simp add: levels_only_array)
  from Some show ?thesis
    by (simp add: store_display_values_def Let_def levels_only_refl levels_only_array two)
qed

lemma finish_levels_only:
  "levels_only t (snd (case store_display_values t of
       (Some e, s3) \<Rightarrow> (Some e, s3)
     | (None, s3) \<Rightarrow> if c then update_contrast s3 else (None, s3)))"
proof (cases "store_display_values t")
  case (Pair r s3)
  have a: "levels_only t s3" using store_display_values_levels_only [of t] Pair by simp
  show ?thesis
  proof (cases r)
    case None
    with Pair a show ?thesis
      using levels_only_trans [OF a update_contrast_levels_only [of s3]] by simp
  next
    case (Some e)
    with Pair a show ?thesis by simp
  qed
qed

lemma update_min_display_body_levels_only:
  assumes "\<And>t. levels_only t (w t)"
  shows "levels_only s (snd (update_min_display_body w s))"
proof -
  define s1 where "s1 = (if min_display_value s = 255 then s\<lparr>min_display_value := 254\<rparr> else s)"
  define s2 where "s2 = (if min_display_value s \<ge> max_display_value s
      then w (s1\<lparr>max_display_value := min_display_value s + 1\<rparr>) else s1)"
  have a: "levels_only s s1" by (simp add: s1_def levels_only_refl levels_only_min)
  have "levels_only s1 s2"
    using levels_only_trans [OF levels_only_max assms]
    by (simp add: s2_def levels_only_refl)
  with a have b: "levels_only s s2" by (rule levels_only_trans)
  have "update_min_display_body w s =
      (case store_display_values s2 of
         (Some e, s3) \<Rightarrow> (Some e, s3)
       | (None, s3) \<Rightarrow> if \<not> min_display_value s \<ge> max_display_value s
           then update_contrast s3 else (None, s3))"
    by (simp add: update_min_display_body_def Let_def s1_def s2_def)
  with levels_only_trans [OF b finish_levels_only] show ?thesis by simp
qed

lemma update_max_display_body_levels_only:
  assumes "\<And>t. levels_only t (w t)"
  shows "levels_only s (snd (update_max_display_body w s))"
proof -
  define s1 where "s1 = (if max_display_value s = 0 then s\<lparr>max_display_value := 1\<rparr> else s)"
  define s2 where "s2 = (if min_display_value s \<ge> max_display_value s
      then w (s1\<lparr>min_display_value := max_display_value s - 1\<rparr>) else s1)"
  have a: "levels_only s s1" by (simp add: s1_def levels_only_refl levels_only_max)
  have "levels_only s1 s2"
    using levels_only_trans [OF levels_only_min assms]
    by (simp add: s2_def levels_only_refl)
  with a have b: "levels_only s s2" by (rule levels_only_trans)
  have "update_max_display_body w s =
      (case store_display_values s2 of
         (Some e, s3) \<Rightarrow> (Some e, s3)
       | (None, s3) \<Rightarrow> if \<not> min_display_value s \<ge> max_display_value s
           then update_contrast s3 else (None, s3))"
    by (simp add: update_max_display_body_def Let_def s1_def s2_def)
  with levels_only_trans [OF b finish_levels_only] show ?thesis by simp
qed

lemma set_min_display_value_levels_only: "levels_only s (set_min_display_value v s)"
proof -
  have "levels_only t (tk_callback (update_max_display_body (\<lambda>s'. s') t))" for t
    unfolding tk_callback_def
    by (rule update_max_display_body_levels_only) (rule levels_only_refl)
  then have "levels_only (s\<lparr>min_display_value := v\<rparr>)
      (snd (update_min_display (s\<lparr>min_display_value := v\<rparr>)))"
    unfolding update_min_display_def by (rule update_min_display_body_levels_only)
  with levels_only_min [of s v] show ?thesis
    unfolding set_min_display_value_def tk_callback_def by (rule levels_only_trans)
qed

lemma set_max_display_value_levels_only: "levels_only s (set_max_display_value v s)"
proof -
  have "levels_only t (tk_callback (update_min_display_body (\<lambda>s'. s') t))" for t
    unfolding tk_callback_def
    by (rule update_min_display_body_levels_only) (rule levels_only_refl)
  then have "levels_only (s\<lparr>max_display_value := v\<rparr>)
      (snd (update_max_display (s\<lparr>max_display_value := v\<rparr>)))"
    unfolding update_max_display_def by (rule update_max_display_body_levels_only)
  with levels_only_max [of s v] show ?thesis
    unfolding set_max_display_value_def tk_callback_def by (rule levels_only_trans)
qed

lemma levels_only_fields:
  assumes "levels_only s s'"
  shows "file' s' = file' s" "file_list s' = file_list s" "current_index s' = current_index s"
    "image_data s' = image_data s" "scaled_image_data s' = scaled_image_data s"
    "reader s' = reader s" "max_plane s' = max_plane s" "z_display_value s' = z_display_value s"
    "stack_ctrl_shown s' = stack_ctrl_shown s" "canvas_text s' = canvas_text s"
    "z_label_focus s' = z_label_focus s" "display_popup s' = display_popup s"
    "canvas_width s' = canvas_width s" "canvas_height s' = canvas_height s"
    "displayed_plane s' = displayed_plane s"
  using assms unfolding levels_only_def by auto

lemma view_only_fields:
  assumes "view_only s s'"
  shows "file' s' = file' s" "file_list s' = file_list s" "current_index s' = current_index s"
    "image_data s' = image_data s" "scaled_image_data s' = scaled_image_data s"
    "displayed_image s' = displayed_image s"
    "reader s' = reader s" "max_plane s' = max_plane s" "z_display_value s' = z_display_value s"
    "stack_ctrl_shown s' = stack_ctrl_shown s" "canvas_text s' = canvas_text s"
    "z_label_focus s' = z_label_focus s"
  using assms unfolding view_only_def by auto

lemma zoom_image_view_only: "view_only s (snd (zoom_image x y scale s))"
proof -
  have a: "view_only s s" unfolding view_only_def
    by (rule exI [of _ "zoom_factor s"], rule exI [of _ "zoomfit_pressed s"]) simp
  have b: "view_only s (s\<lparr>zoomfit_pressed := False\<rparr>)" unfolding view_only_def
    by (rule exI [of _ "zoom_factor s"], rule exI [of _ False]) simp
  show ?thesis
    by (simp add: zoom_image_def not_without_file_def a b split: option.splits)
qed

lemma fit_to_window_view_only: "view_only s (snd (fit_to_window s))"
proof -
  have a: "view_only s s" unfolding view_only_def
    by (rule exI [of _ "zoom_factor s"], rule exI [of _ "zoomfit_pressed s"]) simp
  have b: "view_only s (s\<lparr>zoom_factor := z, zoomfit_pressed := True\<rparr>)" for z
    unfolding view_only_def by blast
  have c: "view_only s (s\<lparr>zoom_factor := z, zoomfit_pressed := False, zoomfit_pressed := True\<rparr>)" for z
    unfolding view_only_def by (rule exI [of _ z], rule exI [of _ True]) simp
  show ?thesis
    by (simp add: fit_to_window_def zoom_image_def not_without_file_def Let_def a b c
        split: option.splits)
qed

lemma first_show_image_view_only: "view_only s (snd (first_show_image loading s))"
proof -
  have a: "view_only s s" unfolding view_only_def
    by (rule exI [of _ "zoom_factor s"], rule exI [of _ "zoomfit_pressed s"]) simp
  have b: "view_only s (s\<lparr>zoomfit_pressed := False, zoom_factor := 1\<rparr>)"
    unfolding view_only_def by (rule exI [of _ 1], rule exI [of _ False]) simp
  show ?thesis
    using fit_to_window_view_only [of s]
    by (simp add: first_show_image_def not_without_file_def a b split: option.splits)
qed

section \<open>What \<^verbatim>\<open>load_image\<close> writes\<close>

lemma load_image_try_nav:
  "file_list (snd (load_image_try io file s)) = file_list s \<and>
   current_index (snd (load_image_try io file s)) = current_index s \<and>
   z_label_focus (snd (load_image_try io file s)) = z_label_focus s"
  by (simp add: load_image_try_def Let_def split: sum.splits)

lemma reset_bounds_levels_only: "levels_only s (reset_bounds s)"
proof -
  define s1 where "s1 = (if min_display_value s \<noteq> 0 then set_min_display_value 0 s else s)"
  have a: "levels_only s s1"
    unfolding s1_def by (simp add: levels_only_refl set_min_display_value_levels_only)
  have b: "levels_only s1 (if max_display_value s1 \<noteq> 255 then set_max_display_value 255 s1 else s1)"
    by (simp add: levels_only_refl set_max_display_value_levels_only)
  have "reset_bounds s = (if max_display_value s1 \<noteq> 255 then set_max_display_value 255 s1 else s1)"
    unfolding reset_bounds_def s1_def Let_def ..
  with levels_only_trans [OF a b] show ?thesis by simp
qed

lemma switch_image_fields:
  "image_data (switch_image s) = image_data s"
  "scaled_image_data (switch_image s) = scaled_image_data s"
  "displayed_image (switch_image s) = displayed_image s"
  "file' (switch_image s) = file' s"
  "width (switch_image s) = width s"
  "height (switch_image s) = height s"
  "z_display_value (switch_image s) = z_display_value s"
  "max_plane (switch_image s) = max_plane s"
  "stack_ctrl_shown (switch_image s) = stack_ctrl_shown s"
  "reader (switch_image s) = reader s"
  "file_list (switch_image s) = file_list s"
  "current_index (switch_image s) = current_index s"
  "canvas_text (switch_image s) = canvas_text s"
  "z_label_focus (switch_image s) = z_label_focus s"
  "canvas_width (switch_image s) = canvas_width s"
  "canvas_height (switch_image s) = canvas_height s"
  by (simp_all add: switch_image_def split: option.splits)

text \<open>The state in which \<^verbatim>\<open>load_image\<close> calls \<^verbatim>\<open>first_show_image\<close>.\<close>

lemma load_image_finish_shown:
  assumes "image_data s = Some data" and "rescale_data data = Inr scaled"
    and "has_mode scaled"
  shows "\<exists>s5. load_image_finish file s = first_show_image True s5 \<and>
    image_data s5 = Some data \<and> scaled_image_data s5 = Some scaled \<and>
    displayed_image s5 = Some scaled \<and> file' s5 = Some file \<and>
    width s5 = fst (image_size scaled) \<and> height s5 = snd (image_size scaled) \<and>
    z_display_value s5 = z_display_value s \<and> max_plane s5 = max_plane s \<and>
    stack_ctrl_shown s5 = stack_ctrl_shown s \<and> reader s5 = reader s \<and>
    file_list s5 = file_list s \<and> current_index s5 = current_index s \<and>
    canvas_text s5 = canvas_text s \<and> z_label_focus s5 = z_label_focus s \<and>
    canvas_width s5 = canvas_width s \<and> canvas_height s5 = canvas_height s"
proof -
  note f = levels_only_fields [OF reset_bounds_levels_only [of s]]
  define s5 where "s5 = switch_image
     ((reset_bounds s)\<lparr>display_values_array := initial_display_values data,
        scaled_image_data := Some scaled, displayed_image := Some scaled,
        width := fst (image_size scaled), height := snd (image_size scaled),
        file' := Some file\<rparr>)"
  have e: "load_image_finish file s = first_show_image True s5"
    using assms f(4) by (simp add: load_image_finish_def Let_def s5_def fromarray_def)
  have p: "image_data s5 = Some data \<and> scaled_image_data s5 = Some scaled \<and>
    displayed_image s5 = Some scaled \<and> file' s5 = Some file \<and>
    width s5 = fst (image_size scaled) \<and> height s5 = snd (image_size scaled) \<and>
    z_display_value s5 = z_display_value s \<and> max_plane s5 = max_plane s \<and>
    stack_ctrl_shown s5 = stack_ctrl_shown s \<and> reader s5 = reader s \<and>
    file_list s5 = file_list s \<and> current_index s5 = current_index s \<and>
    canvas_text s5 = canvas_text s \<and> z_label_focus s5 = z_label_focus s \<and>
    canvas_width s5 = canvas_width s \<and> canvas_height s5 = canvas_height s"
    using assms f by (simp add: s5_def switch_image_fields)
  from e p show ?thesis by blast
qed

text \<open>The three ways in which \<^verbatim>\<open>load_image\<close> raises after its \<^verbatim>\<open>try\<close> block.\<close>

lemma load_image_finish_no_data:
  assumes "image_data s = None"
  shows "load_image_finish file s = (Some AttributeError, reset_bounds s)"
  using assms levels_only_fields(4) [OF reset_bounds_levels_only [of s]]
  by (simp add: load_image_finish_def Let_def)

lemma load_image_finish_no_scale:
  assumes "image_data s = Some data" and "rescale_data data = Inl e"
  shows "load_image_finish file s =
    (Some e, (reset_bounds s)\<lparr>display_values_array := initial_display_values data\<rparr>)"
  using assms levels_only_fields(4) [OF reset_bounds_levels_only [of s]]
  by (simp add: load_image_finish_def Let_def)

lemma load_image_finish_no_mode:
  assumes "image_data s = Some data" and "rescale_data data = Inr scaled"
    and "\<not> has_mode scaled"
  shows "load_image_finish file s =
    (Some TypeError, (reset_bounds s)\<lparr>display_values_array := initial_display_values data,
       scaled_image_data := Some scaled\<rparr>)"
  using assms levels_only_fields(4) [OF reset_bounds_levels_only [of s]]
  by (simp add: load_image_finish_def Let_def fromarray_def)

lemma load_image_finish_nav:
  "file_list (snd (load_image_finish file s)) = file_list s \<and>
   current_index (snd (load_image_finish file s)) = current_index s \<and>
   z_label_focus (snd (load_image_finish file s)) = z_label_focus s"
proof -
  note f = levels_only_fields [OF reset_bounds_levels_only [of s]]
  show ?thesis
  proof (cases "image_data s")
    case None
    from load_image_finish_no_data [OF None] f show ?thesis by simp
  next
    case (Some data)
    show ?thesis
    proof (cases "rescale_data data")
      case (Inl e)
      from load_image_finish_no_scale [OF Some Inl] f show ?thesis by simp
    next
      case (Inr scaled)
      show ?thesis
      proof (cases "has_mode scaled")
        case False
        from load_image_finish_no_mode [OF Some Inr False] f show ?thesis by simp
      next
        case True
        from load_image_finish_shown [OF Some Inr True]
        obtain s5 where s5: "load_image_finish file s = first_show_image True s5"
          "file_list s5 = file_list s" "current_index s5 = current_index s"
          "z_label_focus s5 = z_label_focus s"
          by blast
        with view_only_fields(2,3,12) [OF first_show_image_view_only [of s5 True]]
        show ?thesis by simp
      qed
    qed
  qed
qed

lemma load_image_nav:
  "file_list (snd (load_image io os file s)) = file_list s \<and>
   current_index (snd (load_image io os file s)) = current_index s \<and>
   \<not> z_label_focus (snd (load_image io os file s))"
proof -
  define s0 where "s0 = s\<lparr>canvas_text := None, z_label_focus := False\<rparr>"
  obtain r s1 where t: "load_image_try io (normpath os file) s0 = (r, s1)"
    by (cases "load_image_try io (normpath os file) s0")
  with load_image_try_nav [of io "normpath os file" s0]
  have n: "file_list s1 = file_list s" "current_index s1 = current_index s"
    "\<not> z_label_focus s1"
    by (simp_all add: s0_def)
  show ?thesis
  proof (cases r)
    case None
    with t have "load_image io os file s = load_image_finish (normpath os file) s1"
      by (simp add: load_image_def Let_def s0_def)
    with load_image_finish_nav [of "normpath os file" s1] n show ?thesis by simp
  next
    case (Some e)
    with t have "load_image io os file s =
        (None, s1\<lparr>canvas_text := Some ''[Unable to open file]'', reader := None, file' := None\<rparr>)"
      by (simp add: load_image_def Let_def s0_def)
    with n show ?thesis by simp
  qed
qed

section \<open>The plane shown after loading\<close>

lemma load_image_try_planes:
  assumes "choose_reader io file = Inr r" and "get_length r = Inr n"
    and "get_data r (if 0 < n - 1 then (n - 1) div 2 else 0) = Inr data"
  shows "load_image_try io file s =
    (None, if 0 < n - 1
       then s\<lparr>reader := Some r, max_plane := n - 1, image_data := Some data,
              z_display_value := (n - 1) div 2, stack_ctrl_shown := True\<rparr>
       else s\<lparr>reader := Some r, max_plane := n - 1, image_data := Some data,
              stack_ctrl_shown := False\<rparr>)"
proof (cases "0 < n - 1")
  case True
  with assms show ?thesis by (simp add: load_image_try_def Let_def)
next
  case False
  with assms show ?thesis by (simp add: load_image_try_def Let_def)
qed

lemma load_image_loaded:
  assumes "choose_reader io (normpath os f) = Inr r" and "get_length r = Inr n"
    and "get_data r (if 0 < n - 1 then (n - 1) div 2 else 0) = Inr data"
    and "rescale_data data = Inr scaled" and "has_mode scaled"
  shows "max_plane (snd (load_image io os f s)) = n - 1 \<and>
    image_data (snd (load_image io os f s)) = Some data \<and>
    scaled_image_data (snd (load_image io os f s)) = Some scaled \<and>
    displayed_image (snd (load_image io os f s)) = Some scaled \<and>
    file' (snd (load_image io os f s)) = Some (normpath os f) \<and>
    z_display_value (snd (load_image io os f s)) =
      (if 0 < n - 1 then (n - 1) div 2 else z_display_value s) \<and>
    stack_ctrl_shown (snd (load_image io os f s)) = (0 < n - 1) \<and>
    reader (snd (load_image io os f s)) = Some r \<and>
    (\<exists>s5. load_image io os f s = first_show_image True s5 \<and>
       image_data s5 = Some data \<and> displayed_image s5 = Some scaled \<and>
       file' s5 = Some (normpath os f))"
proof -
  define s1 where "s1 = (if 0 < n - 1
       then s\<lparr>canvas_text := None, z_label_focus := False, reader := Some r,
              max_plane := n - 1, image_data := Some data,
              z_display_value := (n - 1) div 2, stack_ctrl_shown := True\<rparr>
       else s\<lparr>canvas_text := None, z_label_focus := False, reader := Some r,
              max_plane := n - 1, image_data := Some data, stack_ctrl_shown := False\<rparr>)"
  have t: "load_image_try io (normpath os f) (s\<lparr>canvas_text := None, z_label_focus := False\<rparr>) =
      (None, s1)"
    unfolding load_image_try_planes [OF assms(1-3)] s1_def by simp
  then have l: "load_image io os f s = load_image_finish (normpath os f) s1"
    by (simp add: load_image_def Let_def)
  have i: "image_data s1 = Some data" by (simp add: s1_def)
  from load_image_finish_shown [OF i assms(4,5)]
  obtain s5 where s5: "load_image_finish (normpath os f) s1 = first_show_image True s5"
    "image_data s5 = Some data" "scaled_image_data s5 = Some scaled"
    "displayed_image s5 = Some scaled" "file' s5 = Some (normpath os f)"
    "z_display_value s5 = z_display_value s1" "max_plane s5 = max_plane s1"
    "stack_ctrl_shown s5 = stack_ctrl_shown s1" "reader s5 = reader s1"
    by blast
  note v = view_only_fields [OF first_show_image_view_only [of s5 True]]
  have s1: "max_plane s1 = n - 1"
    "z_display_value s1 = (if 0 < n - 1 then (n - 1) div 2 else z_display_value s)"
    "stack_ctrl_shown s1 = (0 < n - 1)" "reader s1 = Some r"
    by (simp_all add: s1_def)
  have "\<exists>s5. load_image io os f s = first_show_image True s5 \<and>
       image_data s5 = Some data \<and> displayed_image s5 = Some scaled \<and>
       file' s5 = Some (normpath os f)"
    using l s5(1,2,4,5) by auto
  with s1 l s5 v show ?thesis by simp
qed

text \<open>A load whose image the canvas holds ends without an exception and with the file set.\<close>

lemma load_image_returns:
  assumes "choose_reader io (normpath os f) = Inr r" and "get_length r = Inr n"
    and "get_data r (if 0 < n - 1 then (n - 1) div 2 else 0) = Inr data"
    and "rescale_data data = Inr scaled" and "has_mode scaled"
    and "normpath os f \<noteq> []"
    and "fst (image_size scaled) \<le> canvas_width s"
    and "snd (image_size scaled) \<le> canvas_height s"
  shows "fst (load_image io os f s) = None \<and> loaded (snd (load_image io os f s))"
proof -
  define s1 where "s1 = (if 0 < n - 1
       then s\<lparr>canvas_text := None, z_label_focus := False, reader := Some r,
              max_plane := n - 1, image_data := Some data,
              z_display_value := (n - 1) div 2, stack_ctrl_shown := True\<rparr>
       else s\<lparr>canvas_text := None, z_label_focus := False, reader := Some r,
              max_plane := n - 1, image_data := Some data, stack_ctrl_shown := False\<rparr>)"
  have t: "load_image_try io (normpath os f) (s\<lparr>canvas_text := None, z_label_focus := False\<rparr>) =
      (None, s1)"
    unfolding load_image_try_planes [OF assms(1-3)] s1_def by simp
  then have l: "load_image io os f s = load_image_finish (normpath os f) s1"
    by (simp add: load_image_def Let_def)
  have i: "image_data s1 = Some data" by (simp add: s1_def)
  have c: "canvas_width s1 = canvas_width s" "canvas_height s1 = canvas_height s"
    by (simp_all add: s1_def)
  from load_image_finish_shown [OF i assms(4,5)]
  obtain s5 where s5: "load_image_finish (normpath os f) s1 = first_show_image True s5"
    "file' s5 = Some (normpath os f)"
    "width s5 = fst (image_size scaled)" "height s5 = snd (image_size scaled)"
    "canvas_width s5 = canvas_width s1" "canvas_height s5 = canvas_height s1"
    by blast
  have "first_show_image True s5 = (None, s5\<lparr>zoomfit_pressed := False, zoom_factor := 1\<rparr>)"
    using s5(2-6) c assms(6-8) by (simp add: first_show_image_def not_without_file_def)
  with l s5(1,2) assms(6) show ?thesis by (simp add: loaded_def)
qed

lemma load_image_try_ok:
  assumes "load_image_try io file s = (None, s1)"
  shows "\<exists>r n data. choose_reader io file = Inr r \<and> get_length r = Inr n \<and>
     get_data r (if 0 < n - 1 then (n - 1) div 2 else 0) = Inr data"
  using assms by (auto simp: load_image_try_def Let_def split: sum.splits if_splits)

lemma load_image_try_data:
  assumes "load_image_try io file s = (None, s1)" and "choose_reader io file = Inr r"
    and "get_length r = Inr n"
    and "get_data r (if 0 < n - 1 then (n - 1) div 2 else 0) = Inr data"
  shows "image_data s1 = Some data"
  using assms(1) unfolding load_image_try_planes [OF assms(2-4)]
  by (auto split: if_splits)

text \<open>
  A load that returns normally and leaves a file set has passed every step: the reader was
  chosen, it told its length and delivered the plane asked for, the plane was rescaled and
  \<^verbatim>\<open>Image.fromarray\<close> took it.
\<close>

lemma load_image_success:
  assumes "fst (load_image io os f s) = None" and "loaded (snd (load_image io os f s))"
  shows "\<exists>r n data scaled. choose_reader io (normpath os f) = Inr r \<and> get_length r = Inr n \<and>
     get_data r (if 0 < n - 1 then (n - 1) div 2 else 0) = Inr data \<and>
     rescale_data data = Inr scaled \<and> has_mode scaled"
proof -
  define s0 where "s0 = s\<lparr>canvas_text := None, z_label_focus := False\<rparr>"
  obtain r0 s1 where t: "load_image_try io (normpath os f) s0 = (r0, s1)"
    by (cases "load_image_try io (normpath os f) s0")
  have r0: "r0 = None"
  proof (cases r0)
    case (Some e)
    with t have "load_image io os f s =
        (None, s1\<lparr>canvas_text := Some ''[Unable to open file]'', reader := None, file' := None\<rparr>)"
      by (simp add: load_image_def Let_def s0_def)
    with assms(2) show ?thesis by (simp add: loaded_def)
  qed simp
  with t have l: "load_image io os f s = load_image_finish (normpath os f) s1"
    by (simp add: load_image_def Let_def s0_def)
  from load_image_try_ok [OF t [unfolded r0]]
  obtain r n data where p: "choose_reader io (normpath os f) = Inr r" "get_length r = Inr n"
    "get_data r (if 0 < n - 1 then (n - 1) div 2 else 0) = Inr data"
    by blast
  note i = load_image_try_data [OF t [unfolded r0] p]
  show ?thesis
  proof (cases "rescale_data data")
    case (Inl e)
    from load_image_finish_no_scale [OF i Inl, of "normpath os f"] l assms(1)
    show ?thesis by simp
  next
    case (Inr scaled)
    show ?thesis
    proof (cases "has_mode scaled")
      case False
      from load_image_finish_no_mode [OF i Inr False, of "normpath os f"] l assms(1)
      show ?thesis by simp
    next
      case True
      with p Inr show ?thesis by blast
    qed
  qed
qed

text \<open>
  C10. Let \<^verbatim>\<open>load_image\<close> return normally and leave a file set (a successful load), and
  let \<open>max_plane\<close> be its value afterwards. Then the reader chosen for the file reported
  \<open>max_plane + 1\<close> planes. The plane it was asked for is \<open>max_plane div 2\<close> when
  \<open>max_plane > 0\<close> and plane 0 otherwise; that plane is the image data, and its rescaled
  form is the displayed image with which \<^verbatim>\<open>load_image\<close> calls \<^verbatim>\<open>first_show_image\<close> and
  which remains afterwards. When \<open>max_plane > 0\<close> the plane selector holds
  \<open>max_plane div 2\<close> and the plane controls are shown; that index is not 0 when
  \<open>max_plane \<ge> 2\<close> and is 0 when \<open>max_plane = 1\<close>. When \<open>max_plane \<le> 0\<close> the plane
  controls are hidden.
\<close>

theorem load_image_middle_plane:
  assumes "fst (load_image io os f s) = None" and "loaded (snd (load_image io os f s))"
  shows "\<exists>r data scaled s5.
     choose_reader io (normpath os f) = Inr r \<and>
     reader (snd (load_image io os f s)) = Some r \<and>
     get_length r = Inr (max_plane (snd (load_image io os f s)) + 1) \<and>
     get_data r (if 0 < max_plane (snd (load_image io os f s))
                 then max_plane (snd (load_image io os f s)) div 2 else 0) = Inr data \<and>
     rescale_data data = Inr scaled \<and>
     load_image io os f s = first_show_image True s5 \<and>
     image_data s5 = Some data \<and> displayed_image s5 = Some scaled \<and>
     image_data (snd (load_image io os f s)) = Some data \<and>
     displayed_image (snd (load_image io os f s)) = Some scaled \<and>
     (0 < max_plane (snd (load_image io os f s)) \<longrightarrow>
        z_display_value (snd (load_image io os f s)) =
          max_plane (snd (load_image io os f s)) div 2 \<and>
        stack_ctrl_shown (snd (load_image io os f s))) \<and>
     (2 \<le> max_plane (snd (load_image io os f s)) \<longrightarrow>
        z_display_value (snd (load_image io os f s)) \<noteq> 0) \<and>
     (max_plane (snd (load_image io os f s)) = 1 \<longrightarrow>
        z_display_value (snd (load_image io os f s)) = 0) \<and>
     (max_plane (snd (load_image io os f s)) \<le> 0 \<longrightarrow>
        \<not> stack_ctrl_shown (snd (load_image io os f s)))"
proof -
  from load_image_success [OF assms]
  obtain r n data scaled where p: "choose_reader io (normpath os f) = Inr r"
    "get_length r = Inr n"
    "get_data r (if 0 < n - 1 then (n - 1) div 2 else 0) = Inr data"
    "rescale_data data = Inr scaled" "has_mode scaled"
    by blast
  define s' where "s' = snd (load_image io os f s)"
  note q = load_image_loaded [OF p, of s, folded s'_def]
  from q have m: "max_plane s' = n - 1" by simp
  then have n: "n = max_plane s' + 1" by simp
  from q obtain s5 where s5: "load_image io os f s = first_show_image True s5"
    "image_data s5 = Some data" "displayed_image s5 = Some scaled"
    by blast
  have a: "reader s' = Some r" "image_data s' = Some data" "displayed_image s' = Some scaled"
    using q by simp_all
  have b: "get_length r = Inr (max_plane s' + 1)" using p(2) n by simp
  have c: "get_data r (if 0 < max_plane s' then max_plane s' div 2 else 0) = Inr data"
    unfolding m by (rule p(3))
  have z: "z_display_value s' = (if 0 < n - 1 then (n - 1) div 2 else z_display_value s)"
    "stack_ctrl_shown s' = (0 < n - 1)"
    using q by simp_all
  have d: "0 < max_plane s' \<longrightarrow> z_display_value s' = max_plane s' div 2 \<and> stack_ctrl_shown s'"
    using z m by simp
  have e: "2 \<le> max_plane s' \<longrightarrow> z_display_value s' \<noteq> 0"
    using z(1) m by auto
  have g: "max_plane s' = 1 \<longrightarrow> z_display_value s' = 0"
    using z(1) m by auto
  have h: "max_plane s' \<le> 0 \<longrightarrow> \<not> stack_ctrl_shown s'"
    using z(2) m by simp
  from p(1,4) a b c d e g h s5 show ?thesis unfolding s'_def by blast
qed

lemma choose_reader_stack:
  "choose_reader example_io (normpath (directory_d []) ''/d/stack.tif'') = Inr (ramp_reader 11)"
proof -
  have "lower (snd (splitext ''/d/stack.tif'')) = ''.tif''"
    by (simp add: splitext_def lower_def lower_char_def Let_def)
  then show ?thesis
    by (simp add: choose_reader_def example_io_def directory_d_def ramp_reader_def)
qed

lemma choose_reader_pair:
  "choose_reader example_io (normpath (directory_d []) ''/d/pair.tif'') = Inr (ramp_reader 2)"
proof -
  have "lower (snd (splitext ''/d/pair.tif'')) = ''.tif''"
    by (simp add: splitext_def lower_def lower_char_def Let_def)
  then show ?thesis
    by (simp add: choose_reader_def example_io_def directory_d_def ramp_reader_def)
qed

lemma choose_reader_single:
  "choose_reader example_io (normpath (directory_d []) ''/d/a.png'') = Inr (ramp_reader 1)"
proof -
  have "lower (snd (splitext ''/d/a.png'')) = ''.png''"
    by (simp add: splitext_def lower_def lower_char_def Let_def)
  then show ?thesis
    by (simp add: choose_reader_def example_io_def directory_d_def)
qed

text \<open>The loads of the examples: a stack of eleven planes and one of two.\<close>

lemma load_stack:
  "fst (load_image example_io (directory_d []) ''/d/stack.tif'' (init_session 500 500)) = None \<and>
   loaded (snd (load_image example_io (directory_d []) ''/d/stack.tif'' (init_session 500 500))) \<and>
   max_plane (snd (load_image example_io (directory_d []) ''/d/stack.tif''
     (init_session 500 500))) = 10"
proof -
  have l: "get_length (ramp_reader 11) = Inr 11" by (simp add: ramp_reader_def)
  have d: "get_data (ramp_reader 11) (if 0 < (11 :: int) - 1 then (11 - 1) div 2 else 0) =
      Inr (Gray 1 1 [5])"
    by (simp add: ramp_reader_def)
  have c: "rescale_data (Gray 1 1 [5]) = Inr (Gray 1 1 [5])"
    by (simp add: rescale_data_def astype_uint8_def trunc_def)
  have m: "has_mode (Gray 1 1 [5 :: u8])" by simp
  from load_image_returns [OF choose_reader_stack l d c m, of "init_session 500 500"]
    load_image_loaded [OF choose_reader_stack l d c m, of "init_session 500 500"]
  show ?thesis by (simp add: directory_d_def init_session_def)
qed

lemma load_pair:
  "fst (load_image example_io (directory_d []) ''/d/pair.tif'' (init_session 500 500)) = None \<and>
   loaded (snd (load_image example_io (directory_d []) ''/d/pair.tif'' (init_session 500 500))) \<and>
   max_plane (snd (load_image example_io (directory_d []) ''/d/pair.tif''
     (init_session 500 500))) = 1 \<and>
   z_display_value (snd (load_image example_io (directory_d []) ''/d/pair.tif''
     (init_session 500 500))) = 0 \<and>
   image_data (snd (load_image example_io (directory_d []) ''/d/pair.tif''
     (init_session 500 500))) = Some (Gray 1 1 [0]) \<and>
   displayed_image (snd (load_image example_io (directory_d []) ''/d/pair.tif''
     (init_session 500 500))) = Some (Gray 1 1 [0])"
proof -
  have l: "get_length (ramp_reader 2) = Inr 2" by (simp add: ramp_reader_def)
  have d: "get_data (ramp_reader 2) (if 0 < (2 :: int) - 1 then (2 - 1) div 2 else 0) =
      Inr (Gray 1 1 [0])"
    by (simp add: ramp_reader_def)
  have c: "rescale_data (Gray 1 1 [0]) = Inr (Gray 1 1 [0])"
    by (simp add: rescale_data_def astype_uint8_def trunc_def)
  have m: "has_mode (Gray 1 1 [0 :: u8])" by simp
  from load_image_returns [OF choose_reader_pair l d c m, of "init_session 500 500"]
    load_image_loaded [OF choose_reader_pair l d c m, of "init_session 500 500"]
  show ?thesis by (simp add: directory_d_def init_session_def)
qed

text \<open>
  A stack of two planes has \<open>max_plane = 1\<close>, and \<open>1 div 2 = 0\<close>: the load succeeds, the
  plane selector holds 0, and the plane decoded and displayed is plane 0 of the reader, not
  its plane 1.
\<close>

theorem load_image_middle_plane_counterexample:
  "fst (load_image example_io (directory_d []) ''/d/pair.tif'' (init_session 500 500)) = None \<and>
   loaded (snd (load_image example_io (directory_d []) ''/d/pair.tif'' (init_session 500 500))) \<and>
   0 < max_plane (snd (load_image example_io (directory_d []) ''/d/pair.tif''
     (init_session 500 500))) \<and>
   z_display_value (snd (load_image example_io (directory_d []) ''/d/pair.tif''
     (init_session 500 500))) = 0 \<and>
   image_data (snd (load_image example_io (directory_d []) ''/d/pair.tif''
     (init_session 500 500))) = Some (Gray 1 1 [0]) \<and>
   displayed_image (snd (load_image example_io (directory_d []) ''/d/pair.tif''
     (init_session 500 500))) = Some (Gray 1 1 [0]) \<and>
   get_data (ramp_reader 2) 0 = Inr (Gray 1 1 [0]) \<and>
   get_data (ramp_reader 2) 1 = Inr (Gray 1 1 [1])"
  using load_pair by (simp add: ramp_reader_def)

theorem load_image_middle_plane_witness:
  "fst (load_image example_io (directory_d []) ''/d/stack.tif'' (init_session 500 500)) = None \<and>
   loaded (snd (load_image example_io (directory_d []) ''/d/stack.tif'' (init_session 500 500))) \<and>
   max_plane (snd (load_image example_io (directory_d []) ''/d/stack.tif''
      (init_session 500 500))) = 10 \<and>
   z_display_value (snd (load_image example_io (directory_d []) ''/d/stack.tif''
      (init_session 500 500))) = 5 \<and>
   image_data (snd (load_image example_io (directory_d []) ''/d/stack.tif''
      (init_session 500 500))) = Some (Gray 1 1 [5]) \<and>
   stack_ctrl_shown (snd (load_image example_io (directory_d []) ''/d/stack.tif''
      (init_session 500 500)))"
proof -
  let ?s = "snd (load_image example_io (directory_d []) ''/d/stack.tif'' (init_session 500 500))"
  note h = load_stack
  from h have h1: "fst (load_image example_io (directory_d []) ''/d/stack.tif''
      (init_session 500 500)) = None"
    and h2: "loaded ?s" and m: "max_plane ?s = 10"
    by simp_all
  from load_image_middle_plane [OF h1 h2]
  obtain r data where t: "choose_reader example_io (normpath (directory_d []) ''/d/stack.tif'') = Inr r"
    "get_data r (if 0 < max_plane ?s then max_plane ?s div 2 else 0) = Inr data"
    "image_data ?s = Some data"
    "0 < max_plane ?s \<longrightarrow> z_display_value ?s = max_plane ?s div 2 \<and> stack_ctrl_shown ?s"
    by blast
  from t(1) choose_reader_stack have r: "r = ramp_reader 11" by simp
  from t(2) have "data = Gray 1 1 [5]" unfolding r m by (simp add: ramp_reader_def)
  with t(3,4) m h1 h2 show ?thesis by simp
qed

section \<open>A file that cannot be opened\<close>

lemma not_without_file_idle: "\<not> loaded s \<Longrightarrow> not_without_file func s = (None, s)"
  by (simp add: not_without_file_def loaded_def split: option.splits)

lemma decode_raises_try:
  assumes "decode_raises io file"
  shows "\<exists>e s1. load_image_try io file s = (Some e, s1)"
  using assms
  by (auto simp: decode_raises_def load_image_try_def Let_def split: sum.splits if_splits)

lemma load_image_failed:
  assumes "decode_raises io (normpath os f)"
  shows "\<exists>s1. load_image io os f s =
     (None, s1\<lparr>canvas_text := Some ''[Unable to open file]'', reader := None, file' := None\<rparr>)"
proof -
  from decode_raises_try [OF assms]
  obtain e s1 where "load_image_try io (normpath os f)
      (s\<lparr>canvas_text := None, z_label_focus := False\<rparr>) = (Some e, s1)"
    by blast
  then have "load_image io os f s =
     (None, s1\<lparr>canvas_text := Some ''[Unable to open file]'', reader := None, file' := None\<rparr>)"
    by (simp add: load_image_def Let_def)
  then show ?thesis by blast
qed

lemma load_image_try_failed:
  assumes "load_image_try io file s = (Some e, s1)"
  shows "image_data s1 = image_data s \<and> scaled_image_data s1 = scaled_image_data s \<and>
    displayed_image s1 = displayed_image s \<and> z_display_value s1 = z_display_value s \<and>
    stack_ctrl_shown s1 = stack_ctrl_shown s \<and> file_list s1 = file_list s \<and>
    current_index s1 = current_index s \<and> min_display_value s1 = min_display_value s \<and>
    max_display_value s1 = max_display_value s \<and> zoom_factor s1 = zoom_factor s"
  using assms by (auto simp: load_image_try_def Let_def split: sum.splits if_splits)

lemma load_image_failed_fields:
  assumes "decode_raises io (normpath os f)"
  shows "image_data (snd (load_image io os f s)) = image_data s \<and>
    scaled_image_data (snd (load_image io os f s)) = scaled_image_data s \<and>
    displayed_image (snd (load_image io os f s)) = displayed_image s \<and>
    z_display_value (snd (load_image io os f s)) = z_display_value s \<and>
    stack_ctrl_shown (snd (load_image io os f s)) = stack_ctrl_shown s \<and>
    file_list (snd (load_image io os f s)) = file_list s \<and>
    current_index (snd (load_image io os f s)) = current_index s \<and>
    min_display_value (snd (load_image io os f s)) = min_display_value s \<and>
    max_display_value (snd (load_image io os f s)) = max_display_value s \<and>
    zoom_factor (snd (load_image io os f s)) = zoom_factor s"
proof -
  from decode_raises_try [OF assms]
  obtain e s1 where t: "load_image_try io (normpath os f)
      (s\<lparr>canvas_text := None, z_label_focus := False\<rparr>) = (Some e, s1)"
    by blast
  then have "load_image io os f s =
     (None, s1\<lparr>canvas_text := Some ''[Unable to open file]'', reader := None, file' := None\<rparr>)"
    by (simp add: load_image_def Let_def)
  with load_image_try_failed [OF t] show ?thesis by simp
qed

lemma load_image_stack:
  "load_image example_io (directory_d []) ''/d/stack.tif'' (init_session 500 500) =
     (None, stack_session)"
proof -
  have l: "get_length (ramp_reader 11) = Inr 11" by (simp add: ramp_reader_def)
  have d: "get_data (ramp_reader 11) (if 0 < (11 :: int) - 1 then (11 - 1) div 2 else 0) =
      Inr (Gray 1 1 [5])"
    by (simp add: ramp_reader_def)
  have c: "rescale_data (Gray 1 1 [5]) = Inr (Gray 1 1 [5])"
    by (simp add: rescale_data_def astype_uint8_def trunc_def)
  define s1 where "s1 = (init_session 500 500)\<lparr>canvas_text := None, z_label_focus := False,
      reader := Some (ramp_reader 11), max_plane := 10, image_data := Some (Gray 1 1 [5]),
      z_display_value := 5, stack_ctrl_shown := True\<rparr>"
  have r: "reset_bounds s1 = s1"
    by (simp add: reset_bounds_def init_session_def s1_def)
  have f: "image_data s1 = Some (Gray 1 1 [5])" "display_popup s1 = None"
    "canvas_width s1 = 500" "canvas_height s1 = 500"
    by (simp_all add: s1_def init_session_def)
  have t: "load_image_try example_io (normpath (directory_d []) ''/d/stack.tif'')
      ((init_session 500 500)\<lparr>canvas_text := None, z_label_focus := False\<rparr>) = (None, s1)"
    unfolding load_image_try_planes [OF choose_reader_stack l d] s1_def by simp
  have "load_image_finish ''/d/stack.tif'' s1 =
      (None, s1\<lparr>display_values_array := [0, 255], scaled_image_data := Some (Gray 1 1 [5]),
         displayed_image := Some (Gray 1 1 [5]), width := 1, height := 1,
         file' := Some ''/d/stack.tif'', zoomfit_pressed := False, zoom_factor := 1\<rparr>)"
    by (simp add: load_image_finish_def r f c fromarray_def Let_def initial_display_values_def
        switch_image_def first_show_image_def not_without_file_def del: One_nat_def)
  then have "load_image example_io (directory_d []) ''/d/stack.tif'' (init_session 500 500) =
      (None, s1\<lparr>display_values_array := [0, 255], scaled_image_data := Some (Gray 1 1 [5]),
         displayed_image := Some (Gray 1 1 [5]), width := 1, height := 1,
         file' := Some ''/d/stack.tif'', zoomfit_pressed := False, zoom_factor := 1\<rparr>)"
    using t by (simp add: load_image_def Let_def directory_d_def)
  then show ?thesis
    by (simp add: s1_def stack_session_def init_session_def)
qed

lemma choose_reader_bad:
  "choose_reader example_io (normpath (directory_d []) ''/d/bad.png'') = Inl OSError"
  by (simp add: choose_reader_def example_io_def directory_d_def)

lemma load_image_bad:
  "load_image example_io (directory_d []) ''/d/bad.png'' s =
     (None, s\<lparr>canvas_text := Some ''[Unable to open file]'', z_label_focus := False,
        reader := None, file' := None\<rparr>)"
  by (simp add: load_image_def load_image_try_def choose_reader_bad Let_def)

lemma choose_reader_five:
  "choose_reader example_io (normpath (directory_d []) ''/d/five.png'') =
     Inr five_channel_reader"
proof -
  have "lower (snd (splitext ''/d/five.png'')) = ''.png''"
    by (simp add: splitext_def lower_def lower_char_def Let_def)
  then show ?thesis
    by (simp add: choose_reader_def example_io_def directory_d_def)
qed

lemma load_image_five:
  "fst (load_image example_io (directory_d []) ''/d/five.png'' (init_session 500 500)) =
     Some TypeError"
proof -
  have l: "get_length five_channel_reader = Inr 1" by (simp add: five_channel_reader_def)
  have d: "get_data five_channel_reader (if 0 < (1 :: int) - 1 then (1 - 1) div 2 else 0) =
      Inr (Multi 1 1 [[0], [0], [0], [0], [0]])"
    by (simp add: five_channel_reader_def)
  have c: "rescale_data (Multi 1 1 [[0], [0], [0], [0], [0]]) =
      Inr (Multi 1 1 [[0], [0], [0], [0], [0]])"
    by (simp add: rescale_data_def astype_uint8_def trunc_def)
  have m: "\<not> has_mode (Multi 1 1 [[0 :: u8], [0], [0], [0], [0]])" by simp
  let ?s0 = "(init_session 500 500)\<lparr>canvas_text := None, z_label_focus := False\<rparr>"
  obtain s1 where t: "load_image_try example_io (normpath (directory_d []) ''/d/five.png'') ?s0 =
      (None, s1)" "image_data s1 = Some (Multi 1 1 [[0], [0], [0], [0], [0]])"
    unfolding load_image_try_planes [OF choose_reader_five l d] by simp
  from load_image_finish_no_mode [OF t(2) c m, of "normpath (directory_d []) ''/d/five.png''"] t(1)
  show ?thesis by (simp add: load_image_def Let_def)
qed

text \<open>
  C9, as the claim states it, fails. The handler of \<^verbatim>\<open>load_image\<close> resets \<open>file\<close> and
  \<open>reader\<close> and nothing else. After \<^verbatim>\<open>/d/stack.tif\<close> has been loaded, a failed load of
  \<^verbatim>\<open>/d/bad.png\<close> leaves the image data, the displayed image, \<open>max_plane = 10\<close> and the
  plane controls of the stack in place, so the session state is not cleared; and two
  operations on the file still run: \<^verbatim>\<open>set_z_plane\<close> accepts plane 3 and moves the plane
  selector from 5 to 3, and setting the lower display bound to 100 rewrites the displayed
  image from the stale buffer. Moreover only the \<^verbatim>\<open>try\<close> block is guarded: a file of five
  channels is opened and decoded, and the \<^verbatim>\<open>TypeError\<close> of \<^verbatim>\<open>Image.fromarray\<close> leaves
  \<^verbatim>\<open>load_image\<close>.
\<close>

theorem load_image_recovers_counterexample:
  "load_image example_io (directory_d []) ''/d/stack.tif'' (init_session 500 500) =
     (None, stack_session) \<and>
   decode_raises example_io (normpath (directory_d []) ''/d/bad.png'') \<and>
   image_data (snd (load_image example_io (directory_d []) ''/d/bad.png'' stack_session)) =
     Some (Gray 1 1 [5]) \<and>
   displayed_image (snd (load_image example_io (directory_d []) ''/d/bad.png'' stack_session)) =
     Some (Gray 1 1 [5]) \<and>
   max_plane (snd (load_image example_io (directory_d []) ''/d/bad.png'' stack_session)) = 10 \<and>
   stack_ctrl_shown (snd (load_image example_io (directory_d []) ''/d/bad.png'' stack_session)) \<and>
   z_display_value (snd (load_image example_io (directory_d []) ''/d/bad.png'' stack_session)) = 5 \<and>
   fst (set_z_plane ascii_int (PyInt 3)
     (snd (load_image example_io (directory_d []) ''/d/bad.png'' stack_session))) = Inr True \<and>
   z_display_value (snd (set_z_plane ascii_int (PyInt 3)
     (snd (load_image example_io (directory_d []) ''/d/bad.png'' stack_session)))) = 3 \<and>
   min_display_value (set_min_display_value 100
     (snd (load_image example_io (directory_d []) ''/d/bad.png'' stack_session))) = 100 \<and>
   displayed_image (set_min_display_value 100
     (snd (load_image example_io (directory_d []) ''/d/bad.png'' stack_session))) =
     Some (Gray 1 1 [0]) \<and>
   fst (load_image example_io (directory_d []) ''/d/five.png'' (init_session 500 500)) =
     Some TypeError"
proof -
  have d: "decode_raises example_io (normpath (directory_d []) ''/d/bad.png'')"
    by (simp add: decode_raises_def choose_reader_bad)
  have z: "fst (set_z_plane ascii_int (PyInt 3)
       (stack_session\<lparr>canvas_text := Some ''[Unable to open file]'', z_label_focus := False,
          reader := None, file' := None\<rparr>)) = Inr True \<and>
     z_display_value (snd (set_z_plane ascii_int (PyInt 3)
       (stack_session\<lparr>canvas_text := Some ''[Unable to open file]'', z_label_focus := False,
          reader := None, file' := None\<rparr>))) = 3"
    by (simp add: set_z_plane_def update_z_display_def not_without_file_def stack_session_def
        init_session_def Let_def)
  have m: "min_display_value (set_min_display_value 100
       (stack_session\<lparr>canvas_text := Some ''[Unable to open file]'', z_label_focus := False,
          reader := None, file' := None\<rparr>)) = 100 \<and>
     displayed_image (set_min_display_value 100
       (stack_session\<lparr>canvas_text := Some ''[Unable to open file]'', z_label_focus := False,
          reader := None, file' := None\<rparr>)) = Some (Gray 1 1 [0])"
    by (simp add: set_min_display_value_def update_min_display_def update_min_display_body_def
        tk_callback_def store_display_values_def update_contrast_def fromarray_def window_def
        set_below_def np_divide_def astype_uint8_def trunc_def stack_session_def
        init_session_def Let_def)
  from load_image_stack d z m load_image_five show ?thesis
    unfolding load_image_bad by (simp add: stack_session_def init_session_def)
qed

text \<open>
  C9, amended. When a call inside the \<^verbatim>\<open>try\<close> block of \<^verbatim>\<open>load_image\<close> raises (getting a
  reader, its metadata, its length or the plane asked for), whatever the exception,
  \<^verbatim>\<open>load_image\<close> returns normally; afterwards no file and no reader are set and the canvas
  shows the text \<^verbatim>\<open>[Unable to open file]\<close>. The image data, the displayed image, the plane
  selector, the display bounds, the zoom factor and the file series keep the values they
  had. Every method under \<^verbatim>\<open>not_without_file\<close> (zooming, the view resets, the plane
  update, browsing to the next or previous file) returns at once without writing a field.
\<close>

theorem load_image_recovers:
  assumes "decode_raises io (normpath os f)"
  shows "fst (load_image io os f s) = None \<and>
    file' (snd (load_image io os f s)) = None \<and>
    reader (snd (load_image io os f s)) = None \<and>
    canvas_text (snd (load_image io os f s)) = Some ''[Unable to open file]'' \<and>
    image_data (snd (load_image io os f s)) = image_data s \<and>
    scaled_image_data (snd (load_image io os f s)) = scaled_image_data s \<and>
    displayed_image (snd (load_image io os f s)) = displayed_image s \<and>
    z_display_value (snd (load_image io os f s)) = z_display_value s \<and>
    min_display_value (snd (load_image io os f s)) = min_display_value s \<and>
    max_display_value (snd (load_image io os f s)) = max_display_value s \<and>
    zoom_factor (snd (load_image io os f s)) = zoom_factor s \<and>
    file_list (snd (load_image io os f s)) = file_list s \<and>
    current_index (snd (load_image io os f s)) = current_index s \<and>
    zoom_in (snd (load_image io os f s)) = (None, snd (load_image io os f s)) \<and>
    zoom_out (snd (load_image io os f s)) = (None, snd (load_image io os f s)) \<and>
    zoom_mouse x y bbox d (snd (load_image io os f s)) = (None, snd (load_image io os f s)) \<and>
    zoom_image x y sc (snd (load_image io os f s)) = (None, snd (load_image io os f s)) \<and>
    first_show_image l (snd (load_image io os f s)) = (None, snd (load_image io os f s)) \<and>
    fit_to_window (snd (load_image io os f s)) = (None, snd (load_image io os f s)) \<and>
    update_z_display (snd (load_image io os f s)) = (None, snd (load_image io os f s)) \<and>
    next_file io' os' ev (snd (load_image io os f s)) = (None, snd (load_image io os f s)) \<and>
    prev_file io' os' ev (snd (load_image io os f s)) = (None, snd (load_image io os f s))"
proof -
  from load_image_failed [OF assms]
  obtain s1 where r: "load_image io os f s =
     (None, s1\<lparr>canvas_text := Some ''[Unable to open file]'', reader := None, file' := None\<rparr>)"
    by blast
  define s' where "s' = snd (load_image io os f s)"
  from r have a: "fst (load_image io os f s) = None" "file' s' = None" "reader s' = None"
    "canvas_text s' = Some ''[Unable to open file]''"
    by (simp_all add: s'_def)
  then have i: "\<not> loaded s'" by (simp add: loaded_def)
  note k = load_image_failed_fields [OF assms, of s, folded s'_def]
  have "zoom_in s' = (None, s')" "zoom_out s' = (None, s')"
    "zoom_mouse x y bbox d s' = (None, s')" "zoom_image x y sc s' = (None, s')"
    "first_show_image l s' = (None, s')" "fit_to_window s' = (None, s')"
    "update_z_display s' = (None, s')" "next_file io' os' ev s' = (None, s')"
    "prev_file io' os' ev s' = (None, s')"
    unfolding zoom_in_def zoom_out_def zoom_mouse_def zoom_image_def first_show_image_def
      fit_to_window_def update_z_display_def next_file_def prev_file_def
    by (simp_all only: not_without_file_idle [OF i])
  with a k show ?thesis unfolding s'_def by simp
qed

theorem load_image_recovers_witness:
  "decode_raises example_io (normpath (directory_d []) ''/d/bad.png'') \<and>
   fst (load_image example_io (directory_d []) ''/d/bad.png''
     ((init_session 500 500)\<lparr>file' := Some ''/d/a.png''\<rparr>)) = None \<and>
   file' (snd (load_image example_io (directory_d []) ''/d/bad.png''
     ((init_session 500 500)\<lparr>file' := Some ''/d/a.png''\<rparr>))) = None \<and>
   canvas_text (snd (load_image example_io (directory_d []) ''/d/bad.png''
     ((init_session 500 500)\<lparr>file' := Some ''/d/a.png''\<rparr>))) = Some ''[Unable to open file]'' \<and>
   zoom_in (snd (load_image example_io (directory_d []) ''/d/bad.png''
     ((init_session 500 500)\<lparr>file' := Some ''/d/a.png''\<rparr>))) =
     (None, snd (load_image example_io (directory_d []) ''/d/bad.png''
       ((init_session 500 500)\<lparr>file' := Some ''/d/a.png''\<rparr>)))"
proof -
  have d: "decode_raises example_io (normpath (directory_d []) ''/d/bad.png'')"
    by (simp add: decode_raises_def choose_reader_def example_io_def directory_d_def)
  from d load_image_recovers [OF d, of "(init_session 500 500)\<lparr>file' := Some ''/d/a.png''\<rparr>"]
  show ?thesis by simp
qed

section \<open>Browsing forwards and backwards\<close>

lemma py_nth_in_range:
  "0 \<le> i \<Longrightarrow> i < int (length xs) \<Longrightarrow> py_nth xs i = Inr (xs ! nat i)"
  by (simp add: py_nth_def)

lemma loaded_runs: "loaded s \<Longrightarrow> not_without_file func s = func s"
  by (simp add: not_without_file_def loaded_def split: option.splits)

lemma next_file_step:
  assumes "loaded s" and "\<not> (ev \<and> z_label_focus s)" and "2 \<le> length (file_list s)"
    and "0 \<le> current_index s" and "current_index s < int (length (file_list s))"
    and "j = (if current_index s < int (length (file_list s)) - 1
              then current_index s + 1 else 0)"
  shows "next_file io os ev s =
    load_image io os (file_list s ! nat j) (s\<lparr>current_index := j, zoom_factor := 1\<rparr>)"
proof -
  have b: "(ev \<and> z_label_focus s) = False" using assms(2) by simp
  have n: "length (file_list s) \<noteq> 0" "length (file_list s) \<noteq> 1" using assms(3) by auto
  show ?thesis
  proof (cases "current_index s < int (length (file_list s)) - 1")
    case True
    with assms(6) have j: "j = current_index s + 1" by simp
    have "py_nth (file_list s) (current_index s + 1) =
        Inr (file_list s ! nat (current_index s + 1))"
      using True assms(4) by (intro py_nth_in_range) simp_all
    with True n show ?thesis
      unfolding next_file_def loaded_runs [OF assms(1)] b j by (simp add: Let_def)
  next
    case False
    with assms(6) have j: "j = 0" by simp
    from False assms(5) have l: "current_index s = int (length (file_list s)) - 1" by simp
    have "py_nth (file_list s) 0 = Inr (file_list s ! nat 0)"
      using assms(3) by (intro py_nth_in_range) auto
    with False l n show ?thesis
      unfolding next_file_def loaded_runs [OF assms(1)] b j by (simp add: Let_def)
  qed
qed

lemma prev_file_step:
  assumes "loaded s" and "\<not> (ev \<and> z_label_focus s)" and "2 \<le> length (file_list s)"
    and "0 \<le> current_index s" and "current_index s < int (length (file_list s))"
    and "j = (if 0 < current_index s then current_index s - 1
              else int (length (file_list s)) - 1)"
  shows "prev_file io os ev s =
    load_image io os (file_list s ! nat j) (s\<lparr>current_index := j, zoom_factor := 1\<rparr>)"
proof -
  have b: "(ev \<and> z_label_focus s) = False" using assms(2) by simp
  have n: "length (file_list s) \<noteq> 0" "length (file_list s) \<noteq> 1" using assms(3) by auto
  show ?thesis
  proof (cases "0 < current_index s")
    case True
    with assms(6) have j: "j = current_index s - 1" by simp
    have "py_nth (file_list s) (current_index s - 1) =
        Inr (file_list s ! nat (current_index s - 1))"
      using True assms(5) by (intro py_nth_in_range) simp_all
    with True n show ?thesis
      unfolding prev_file_def loaded_runs [OF assms(1)] b j by (simp add: Let_def)
  next
    case False
    with assms(6) have j: "j = int (length (file_list s)) - 1" by simp
    from False assms(4) have l: "current_index s = 0" by simp
    have "py_nth (file_list s) (int (length (file_list s)) - 1) =
        Inr (file_list s ! nat (int (length (file_list s)) - 1))"
      using assms(3) by (intro py_nth_in_range) auto
    with False l n show ?thesis
      unfolding prev_file_def loaded_runs [OF assms(1)] b j by (simp add: Let_def)
  qed
qed

lemma blocked_next: "ev \<and> z_label_focus s \<Longrightarrow> next_file io os ev s = (None, s)"
  by (simp add: next_file_def not_without_file_def split: option.splits)

lemma blocked_prev: "ev \<and> z_label_focus s \<Longrightarrow> prev_file io os ev s = (None, s)"
  by (simp add: prev_file_def not_without_file_def split: option.splits)

text \<open>One step forwards, with the fields that the next step reads.\<close>

lemma next_file_moves:
  assumes "loaded s" and "\<not> (ev \<and> z_label_focus s)" and "2 \<le> length (file_list s)"
    and "0 \<le> current_index s" and "current_index s < int (length (file_list s))"
  shows "file_list (snd (next_file io os ev s)) = file_list s \<and>
    current_index (snd (next_file io os ev s)) =
      (if current_index s < int (length (file_list s)) - 1 then current_index s + 1 else 0) \<and>
    \<not> z_label_focus (snd (next_file io os ev s))"
  unfolding next_file_step [OF assms refl]
  using load_image_nav [of io os _ "s\<lparr>current_index := _, zoom_factor := 1\<rparr>"]
  by simp

lemma prev_file_moves:
  assumes "loaded s" and "\<not> (ev \<and> z_label_focus s)" and "2 \<le> length (file_list s)"
    and "0 \<le> current_index s" and "current_index s < int (length (file_list s))"
  shows "file_list (snd (prev_file io os ev s)) = file_list s \<and>
    current_index (snd (prev_file io os ev s)) =
      (if 0 < current_index s then current_index s - 1 else int (length (file_list s)) - 1) \<and>
    \<not> z_label_focus (snd (prev_file io os ev s))"
  unfolding prev_file_step [OF assms refl]
  using load_image_nav [of io os _ "s\<lparr>current_index := _, zoom_factor := 1\<rparr>"]
  by simp

lemma next_then_prev:
  assumes "loaded s" and "2 \<le> length (file_list s)"
    and "0 \<le> current_index s" and "current_index s < int (length (file_list s))"
    and "loaded (snd (next_file io os ev s))"
  shows "current_index (snd (prev_file io os ev (snd (next_file io os ev s)))) = current_index s"
proof (cases "ev \<and> z_label_focus s")
  case True
  then show ?thesis by (simp add: blocked_next blocked_prev)
next
  case False
  define t where "t = snd (next_file io os ev s)"
  note m = next_file_moves [OF assms(1) False assms(2,3,4), of io os, folded t_def]
  have t1: "\<not> (ev \<and> z_label_focus t)" using m by simp
  have t2: "2 \<le> length (file_list t)" using m assms(2) by simp
  have t3: "0 \<le> current_index t" using m assms(3) by simp
  have t4: "current_index t < int (length (file_list t))" using m assms(2,4) by auto
  have t0: "loaded t" using assms(5) by (simp add: t_def)
  note p = prev_file_moves [OF t0 t1 t2 t3 t4, of io os]
  from p m assms(3,4) show ?thesis unfolding t_def [symmetric] by auto
qed

lemma prev_then_next:
  assumes "loaded s" and "2 \<le> length (file_list s)"
    and "0 \<le> current_index s" and "current_index s < int (length (file_list s))"
    and "loaded (snd (prev_file io os ev s))"
  shows "current_index (snd (next_file io os ev (snd (prev_file io os ev s)))) = current_index s"
proof (cases "ev \<and> z_label_focus s")
  case True
  then show ?thesis by (simp add: blocked_next blocked_prev)
next
  case False
  define t where "t = snd (prev_file io os ev s)"
  note m = prev_file_moves [OF assms(1) False assms(2,3,4), of io os, folded t_def]
  have t1: "\<not> (ev \<and> z_label_focus t)" using m by simp
  have t2: "2 \<le> length (file_list t)" using m assms(2) by simp
  have t3: "0 \<le> current_index t" using m assms(2,3) by auto
  have t4: "current_index t < int (length (file_list t))" using m assms(2,4) by auto
  have t0: "loaded t" using assms(5) by (simp add: t_def)
  note p = next_file_moves [OF t0 t1 t2 t3 t4, of io os]
  from p m assms(2,3,4) show ?thesis unfolding t_def [symmetric] by auto
qed

lemma single_file_series:
  assumes "length (file_list s) = 1"
  shows "next_file io os ev s = (None, s) \<and> prev_file io os ev s = (None, s)"
  using assms
  by (simp add: next_file_def prev_file_def not_without_file_def split: option.splits)

lemma next_file_rebuilt:
  assumes "loaded s" and "\<not> (ev \<and> z_label_focus s)"
    and "file_list s = []" and "make_file_list os s = (None, s1)" and "file_list s1 \<noteq> []"
    and "file' s1 = file' s" and "z_label_focus s1 = z_label_focus s"
  shows "next_file io os ev s = next_file io os ev s1"
proof -
  have b: "(ev \<and> z_label_focus s) = False" using assms(2) by simp
  have l1: "loaded s1" using assms(1,6) by (simp add: loaded_def)
  have b1: "(ev \<and> z_label_focus s1) = False" using assms(2,7) by simp
  show ?thesis
    unfolding next_file_def loaded_runs [OF assms(1)] loaded_runs [OF l1] b b1
    using assms(3,4,5) by simp
qed

lemma names_a_b:
  "filter (\<lambda>n. lower (snd (splitext n)) \<in> SUPPORTED_EXTENSIONS) [''a.png'', ''b.PNG''] =
   [''a.png'', ''b.PNG'']"
  by (simp add: ext_b ext_a supported_png)

lemma choose_reader_b:
  "choose_reader example_io (normpath (directory_d ns) ''/d/b.PNG'') = Inr (ramp_reader 1)"
proof -
  have "lower (snd (splitext ''/d/b.PNG'')) = ''.png''"
    by (simp add: splitext_def lower_def lower_char_def Let_def)
  then show ?thesis
    by (simp add: choose_reader_def example_io_def directory_d_def)
qed

lemma decode_raises_bad:
  "decode_raises example_io (normpath (directory_d ns) ''/d/bad.png'')"
  by (simp add: decode_raises_def choose_reader_def example_io_def directory_d_def)

text \<open>
  C8, as the claim states it, fails twice. A series of length 0 is not left alone: with
  \<^verbatim>\<open>/d/a.png\<close> loaded, no series built yet and \<^verbatim>\<open>a.png\<close>, \<^verbatim>\<open>b.PNG\<close> in the directory,
  \<^verbatim>\<open>next_file\<close> builds the series, moves to index 1 and loads \<^verbatim>\<open>/d/b.PNG\<close>. And in a
  series of length 2 whose second file cannot be opened, \<^verbatim>\<open>next_file\<close> from index 0 moves
  to index 1 and leaves no file loaded, after which \<^verbatim>\<open>prev_file\<close> does nothing: the index
  stays 1.
\<close>

theorem next_prev_file_counterexample:
  "length (file_list ((init_session 500 500)\<lparr>file' := Some ''/d/a.png''\<rparr>)) = 0 \<and>
   current_index ((init_session 500 500)\<lparr>file' := Some ''/d/a.png''\<rparr>) = 0 \<and>
   current_index (snd (next_file example_io (directory_d [''a.png'', ''b.PNG'']) False
     ((init_session 500 500)\<lparr>file' := Some ''/d/a.png''\<rparr>))) = 1 \<and>
   file' (snd (next_file example_io (directory_d [''a.png'', ''b.PNG'']) False
     ((init_session 500 500)\<lparr>file' := Some ''/d/a.png''\<rparr>))) = Some ''/d/b.PNG'' \<and>
   current_index ((init_session 500 500)\<lparr>file' := Some ''/d/a.png'',
     file_list := [''/d/a.png'', ''/d/bad.png'']\<rparr>) = 0 \<and>
   current_index (snd (next_file example_io (directory_d []) False
     ((init_session 500 500)\<lparr>file' := Some ''/d/a.png'',
       file_list := [''/d/a.png'', ''/d/bad.png'']\<rparr>))) = 1 \<and>
   file' (snd (next_file example_io (directory_d []) False
     ((init_session 500 500)\<lparr>file' := Some ''/d/a.png'',
       file_list := [''/d/a.png'', ''/d/bad.png'']\<rparr>))) = None \<and>
   current_index (snd (prev_file example_io (directory_d []) False
     (snd (next_file example_io (directory_d []) False
       ((init_session 500 500)\<lparr>file' := Some ''/d/a.png'',
         file_list := [''/d/a.png'', ''/d/bad.png'']\<rparr>))))) = 1"
proof -
  let ?os = "directory_d [''a.png'', ''b.PNG'']"
  let ?s = "(init_session 500 500)\<lparr>file' := Some ''/d/a.png''\<rparr>"
  let ?s1 = "?s\<lparr>file_list := [''/d/a.png'', ''/d/b.PNG''], current_index := 0\<rparr>"
  have i: "length (file_list ?s) = 0" "current_index ?s = 0"
    by (simp_all add: init_session_def)
  have f: "file' ?s = Some ''/d/a.png''" by simp
  have l: "listdir ?os (dirname ?os (abspath ?os ''/d/a.png'')) = Inr [''a.png'', ''b.PNG'']"
    by (simp add: directory_d_def dirname_a)
  have m: "map (\<lambda>n. normpath ?os (join ?os (dirname ?os (abspath ?os ''/d/a.png'')) n))
        (filter (\<lambda>n. lower (snd (splitext n)) \<in> SUPPORTED_EXTENSIONS) [''a.png'', ''b.PNG'']) =
      [''/d/a.png'', ''/d/b.PNG'']"
    unfolding names_a_b by (simp add: directory_d_def dirname_a join_a join_b)
  have mk: "make_file_list ?os ?s = (None, ?s1)"
    unfolding make_file_list_listed [OF f l] m by simp
  have "next_file example_io ?os False ?s = next_file example_io ?os False ?s1"
    using i(1) by (intro next_file_rebuilt [OF _ _ _ mk]) (simp_all add: loaded_def)
  also have "\<dots> = load_image example_io ?os ([''/d/a.png'', ''/d/b.PNG''] ! nat 1)
      (?s1\<lparr>current_index := 1, zoom_factor := 1\<rparr>)"
    using next_file_step [of ?s1 False 1 example_io ?os]
    by (simp add: loaded_def init_session_def)
  finally have n1: "next_file example_io ?os False ?s =
      load_image example_io ?os ''/d/b.PNG'' (?s1\<lparr>current_index := 1, zoom_factor := 1\<rparr>)"
    by simp
  have g: "get_length (ramp_reader 1) = Inr 1"
    "get_data (ramp_reader 1) (if 0 < (1 :: int) - 1 then (1 - 1) div 2 else 0) =
       Inr (Gray 1 1 [0])"
    by (simp_all add: ramp_reader_def)
  have c: "rescale_data (Gray 1 1 [0]) = Inr (Gray 1 1 [0])"
    by (simp add: rescale_data_def astype_uint8_def trunc_def)
  have a1: "current_index (snd (next_file example_io ?os False ?s)) = 1"
    unfolding n1 using load_image_nav [of example_io ?os "''/d/b.PNG''"
        "?s1\<lparr>current_index := 1, zoom_factor := 1\<rparr>"]
    by simp
  have a2: "file' (snd (next_file example_io ?os False ?s)) = Some ''/d/b.PNG''"
    unfolding n1 using load_image_loaded [OF choose_reader_b g c,
        of "[''a.png'', ''b.PNG'']" "?s1\<lparr>current_index := 1, zoom_factor := 1\<rparr>"]
    by (simp add: directory_d_def)
  let ?e = "directory_d []"
  let ?t = "(init_session 500 500)\<lparr>file' := Some ''/d/a.png'',
     file_list := [''/d/a.png'', ''/d/bad.png'']\<rparr>"
  have j: "current_index ?t = 0" by (simp add: init_session_def)
  have n2: "next_file example_io ?e False ?t =
      load_image example_io ?e ''/d/bad.png'' (?t\<lparr>current_index := 1, zoom_factor := 1\<rparr>)"
    using next_file_step [of ?t False 1 example_io ?e]
    by (simp add: loaded_def init_session_def)
  have b1: "current_index (snd (next_file example_io ?e False ?t)) = 1"
    unfolding n2 using load_image_nav [of example_io ?e "''/d/bad.png''"
        "?t\<lparr>current_index := 1, zoom_factor := 1\<rparr>"]
    by simp
  from load_image_failed [OF decode_raises_bad, of "[]" "?t\<lparr>current_index := 1, zoom_factor := 1\<rparr>"]
  have b2: "file' (snd (next_file example_io ?e False ?t)) = None"
    unfolding n2 by auto
  then have "\<not> loaded (snd (next_file example_io ?e False ?t))"
    by (simp add: loaded_def)
  then have "prev_file example_io ?e False (snd (next_file example_io ?e False ?t)) =
      (None, snd (next_file example_io ?e False ?t))"
    unfolding prev_file_def by (rule not_without_file_idle)
  with b1 have b3: "current_index (snd (prev_file example_io ?e False
      (snd (next_file example_io ?e False ?t)))) = 1"
    by simp
  from i a1 a2 j b1 b2 b3 show ?thesis by blast
qed

text \<open>
  C8, amended. Let a file be loaded, the series have length at least 2 and the current
  index lie inside it. Then \<^verbatim>\<open>next_file\<close> followed by \<^verbatim>\<open>prev_file\<close>, and \<^verbatim>\<open>prev_file\<close>
  followed by \<^verbatim>\<open>next_file\<close>, bring the current index back to where it was, provided a
  file is loaded again after the first of the two steps; unless the call is a key press
  in the plane entry, one step forwards from the last index goes to 0 and one step
  backwards from 0 goes to the last index. For a series of length exactly 1 both methods
  return without writing a field.
\<close>

theorem next_prev_file_roundtrip:
  "(loaded s \<and> 2 \<le> length (file_list s) \<and> 0 \<le> current_index s \<and>
    current_index s < int (length (file_list s)) \<longrightarrow>
      (loaded (snd (next_file io os ev s)) \<longrightarrow>
         current_index (snd (prev_file io os ev (snd (next_file io os ev s)))) =
           current_index s) \<and>
      (loaded (snd (prev_file io os ev s)) \<longrightarrow>
         current_index (snd (next_file io os ev (snd (prev_file io os ev s)))) =
           current_index s) \<and>
      (\<not> (ev \<and> z_label_focus s) \<longrightarrow>
         current_index (snd (next_file io os ev s)) =
           (if current_index s < int (length (file_list s)) - 1
            then current_index s + 1 else 0) \<and>
         current_index (snd (prev_file io os ev s)) =
           (if 0 < current_index s then current_index s - 1
            else int (length (file_list s)) - 1))) \<and>
   (length (file_list s) = 1 \<longrightarrow>
      next_file io os ev s = (None, s) \<and> prev_file io os ev s = (None, s))"
proof (intro conjI impI)
  assume a: "loaded s \<and> 2 \<le> length (file_list s) \<and> 0 \<le> current_index s \<and>
    current_index s < int (length (file_list s))"
  then have h: "loaded s" "2 \<le> length (file_list s)" "0 \<le> current_index s"
    "current_index s < int (length (file_list s))"
    by simp_all
  { assume "loaded (snd (next_file io os ev s))"
    with h show "current_index (snd (prev_file io os ev (snd (next_file io os ev s)))) =
        current_index s"
      by (rule next_then_prev) }
  { assume "loaded (snd (prev_file io os ev s))"
    with h show "current_index (snd (next_file io os ev (snd (prev_file io os ev s)))) =
        current_index s"
      by (rule prev_then_next) }
  { assume b: "\<not> (ev \<and> z_label_focus s)"
    from next_file_moves [OF h(1) b h(2,3,4)]
    show "current_index (snd (next_file io os ev s)) =
        (if current_index s < int (length (file_list s)) - 1 then current_index s + 1 else 0)"
      by simp
    from prev_file_moves [OF h(1) b h(2,3,4)]
    show "current_index (snd (prev_file io os ev s)) =
        (if 0 < current_index s then current_index s - 1 else int (length (file_list s)) - 1)"
      by simp }
next
  assume "length (file_list s) = 1"
  then show "next_file io os ev s = (None, s)" "prev_file io os ev s = (None, s)"
    using single_file_series [of s io os ev] by simp_all
qed

theorem next_prev_file_roundtrip_witness:
  "loaded ((init_session 500 500)\<lparr>file' := Some ''/d/b.PNG'',
      file_list := [''/d/a.png'', ''/d/b.PNG''], current_index := 1\<rparr>) \<and>
   loaded (snd (next_file example_io (directory_d []) False
     ((init_session 500 500)\<lparr>file' := Some ''/d/b.PNG'',
        file_list := [''/d/a.png'', ''/d/b.PNG''], current_index := 1\<rparr>))) \<and>
   current_index (snd (next_file example_io (directory_d []) False
     ((init_session 500 500)\<lparr>file' := Some ''/d/b.PNG'',
        file_list := [''/d/a.png'', ''/d/b.PNG''], current_index := 1\<rparr>))) = 0 \<and>
   current_index (snd (prev_file example_io (directory_d []) False
     (snd (next_file example_io (directory_d []) False
       ((init_session 500 500)\<lparr>file' := Some ''/d/b.PNG'',
          file_list := [''/d/a.png'', ''/d/b.PNG''], current_index := 1\<rparr>))))) = 1"
proof -
  let ?e = "directory_d []"
  let ?s = "(init_session 500 500)\<lparr>file' := Some ''/d/b.PNG'',
      file_list := [''/d/a.png'', ''/d/b.PNG''], current_index := 1\<rparr>"
  have h: "loaded ?s" "2 \<le> length (file_list ?s)" "0 \<le> current_index ?s"
    "current_index ?s < int (length (file_list ?s))" "\<not> (False \<and> z_label_focus ?s)"
    by (simp_all add: loaded_def)
  have n: "next_file example_io ?e False ?s =
      load_image example_io ?e ''/d/a.png'' (?s\<lparr>current_index := 0, zoom_factor := 1\<rparr>)"
    using next_file_step [of ?s False 0 example_io ?e] h by simp
  have g: "get_length (ramp_reader 1) = Inr 1"
    "get_data (ramp_reader 1) (if 0 < (1 :: int) - 1 then (1 - 1) div 2 else 0) =
       Inr (Gray 1 1 [0])"
    by (simp_all add: ramp_reader_def)
  have c: "rescale_data (Gray 1 1 [0]) = Inr (Gray 1 1 [0])"
    by (simp add: rescale_data_def astype_uint8_def trunc_def)
  have "file' (snd (next_file example_io ?e False ?s)) = Some ''/d/a.png''"
    unfolding n using load_image_loaded [OF choose_reader_single g c,
        of "?s\<lparr>current_index := 0, zoom_factor := 1\<rparr>"]
    by (simp add: directory_d_def)
  then have l: "loaded (snd (next_file example_io ?e False ?s))"
    by (simp add: loaded_def)
  from next_prev_file_roundtrip [of ?s example_io ?e False] h l
  have "current_index (snd (prev_file example_io ?e False
      (snd (next_file example_io ?e False ?s)))) = current_index ?s"
    and "current_index (snd (next_file example_io ?e False ?s)) = 0"
    by simp_all
  with h(1) l show ?thesis by simp
qed

end
